(* ===== verification/Prelude.thy ===== *)
theory Prelude
  imports Main "HOL-Library.Multiset" "HOL-Library.Monad_Syntax"
begin

text \<open>
  Shared vocabulary of the development: the fact collections the component theories feed,
  the type synonyms of the Go values that appear everywhere, and the generic lemmas on lists,
  options and maps that several components use.
\<close>

section \<open>Fact collections\<close>

text \<open>
  \<open>frame_simps\<close> collects the equations that say what an operation leaves alone;
  \<open>guard_simps\<close> the unfolding equations of the small guards and error helpers that every
  handler proof needs.
\<close>

named_theorems frame_simps "what an operation leaves unchanged"
named_theorems guard_simps "definitions of the guards and error helpers"

section \<open>Types of the Go program\<close>

text \<open>
  A Go string is a byte sequence: a \<open>char list\<close>. A Go \<open>map[string]interface{}\<close> that
  is only read by key is a HOL map.
\<close>

type_synonym 'v strmap = "string \<Rightarrow> 'v option"

section \<open>Lists\<close>

text \<open>The last \<open>n\<close> elements: the Go slice \<open>xs[len(xs)-n:]\<close>, or all of \<open>xs\<close> when shorter.\<close>

definition last_n :: "nat \<Rightarrow> 'a list \<Rightarrow> 'a list" where
  "last_n n xs = drop (length xs - n) xs"

lemma length_last_n [simp]: "length (last_n n xs) = min n (length xs)"
  by (simp add: last_n_def min_def)

lemma set_last_n: "set (last_n n xs) \<subseteq> set xs"
  by (simp add: last_n_def set_drop_subset)

lemma sum_list_bounds_int:
  fixes xs :: "int list"
  assumes "\<And>x. x \<in> set xs \<Longrightarrow> lo \<le> x \<and> x \<le> hi"
  shows "lo * int (length xs) \<le> sum_list xs \<and> sum_list xs \<le> hi * int (length xs)"
  using assms by (induction xs) (fastforce simp: algebra_simps)+

lemma find_Some_set: "List.find P xs = Some x \<Longrightarrow> x \<in> set xs \<and> P x"
  by (auto simp: find_Some_iff)

lemma find_None_set: "List.find P xs = None \<longleftrightarrow> (\<forall>x \<in> set xs. \<not> P x)"
  by (auto simp: find_None_iff)

text \<open>Keys of a table: appending a row whose key is new keeps keys distinct.\<close>

lemma distinct_map_snoc:
  "distinct (map f (xs @ [x])) \<longleftrightarrow> distinct (map f xs) \<and> f x \<notin> f ` set xs"
  by auto

lemma distinct_map_key_eq:
  "distinct (map f xs) \<Longrightarrow> x \<in> set xs \<Longrightarrow> y \<in> set xs \<Longrightarrow> f x = f y \<Longrightarrow> x = y"
  by (auto simp: distinct_map inj_on_def)

lemma find_distinct_key:
  "distinct (map f xs) \<Longrightarrow> x \<in> set xs \<Longrightarrow> List.find (\<lambda>y. f y = f x) xs = Some x"
  by (induction xs) (auto simp: image_iff)

lemma filter_distinct_map: "distinct (map f xs) \<Longrightarrow> distinct (map f (filter P xs))"
  by (rule distinct_map_filter)

section \<open>Options and sums\<close>

text \<open>The value of an optional pointer field, with the zero value of the reader for nil.\<close>

definition opt_else :: "'a \<Rightarrow> 'a option \<Rightarrow> 'a" where
  "opt_else d x = (case x of None \<Rightarrow> d | Some v \<Rightarrow> v)"

lemma opt_else_simps [simp]: "opt_else d None = d" "opt_else d (Some v) = v"
  by (simp_all add: opt_else_def)

text \<open>\<open>p != nil && P(*p)\<close> on a pointer field.\<close>

definition ptr_and :: "'a option \<Rightarrow> ('a \<Rightarrow> bool) \<Rightarrow> bool" where
  "ptr_and p P = (case p of None \<Rightarrow> False | Some x \<Rightarrow> P x)"

lemma ptr_and_simps [simp]: "ptr_and None P = False" "ptr_and (Some x) P = P x"
  by (simp_all add: ptr_and_def)

lemma ptr_and_iff: "ptr_and p P \<longleftrightarrow> (\<exists>x. p = Some x \<and> P x)"
  by (cases p) auto

text \<open>SQL \<open>COALESCE\<close> of two columns.\<close>

definition coalesce :: "'a option \<Rightarrow> 'a option \<Rightarrow> 'a option" where
  "coalesce a b = (case a of None \<Rightarrow> b | Some x \<Rightarrow> Some x)"

lemma coalesce_simps [simp]:
  "coalesce None b = b" "coalesce (Some x) b = Some x" "coalesce a None = a"
  by (simp_all add: coalesce_def split: option.splits)

lemma coalesce_assoc: "coalesce (coalesce a b) c = coalesce a (coalesce b c)"
  by (simp add: coalesce_def split: option.splits)

end
