(* ===== verification/Go_Float.thy ===== *)
theory Go_Float
  imports Complex_Main "HOL-Library.Log_Nat" Prelude
begin

text \<open>
  Go's \<open>float64\<close>: IEEE 754 binary64 with round-to-nearest-even. A finite value is the
  rational it denotes (the two zeros are not told apart); the operations the program uses are
  conversion from \<open>int\<close>, addition, division and comparison.
\<close>

section \<open>Rounding to nearest, ties to even\<close>

definition round_even :: "rat \<Rightarrow> int" where
  "round_even x =
     (let f = \<lfloor>x\<rfloor>; d = x - of_int f
      in if d < 1 / 2 then f else if 1 / 2 < d then f + 1 else if even f then f else f + 1)"

lemma round_even_of_int [simp]: "round_even (of_int n) = n"
  by (simp add: round_even_def)

lemma round_even_floor: "\<lfloor>x\<rfloor> \<le> round_even x" "round_even x \<le> \<lfloor>x\<rfloor> + 1"
  by (simp_all add: round_even_def Let_def)

lemma round_even_mono:
  assumes "x \<le> y"
  shows "round_even x \<le> round_even y"
proof (cases "\<lfloor>x\<rfloor> = \<lfloor>y\<rfloor>")
  case True
  with assms show ?thesis by (auto simp: round_even_def Let_def)
next
  case False
  with assms have "\<lfloor>x\<rfloor> + 1 \<le> \<lfloor>y\<rfloor>" using floor_mono [OF assms] by linarith
  then show ?thesis using round_even_floor(2) [of x] round_even_floor(1) [of y] by linarith
qed

section \<open>Binary exponents of rationals\<close>

text \<open>The \<open>e\<close> with \<open>2 ^ e \<le> x < 2 ^ (e + 1)\<close>, for positive \<open>x\<close>.\<close>

definition rat_log2 :: "rat \<Rightarrow> int" where
  "rat_log2 x =
     (let (p, q) = quotient_of x; e = bitlen p - bitlen q
      in if 2 powi e \<le> x then e else e - 1)"

lemma bitlen_powi:
  assumes "0 < (p::int)"
  shows "2 powi (bitlen p - 1) \<le> (of_int p :: rat)" "(of_int p :: rat) < 2 powi (bitlen p)"
proof -
  have b: "0 < bitlen p" using assms by (simp add: bitlen_eq_zero_iff less_le bitlen_nonneg)
  have "2 ^ nat (bitlen p - 1) \<le> p" "p < 2 ^ nat (bitlen p)"
    using bitlen_bounds [OF assms] by blast+
  then have "(of_int (2 ^ nat (bitlen p - 1)) :: rat) \<le> of_int p"
    "(of_int p :: rat) < of_int (2 ^ nat (bitlen p))"
    by (simp_all only: of_int_le_iff of_int_less_iff)
  then show "2 powi (bitlen p - 1) \<le> (of_int p :: rat)" "(of_int p :: rat) < 2 powi (bitlen p)"
    using b by (simp_all add: power_int_def)
qed

lemma rat_log2_bounds:
  assumes "0 < x"
  shows "2 powi (rat_log2 x) \<le> x" "x < 2 powi (rat_log2 x + 1)"
proof -
  obtain p q where pq: "quotient_of x = (p, q)" by (cases "quotient_of x")
  have q: "0 < q" using quotient_of_denom_pos [OF pq] .
  have x: "x = of_int p / of_int q" using quotient_of_div [OF pq] .
  have p: "0 < p" using assms q unfolding x by (simp add: zero_less_divide_iff)
  define e where "e = bitlen p - bitlen q"
  note bp = bitlen_powi [OF p] and bq = bitlen_powi [OF q]
  have "e - 1 = (bitlen p - 1) - bitlen q" by (simp add: e_def)
  then have "2 powi (e - 1) = (2 powi (bitlen p - 1) / 2 powi (bitlen q) :: rat)"
    by (simp add: power_int_diff)
  also have "\<dots> < of_int p / of_int q"
    using bp bq p q by (intro frac_less2) auto
  finally have lo: "2 powi (e - 1) < x" by (simp add: x)
  have "of_int p / of_int q < (2 powi (bitlen p) / 2 powi (bitlen q - 1) :: rat)"
    using bp bq p q by (intro frac_less) auto
  also have "\<dots> = 2 powi (bitlen p - (bitlen q - 1))" by (simp add: power_int_diff)
  also have "bitlen p - (bitlen q - 1) = e + 1" by (simp add: e_def)
  finally have hi: "x < 2 powi (e + 1)" by (simp add: x)
  have log: "rat_log2 x = (if 2 powi e \<le> x then e else e - 1)"
    by (simp add: rat_log2_def pq e_def)
  show "2 powi (rat_log2 x) \<le> x" "x < 2 powi (rat_log2 x + 1)"
    using lo hi by (auto simp: log)
qed

text \<open>A power of two below (above) the value bounds its exponent.\<close>

lemma rat_log2_less:
  assumes "0 < x" "x < 2 powi k"
  shows "rat_log2 x < k"
proof (rule ccontr)
  assume "\<not> rat_log2 x < k"
  then have "(2::rat) powi k \<le> 2 powi (rat_log2 x)" by (intro power_int_increasing) auto
  then show False using rat_log2_bounds(1) [OF assms(1)] assms(2) by linarith
qed

lemma rat_log2_mono:
  assumes "0 < x" "x \<le> y"
  shows "rat_log2 x \<le> rat_log2 y"
proof -
  have "x < 2 powi (rat_log2 y + 1)" using rat_log2_bounds(2) [of y] assms by linarith
  then show ?thesis using rat_log2_less [OF assms(1)] by fastforce
qed

section \<open>Rounding to binary64\<close>

text \<open>The unit in the last place: 53 significant bits, and no exponent below -1074.\<close>

definition ulp :: "rat \<Rightarrow> rat" where
  "ulp x = 2 powi (max (rat_log2 \<bar>x\<bar> - 52) (- 1074))"

definition fl :: "rat \<Rightarrow> rat" where
  "fl x = (if x = 0 then 0 else of_int (round_even (x / ulp x)) * ulp x)"

lemma ulp_pos [simp]: "0 < ulp x" "ulp x \<noteq> 0" "0 \<le> ulp x" by (simp_all add: ulp_def)

lemma fl_0 [simp]: "fl 0 = 0" by (simp add: fl_def)

lemma powi_multiple:
  assumes "a \<le> k"
  shows "\<exists>n::int. (2::rat) powi k = of_int n * 2 powi a"
proof -
  have "k = int (nat (k - a)) + a" using assms by simp
  then have "(2::rat) powi k = 2 powi (int (nat (k - a))) * 2 powi a"
    by (metis power_int_add zero_neq_numeral)
  also have "2 powi (int (nat (k - a))) = (of_int (2 ^ nat (k - a)) :: rat)"
    by (simp only: power_int_of_nat of_int_power of_int_numeral)
  finally show ?thesis by blast
qed

text \<open>A multiple of the unit is represented exactly.\<close>

lemma fl_multiple: "x = of_int n * ulp x \<Longrightarrow> fl x = x"
  by (metis (no_types) fl_def nonzero_mult_div_cancel_right round_even_of_int ulp_pos(2))

lemma fl_mono_pos:
  assumes "0 < x" "x \<le> y"
  shows "fl x \<le> fl y"
proof -
  have y: "0 < y" using assms by simp
  have log: "rat_log2 x \<le> rat_log2 y" by (rule rat_log2_mono [OF assms])
  show ?thesis
  proof (cases "ulp x = ulp y")
    case True
    have "x / ulp x \<le> y / ulp x" using assms by (simp add: divide_right_mono less_imp_le)
    then have "round_even (x / ulp x) \<le> round_even (y / ulp x)" by (rule round_even_mono)
    then have "of_int (round_even (x / ulp x)) * ulp x \<le> of_int (round_even (y / ulp x)) * ulp x"
      by (simp add: mult_right_mono)
    with True assms y show ?thesis by (simp add: fl_def)
  next
    case False
    let ?k = "rat_log2 y"
    have "max (rat_log2 x - 52) (- 1074) \<noteq> max (?k - 52) (- 1074)"
      using False assms y by (auto simp: ulp_def)
    then have lt: "max (rat_log2 x - 52) (- 1074) < max (?k - 52) (- 1074)" using log by linarith
    then have big: "ulp y = 2 powi (?k - 52)" and kx: "rat_log2 x < ?k"
      using y by (auto simp: ulp_def max_def split: if_splits)
    have "x < 2 powi (rat_log2 x + 1)" by (rule rat_log2_bounds(2) [OF assms(1)])
    also have "\<dots> \<le> (2 powi ?k :: rat)" using kx by (intro power_int_increasing) auto
    finally have xk: "x / ulp x \<le> 2 powi ?k / ulp x" by (simp add: divide_right_mono less_imp_le)
    obtain n where n: "(2::rat) powi ?k = of_int n * ulp x"
      using powi_multiple [of "max (rat_log2 x - 52) (- 1074)" ?k] lt assms
      by (auto simp: ulp_def max_def split: if_splits)
    obtain m where m: "(2::rat) powi ?k = of_int m * ulp y"
      using powi_multiple [of "?k - 52" ?k] by (auto simp: big)
    have "round_even (x / ulp x) \<le> round_even (2 powi ?k / ulp x)" by (rule round_even_mono [OF xk])
    also have "2 powi ?k / ulp x = of_int n" by (simp add: n)
    finally have "fl x \<le> of_int n * ulp x" using assms by (simp add: fl_def mult_right_mono)
    then have "fl x \<le> 2 powi ?k" by (simp add: n)
    also have "2 powi ?k \<le> fl y"
    proof -
      have "2 powi ?k / ulp y \<le> y / ulp y"
        using rat_log2_bounds(1) [OF y] by (simp add: divide_right_mono less_imp_le)
      then have "round_even (2 powi ?k / ulp y) \<le> round_even (y / ulp y)" by (rule round_even_mono)
      moreover have "2 powi ?k / ulp y = of_int m" by (simp add: m)
      ultimately have "of_int m * ulp y \<le> fl y" using y by (simp add: fl_def mult_right_mono)
      then show ?thesis by (simp add: m)
    qed
    finally show ?thesis .
  qed
qed

text \<open>Rounding commutes with negation, so monotonicity extends to all values.\<close>

lemma round_even_neg: "round_even (- x) = - round_even x"
proof (cases "x = of_int \<lfloor>x\<rfloor>")
  case True
  then have "round_even (- x) = round_even (of_int (- \<lfloor>x\<rfloor>))" by simp
  also have "\<dots> = - \<lfloor>x\<rfloor>" by (rule round_even_of_int)
  also have "\<lfloor>x\<rfloor> = round_even x" by (subst (2) True) (rule round_even_of_int [symmetric])
  finally show ?thesis .
next
  case False
  have "of_int \<lfloor>x\<rfloor> < x" using False of_int_floor_le [of x] by linarith
  then have "\<lfloor>- x\<rfloor> = - \<lfloor>x\<rfloor> - 1"
    using floor_correct [of x] by (intro floor_unique) auto
  then show ?thesis by (auto simp: round_even_def Let_def)
qed

lemma ulp_neg [simp]: "ulp (- x) = ulp x"
  by (simp add: ulp_def)

lemma fl_neg: "fl (- x) = - fl x"
  by (simp add: fl_def round_even_neg)

lemma fl_nonneg: "0 \<le> x \<Longrightarrow> 0 \<le> fl x"
proof -
  assume "0 \<le> x"
  then have "round_even 0 \<le> round_even (x / ulp x)" by (intro round_even_mono divide_nonneg_pos) auto
  then show ?thesis using round_even_of_int [of 0] by (simp add: fl_def)
qed

lemma fl_mono:
  assumes "x \<le> y"
  shows "fl x \<le> fl y"
proof -
  consider "0 < x" | "x \<le> 0" "0 \<le> y" | "y < 0" by linarith
  then show ?thesis
  proof cases
    case 1
    then show ?thesis using assms by (rule fl_mono_pos)
  next
    case 2
    then have "0 \<le> fl (- x)" "0 \<le> fl y" by (simp_all add: fl_nonneg)
    then show ?thesis by (simp add: fl_neg)
  next
    case 3
    then have "fl (- y) \<le> fl (- x)" using assms by (intro fl_mono_pos) auto
    then show ?thesis by (simp add: fl_neg)
  qed
qed

lemma fl_of_int_pos:
  assumes "0 < n" "n \<le> 2 ^ 53"
  shows "fl (of_int n) = of_int n"
proof -
  let ?k = "rat_log2 (of_int n)"
  have "\<exists>m::int. (of_int n :: rat) = of_int m * ulp (of_int n)"
  proof (cases "n = 2 ^ 53")
    case True
    have "?k \<le> 53"
    proof -
      have "(of_int n :: rat) < 2 powi 54" using True by (simp add: power_int_numeral)
      then show ?thesis using rat_log2_less [of "of_int n" 54] assms by simp
    qed
    then have "max (?k - 52) (- 1074) \<le> 53" by simp
    from powi_multiple [OF this] show ?thesis
      using True assms by (simp add: ulp_def)
  next
    case False
    with assms have "n < 2 ^ 53" by simp
    then have "(of_int n :: rat) < of_int (2 ^ 53)" by (simp only: of_int_less_iff)
    then have "(of_int n :: rat) < 2 powi 53" by simp
    then have "?k < 53" using assms by (intro rat_log2_less) simp_all
    then have "max (?k - 52) (- 1074) \<le> 0" by simp
    from powi_multiple [OF this] obtain m :: int where "1 = of_int m * ulp (of_int n)"
      using assms by (auto simp: ulp_def)
    then have "(of_int n :: rat) = of_int (n * m) * ulp (of_int n)"
      by (metis (no_types, lifting) mult.assoc mult.right_neutral of_int_mult)
    then show ?thesis by blast
  qed
  then show ?thesis by (elim exE) (rule fl_multiple)
qed

lemma fl_of_int: "\<bar>n\<bar> \<le> 2 ^ 53 \<Longrightarrow> fl (of_int n) = of_int n"
proof -
  assume n: "\<bar>n\<bar> \<le> 2 ^ 53"
  consider "0 < n" | "n = 0" | "0 < - n" by linarith
  then show ?thesis
  proof cases
    case 1
    then show ?thesis using n by (intro fl_of_int_pos) auto
  next
    case 3
    then have "fl (of_int (- n)) = of_int (- n)" using n by (intro fl_of_int_pos) auto
    then show ?thesis by (simp add: fl_neg)
  qed simp
qed

section \<open>The rounding interface\<close>

text \<open>
  What the metric computations rely on: rounding is monotone and exact on the integers a
  \<open>float64\<close> can hold. Everything they promise about their results follows from the two laws.
\<close>

locale rounding =
  fixes rnd :: "rat \<Rightarrow> rat"
  assumes rnd_mono: "x \<le> y \<Longrightarrow> rnd x \<le> rnd y"
    and rnd_of_int: "\<bar>n\<bar> \<le> 2 ^ 53 \<Longrightarrow> rnd (of_int n) = of_int n"
begin

lemma rnd_lower: "\<bar>n\<bar> \<le> 2 ^ 53 \<Longrightarrow> of_int n \<le> x \<Longrightarrow> of_int n \<le> rnd x"
  using rnd_mono [of "of_int n" x] by (simp add: rnd_of_int)

lemma rnd_upper: "\<bar>n\<bar> \<le> 2 ^ 53 \<Longrightarrow> x \<le> of_int n \<Longrightarrow> rnd x \<le> of_int n"
  using rnd_mono [of x "of_int n"] by (simp add: rnd_of_int)

lemma rnd_quotient:
  assumes "0 < d" "lo * d \<le> n" "n \<le> hi * d" "\<bar>lo\<bar> \<le> 2 ^ 53" "\<bar>hi\<bar> \<le> 2 ^ 53"
  shows "of_int lo \<le> rnd (of_int n / of_int d)" "rnd (of_int n / of_int d) \<le> of_int hi"
proof -
  have "(of_int (lo * d) :: rat) \<le> of_int n" "(of_int n :: rat) \<le> of_int (hi * d)"
    using assms by (simp_all only: of_int_le_iff)
  then have "of_int lo \<le> (of_int n / of_int d :: rat)" "(of_int n / of_int d :: rat) \<le> of_int hi"
    using assms(1) by (simp_all add: pos_le_divide_eq pos_divide_le_eq)
  then show "of_int lo \<le> rnd (of_int n / of_int d)" "rnd (of_int n / of_int d) \<le> of_int hi"
    using assms by (simp_all add: rnd_lower rnd_upper)
qed

end

interpretation binary64: rounding fl
  by unfold_locales (auto simp: fl_mono fl_of_int)

section \<open>float64 values and operations\<close>

datatype float64 = Fin rat | Inf bool | NaN

definition f64_of_rat :: "rat \<Rightarrow> float64" where
  "f64_of_rat x = (let r = fl x in if \<bar>r\<bar> < 2 ^ 1024 then Fin r else Inf (r < 0))"

definition f64_of_int :: "int \<Rightarrow> float64" where
  "f64_of_int n = f64_of_rat (of_int n)"

fun f64_div :: "float64 \<Rightarrow> float64 \<Rightarrow> float64" where
  "f64_div (Fin a) (Fin b) =
     (if b = 0 then (if a = 0 then NaN else Inf (a < 0)) else f64_of_rat (a / b))"
| "f64_div (Fin a) (Inf s) = Fin 0"
| "f64_div (Inf s) (Fin b) = Inf (s \<noteq> (b < 0))"
| "f64_div _ _ = NaN"

fun f64_add :: "float64 \<Rightarrow> float64 \<Rightarrow> float64" where
  "f64_add (Fin a) (Fin b) = f64_of_rat (a + b)"
| "f64_add (Inf s) (Inf t) = (if s = t then Inf s else NaN)"
| "f64_add (Inf s) (Fin b) = Inf s"
| "f64_add (Fin a) (Inf t) = Inf t"
| "f64_add _ _ = NaN"

fun f64_less :: "float64 \<Rightarrow> float64 \<Rightarrow> bool" where
  "f64_less (Fin a) (Fin b) \<longleftrightarrow> a < b"
| "f64_less (Inf s) (Inf t) \<longleftrightarrow> s \<and> \<not> t"
| "f64_less (Inf s) (Fin b) \<longleftrightarrow> s"
| "f64_less (Fin a) (Inf t) \<longleftrightarrow> \<not> t"
| "f64_less _ _ \<longleftrightarrow> False"

text \<open>Within an integer interval a value rounds to a finite value of the interval.\<close>

definition f64_between :: "int \<Rightarrow> int \<Rightarrow> float64 \<Rightarrow> bool" where
  "f64_between lo hi v = (case v of Fin r \<Rightarrow> of_int lo \<le> r \<and> r \<le> of_int hi | _ \<Rightarrow> False)"

lemma abs_bounds_small:
  fixes r :: rat
  assumes "of_int lo \<le> r" "r \<le> of_int hi" "\<bar>lo\<bar> \<le> 2 ^ 53" "\<bar>hi\<bar> \<le> 2 ^ 53"
  shows "\<bar>r\<bar> < 2 ^ 1024"
proof -
  have "(of_int hi :: rat) \<le> of_int (2 ^ 53)" "(of_int (- (2 ^ 53)) :: rat) \<le> of_int lo"
    using assms(3,4) by (simp_all only: of_int_le_iff)
  then have "\<bar>r\<bar> \<le> 2 ^ 53" using assms(1,2) by simp
  also have "(2 ^ 53 :: rat) < 2 ^ 1024" by (rule power_strict_increasing) simp_all
  finally show ?thesis .
qed

lemma f64_of_int_exact: "\<bar>n\<bar> \<le> 2 ^ 53 \<Longrightarrow> f64_of_int n = Fin (of_int n)"
  using abs_bounds_small [of n "of_int n" n] by (simp add: f64_of_int_def f64_of_rat_def fl_of_int)

text \<open>The evaluation of a conversion that does not round.\<close>

lemma f64_of_int_code [code]:
  "f64_of_int n = (if \<bar>n\<bar> \<le> 2 ^ 53 then Fin (of_int n) else f64_of_rat (of_int n))"
  by (simp only: f64_of_int_exact f64_of_int_def [of n] if_cancel split: if_split) (simp add: f64_of_int_def [symmetric] f64_of_int_exact)

lemma f64_of_rat_between:
  assumes "of_int lo \<le> x" "x \<le> of_int hi" "\<bar>lo\<bar> \<le> 2 ^ 53" "\<bar>hi\<bar> \<le> 2 ^ 53"
  shows "f64_between lo hi (f64_of_rat x)" "f64_of_rat x = Fin (fl x)"
  using binary64.rnd_lower [OF assms(3,1)] binary64.rnd_upper [OF assms(4,2)]
    abs_bounds_small [of lo "fl x" hi] assms
  by (simp_all add: f64_between_def f64_of_rat_def)

lemma f64_ratio_between:
  assumes "0 < d" "d \<le> 2 ^ 53" "\<bar>n\<bar> \<le> 2 ^ 53" "lo * d \<le> n" "n \<le> hi * d"
    and "\<bar>lo\<bar> \<le> 2 ^ 53" "\<bar>hi\<bar> \<le> 2 ^ 53"
  shows "f64_between lo hi (f64_div (f64_of_int n) (f64_of_int d))"
    "f64_div (f64_of_int n) (f64_of_int d) = Fin (fl (of_int n / of_int d))"
  using binary64.rnd_quotient [OF assms(1,4,5,6,7)] assms
    abs_bounds_small [of lo "fl (of_int n / of_int d)" hi]
  by (simp_all add: f64_of_int_exact f64_between_def f64_of_rat_def)

end
