(* ===== verification/Go_Text.thy ===== *)
theory Go_Text
  imports Prelude
begin

text \<open>
  What the program uses of Go's \<open>strconv\<close>, \<open>fmt\<close> and \<open>strings\<close> packages: decimal
  printing and parsing of integers, fixed-width digit fields, \<open>strings.SplitN\<close>,
  \<open>strings.EqualFold\<close> on ASCII, and \<open>strings.Contains\<close>.
\<close>

section \<open>Decimal digits\<close>

definition digit_char :: "nat \<Rightarrow> char" where
  "digit_char n = char_of (48 + n mod 10)"

definition is_digit :: "char \<Rightarrow> bool" where
  "is_digit c \<longleftrightarrow> 48 \<le> (of_char c :: nat) \<and> (of_char c :: nat) \<le> 57"

definition digit_val :: "char \<Rightarrow> nat" where
  "digit_val c = of_char c - 48"

lemma of_digit_char [simp]: "(of_char (digit_char n) :: nat) = 48 + n mod 10"
proof -
  have "48 + n mod 10 < (256 :: nat)" by (simp add: trans_less_add2)
  then show ?thesis by (simp add: digit_char_def)
qed

lemma is_digit_digit_char [simp]: "is_digit (digit_char n)"
  using mod_less_divisor [of 10 n] by (simp add: is_digit_def)

lemma digit_val_digit_char [simp]: "digit_val (digit_char n) = n mod 10"
  by (simp add: digit_val_def)

lemma digit_val_less: "is_digit c \<Longrightarrow> digit_val c < 10"
  unfolding is_digit_def digit_val_def by linarith

lemma not_is_digit_consts [simp]:
  "\<not> is_digit CHR ''-''" "\<not> is_digit CHR ''+''" "\<not> is_digit CHR '':''" "\<not> is_digit CHR ''T''"
  "\<not> is_digit CHR ''Z''" "\<not> is_digit CHR ''.''" "\<not> is_digit CHR '',''"
  by (simp_all add: is_digit_def)

lemma digit_char_neq [simp]:
  "digit_char n \<noteq> CHR ''-''" "digit_char n \<noteq> CHR ''+''"
  "digit_char n \<noteq> CHR ''.''" "digit_char n \<noteq> CHR '',''"
  using is_digit_digit_char [of n] by (auto simp del: is_digit_digit_char)

section \<open>Printing and parsing integers\<close>

fun utoa :: "nat \<Rightarrow> string" where
  "utoa n = (if n < 10 then [digit_char n] else utoa (n div 10) @ [digit_char (n mod 10)])"

declare utoa.simps [simp del]

definition itoa :: "int \<Rightarrow> string" where
  "itoa i = (if i < 0 then CHR ''-'' # utoa (nat (- i)) else utoa (nat i))"

text \<open>The same digits on integers, for evaluation.\<close>

function int_digits :: "int \<Rightarrow> string" where
  "int_digits n = (if n < 10 then [digit_char (nat n)] else int_digits (n div 10) @ [digit_char (nat (n mod 10))])"
  by pat_completeness auto
termination by (relation "measure nat") auto

declare int_digits.simps [simp del]

lemma utoa_int_digits: "utoa n = int_digits (int n)"
proof (induction n rule: utoa.induct)
  case (1 n)
  then show ?case
    by (subst utoa.simps, subst int_digits.simps) (simp add: zdiv_int nat_mod_distrib)
qed

lemma itoa_code [code]: "itoa i = (if i < 0 then CHR ''-'' # int_digits (- i) else int_digits i)"
  by (simp add: itoa_def utoa_int_digits)

text \<open>The value of a digit string, most significant digit first.\<close>

definition digits_val :: "string \<Rightarrow> nat" where
  "digits_val s = foldl (\<lambda>v c. 10 * v + digit_val c) 0 s"

lemma digits_val_Nil [simp]: "digits_val [] = 0"
  by (simp add: digits_val_def)

lemma digits_val_snoc [simp]: "digits_val (s @ [c]) = 10 * digits_val s + digit_val c"
  by (simp add: digits_val_def)

lemma utoa_digits: "list_all is_digit (utoa n)"
proof (induction n rule: utoa.induct)
  case (1 n)
  then show ?case by (subst utoa.simps) simp
qed

lemma utoa_nonempty [simp]: "utoa n \<noteq> []"
  by (subst utoa.simps) simp

lemma digits_val_utoa [simp]: "digits_val (utoa n) = n"
proof (induction n rule: utoa.induct)
  case (1 n)
  show ?case
  proof (cases "n < 10")
    case True
    then show ?thesis by (subst utoa.simps) (simp add: digits_val_def)
  next
    case False
    with 1 have "digits_val (utoa (n div 10)) = n div 10" by simp
    with False show ?thesis by (subst utoa.simps) simp
  qed
qed

lemma utoa_inj: "utoa m = utoa n \<Longrightarrow> m = n"
  by (metis digits_val_utoa)

lemma hd_utoa_neq: "hd (utoa n) \<noteq> CHR ''-''" "hd (utoa n) \<noteq> CHR ''+''"
proof -
  have "is_digit (hd (utoa n))"
    using utoa_digits [of n] by (cases "utoa n") auto
  then show "hd (utoa n) \<noteq> CHR ''-''" "hd (utoa n) \<noteq> CHR ''+''" by auto
qed

text \<open>
  \<open>strconv.ParseInt(s, 10, 64)\<close> (and \<open>strconv.Atoi\<close> on a 64-bit platform): the value
  and whether the error is nil. A syntax error gives 0, a range error the nearest bound.
\<close>

definition max_int64 :: int where "max_int64 = 2 ^ 63 - 1"
definition min_int64 :: int where "min_int64 = - (2 ^ 63)"

definition parse_int64 :: "string \<Rightarrow> int \<times> bool" where
  "parse_int64 s =
     (let (neg, ds) = (case s of [] \<Rightarrow> (False, [])
                        | c # cs \<Rightarrow> if c = CHR ''-'' then (True, cs)
                                    else if c = CHR ''+'' then (False, cs) else (False, s));
          v = (if neg then - int (digits_val ds) else int (digits_val ds))
      in if ds = [] \<or> \<not> list_all is_digit ds then (0, False)
         else if v < min_int64 then (min_int64, False)
         else if max_int64 < v then (max_int64, False)
         else (v, True))"

lemma int_digits_val: "int (digits_val s) = foldl (\<lambda>v c. 10 * v + int (digit_val c)) 0 s"
proof -
  have "int (foldl (\<lambda>v c. 10 * v + digit_val c) n s) = foldl (\<lambda>v c. 10 * v + int (digit_val c)) (int n) s" for n
    by (induction s arbitrary: n) simp_all
  then show ?thesis by (simp add: digits_val_def)
qed

lemmas parse_int64_code [code] = parse_int64_def [unfolded int_digits_val]

lemma parse_int64_itoa:
  assumes "min_int64 \<le> i" and "i \<le> max_int64"
  shows "parse_int64 (itoa i) = (i, True)"
proof (cases "i < 0")
  case True
  then show ?thesis
    using assms by (simp add: parse_int64_def itoa_def utoa_digits)
next
  case False
  then have "itoa i = utoa (nat i)" by (simp add: itoa_def)
  moreover obtain c cs where c: "utoa (nat i) = c # cs"
    by (cases "utoa (nat i)") simp_all
  moreover have "c \<noteq> CHR ''-''" "c \<noteq> CHR ''+''"
    using hd_utoa_neq [of "nat i"] c by auto
  moreover have "digits_val (c # cs) = nat i"
    using digits_val_utoa [of "nat i"] c by simp
  moreover have "list_all is_digit (c # cs)"
    using utoa_digits [of "nat i"] c by simp
  ultimately show ?thesis
    using assms False by (simp add: parse_int64_def)
qed

lemma itoa_inj: "itoa i = itoa j \<Longrightarrow> i = j"
proof -
  assume eq: "itoa i = itoa j"
  have "i < 0 \<longleftrightarrow> hd (itoa i) = CHR ''-''" for i
    using hd_utoa_neq by (auto simp: itoa_def)
  with eq have "i < 0 \<longleftrightarrow> j < 0" by metis
  with eq show "i = j"
    by (auto simp: itoa_def split: if_splits dest!: utoa_inj)
qed

section \<open>Fixed-width digit fields\<close>

definition pad2 :: "nat \<Rightarrow> string" where
  "pad2 n = [digit_char (n div 10), digit_char n]"

definition pad4 :: "nat \<Rightarrow> string" where
  "pad4 n = [digit_char (n div 1000), digit_char (n div 100), digit_char (n div 10), digit_char n]"

text \<open>\<open>getnum2\<close>: exactly two digits; \<open>getnum12\<close>: two digits, or one that no digit follows.\<close>

fun getnum2 :: "string \<Rightarrow> (nat \<times> string) option" where
  "getnum2 (a # b # r) =
     (if is_digit a \<and> is_digit b then Some (10 * digit_val a + digit_val b, r) else None)"
| "getnum2 _ = None"

fun getnum12 :: "string \<Rightarrow> (nat \<times> string) option" where
  "getnum12 [] = None"
| "getnum12 (a # r) =
     (if \<not> is_digit a then None
      else case r of b # r' \<Rightarrow> if is_digit b then Some (10 * digit_val a + digit_val b, r')
                               else Some (digit_val a, r)
           | [] \<Rightarrow> Some (digit_val a, []))"

fun getnum4 :: "string \<Rightarrow> (nat \<times> string) option" where
  "getnum4 (a # b # c # d # r) =
     (if is_digit a \<and> is_digit b \<and> is_digit c \<and> is_digit d
      then Some (1000 * digit_val a + 100 * digit_val b + 10 * digit_val c + digit_val d, r)
      else None)"
| "getnum4 _ = None"

fun expect :: "char \<Rightarrow> string \<Rightarrow> string option" where
  "expect c [] = None"
| "expect c (x # r) = (if x = c then Some r else None)"

lemma getnum2_pad2 [simp]:
  assumes "n < 100"
  shows "getnum2 (pad2 n @ r) = Some (n, r)"
proof -
  have "n div 10 < 10" using assms by simp
  then show ?thesis by (simp add: pad2_def)
qed

lemma getnum12_pad2 [simp]: "n < 100 \<Longrightarrow> getnum12 (pad2 n @ r) = Some (n, r)"
proof -
  assume "n < 100"
  then have "n div 10 < 10" by simp
  then show ?thesis by (simp add: pad2_def)
qed

lemma getnum4_pad4 [simp]:
  assumes "n < 10000"
  shows "getnum4 (pad4 n @ r) = Some (n, r)"
proof -
  define q where "q = n div 10"
  define p where "p = q div 10"
  have "n div 100 = p" "n div 1000 = p div 10"
    by (simp_all add: q_def p_def div_mult2_eq [symmetric])
  moreover have "p div 10 < 10" using assms by (simp add: p_def q_def div_mult2_eq [symmetric])
  moreover have "n = 10 * q + n mod 10" "q = 10 * p + q mod 10" "p = 10 * (p div 10) + p mod 10"
    by (simp_all add: q_def p_def)
  ultimately have "n = 1000 * (p div 10 mod 10) + 100 * (p mod 10) + 10 * (q mod 10) + n mod 10"
    using mod_less [of "p div 10" 10] by linarith
  with \<open>n div 100 = p\<close> \<open>n div 1000 = p div 10\<close>
  have "1000 * (n div 1000 mod 10) + 100 * (n div 100 mod 10) + 10 * (n div 10 mod 10) + n mod 10 = n"
    unfolding q_def by simp
  moreover have "n div 1000 mod 10 = n div 1000" using assms by simp
  ultimately show ?thesis by (simp add: pad4_def)
qed

section \<open>strings\<close>

text \<open>\<open>strings.SplitN(s, " ", 2)\<close>: the part before the first space and the rest after it.\<close>

definition splitn2_space :: "string \<Rightarrow> string list" where
  "splitn2_space s =
     (let a = takeWhile (\<lambda>c. c \<noteq> CHR '' '') s
      in if length a = length s then [s] else [a, drop (Suc (length a)) s])"

definition ascii_lower :: "char \<Rightarrow> char" where
  "ascii_lower c =
     (if 65 \<le> (of_char c :: nat) \<and> (of_char c :: nat) \<le> 90 then char_of ((of_char c :: nat) + 32) else c)"

text \<open>
  \<open>strings.EqualFold\<close> against an ASCII word none of whose letters is k or s (the only ASCII
  letters with a non-ASCII simple folding): byte-wise equality after lowering.
\<close>

definition equal_fold :: "string \<Rightarrow> string \<Rightarrow> bool" where
  "equal_fold s t \<longleftrightarrow> map ascii_lower s = map ascii_lower t"

fun has_prefix :: "string \<Rightarrow> string \<Rightarrow> bool" where
  "has_prefix [] s = True"
| "has_prefix (p # ps) [] = False"
| "has_prefix (p # ps) (c # s) = (p = c \<and> has_prefix ps s)"

text \<open>\<open>strings.Contains\<close>.\<close>

fun contains :: "string \<Rightarrow> string \<Rightarrow> bool" where
  "contains [] p = (p = [])"
| "contains (c # s) p = (has_prefix p (c # s) \<or> contains s p)"

lemma has_prefix_iff: "has_prefix p s \<longleftrightarrow> (\<exists>t. s = p @ t)"
  by (induction p s rule: has_prefix.induct) auto

lemma contains_iff: "contains s p \<longleftrightarrow> (\<exists>a b. s = a @ p @ b)"
proof (induction s)
  case Nil
  then show ?case by simp
next
  case (Cons c s)
  show ?case
  proof
    assume "contains (c # s) p"
    then consider "has_prefix p (c # s)" | "contains s p" by auto
    then show "\<exists>a b. c # s = a @ p @ b"
    proof cases
      case 1
      then show ?thesis by (metis append_Nil has_prefix_iff)
    next
      case 2
      then show ?thesis using Cons.IH by (metis append_Cons)
    qed
  next
    assume "\<exists>a b. c # s = a @ p @ b"
    then obtain a b where eq: "c # s = a @ p @ b" by blast
    show "contains (c # s) p"
    proof (cases a)
      case Nil
      with eq have "has_prefix p (c # s)" by (auto simp: has_prefix_iff)
      then show ?thesis by simp
    next
      case (Cons x a')
      with eq have "\<exists>a b. s = a @ p @ b" by auto
      then show ?thesis by (simp add: Cons.IH)
    qed
  qed
qed

end
