(* ===== verification/Decimal.thy ===== *)
theory Decimal
  imports Go_Float Go_Text
begin

text \<open>
  The interface to the arbitrary-precision \<open>decimal.Decimal\<close> of
  \<open>github.com/shopspring/decimal\<close>, a package outside the repository: the operations the
  program calls are the fields of a record every definition that needs them takes as an
  argument; the laws they are documented to satisfy are the locale \<open>decimal\<close>. The reference
  representation (coefficient and power of ten) shows that the laws can hold.
\<close>

section \<open>The operations and their laws\<close>

record 'd decimal_ops =
  dec_zero :: 'd
  dec_add :: "'d \<Rightarrow> 'd \<Rightarrow> 'd"
  dec_sub :: "'d \<Rightarrow> 'd \<Rightarrow> 'd"
  dec_mul :: "'d \<Rightarrow> 'd \<Rightarrow> 'd"
  dec_is_zero :: "'d \<Rightarrow> bool"
  dec_is_positive :: "'d \<Rightarrow> bool"
  dec_string :: "'d \<Rightarrow> string"
  dec_of_string :: "string \<Rightarrow> 'd option"
  dec_float64 :: "'d \<Rightarrow> float64"
  dec_value :: "'d \<Rightarrow> rat"  \<comment> \<open>the exact value, as the database driver sends it\<close>
  dec_scan :: "rat \<Rightarrow> 'd"   \<comment> \<open>the decimal the driver scans from a NUMERIC column\<close>

text \<open>The values of a \<open>NUMERIC(18,8)\<close> column: multiples of \<open>10 ^ -8\<close>.\<close>

definition scale8 :: "rat \<Rightarrow> bool" where
  "scale8 r \<longleftrightarrow> of_int \<lfloor>r * 10 ^ 8\<rfloor> = r * 10 ^ 8"

lemma scale8_0 [simp]: "scale8 0" by (simp add: scale8_def)

lemma scale8_of_int: "scale8 (of_int n / 10 ^ 8)"
  by (simp add: scale8_def)

lemma scale8_add: "scale8 a \<Longrightarrow> scale8 b \<Longrightarrow> scale8 (a + b)"
proof -
  assume "scale8 a" "scale8 b"
  then have "(a + b) * 10 ^ 8 = of_int (\<lfloor>a * 10 ^ 8\<rfloor> + \<lfloor>b * 10 ^ 8\<rfloor>)"
    by (simp only: scale8_def distrib_right of_int_add)
  then show "scale8 (a + b)" unfolding scale8_def by (simp only: floor_of_int)
qed

locale decimal =
  fixes D :: "'d decimal_ops"
  assumes value_zero: "dec_value D (dec_zero D) = 0"
    and value_add: "dec_value D (dec_add D x y) = dec_value D x + dec_value D y"
    and value_sub: "dec_value D (dec_sub D x y) = dec_value D x - dec_value D y"
    and value_mul: "dec_value D (dec_mul D x y) = dec_value D x * dec_value D y"
    and is_zero_iff: "dec_is_zero D x \<longleftrightarrow> dec_value D x = 0"
    and is_positive_iff: "dec_is_positive D x \<longleftrightarrow> 0 < dec_value D x"
    and of_string_string: "map_option (dec_value D) (dec_of_string D (dec_string D x)) = Some (dec_value D x)"
    and string_nonempty: "dec_string D x \<noteq> []"
    and value_scan: "scale8 r \<Longrightarrow> dec_value D (dec_scan D r) = r"
begin

lemmas value_ops = value_zero value_add value_sub value_mul

text \<open>A sum folded from the left, as the Go loops accumulate it.\<close>

lemma value_foldl:
  "dec_value D (foldl (dec_add D) a xs) = dec_value D a + sum_list (map (dec_value D) xs)"
  by (induction xs arbitrary: a) (simp_all add: value_add)

end

section \<open>The reference representation\<close>

text \<open>A pair \<open>(c, e)\<close> denotes \<open>c * 10 ^ e\<close>, as in the package.\<close>

type_synonym dec = "int \<times> int"

definition ref_value :: "dec \<Rightarrow> rat" where
  "ref_value x = of_int (fst x) * 10 powi (snd x)"

text \<open>The coefficient of a value at a smaller exponent.\<close>

definition ref_rescale :: "int \<Rightarrow> dec \<Rightarrow> int" where
  "ref_rescale e x = fst x * 10 ^ nat (snd x - e)"

definition ref_add :: "dec \<Rightarrow> dec \<Rightarrow> dec" where
  "ref_add x y = (let e = min (snd x) (snd y) in (ref_rescale e x + ref_rescale e y, e))"

definition ref_sub :: "dec \<Rightarrow> dec \<Rightarrow> dec" where
  "ref_sub x y = (let e = min (snd x) (snd y) in (ref_rescale e x - ref_rescale e y, e))"

definition ref_mul :: "dec \<Rightarrow> dec \<Rightarrow> dec" where
  "ref_mul x y = (fst x * fst y, snd x + snd y)"

text \<open>Printing: the digits of the coefficient with the point placed by the exponent.\<close>

definition ref_digits :: "dec \<Rightarrow> string \<times> string" where
  "ref_digits x =
     (let ds = utoa (nat \<bar>fst x\<bar>)
      in if 0 \<le> snd x then (ds @ replicate (nat (snd x)) CHR ''0'', [])
         else let k = nat (- snd x); p = replicate (Suc k - length ds) CHR ''0'' @ ds
              in (take (length p - k) p, drop (length p - k) p))"

definition ref_string :: "dec \<Rightarrow> string" where
  "ref_string x =
     (let (i, f) = ref_digits x
      in (if fst x < 0 then ''-'' else []) @ i @ (if f = [] then [] else CHR ''.'' # f))"

definition ref_of_string :: "string \<Rightarrow> dec option" where
  "ref_of_string s =
     (let (neg, r) = (case s of [] \<Rightarrow> (False, []) | c # cs \<Rightarrow> if c = CHR ''-'' then (True, cs) else (False, s));
          i = takeWhile (\<lambda>c. c \<noteq> CHR ''.'') r; f = drop (Suc (length i)) r
      in if i @ f = [] \<or> \<not> list_all is_digit (i @ f) then None
         else Some ((if neg then - 1 else 1) * int (digits_val (i @ f)), - int (length f)))"

definition ref_scan :: "rat \<Rightarrow> dec" where
  "ref_scan r = (\<lfloor>r * 10 ^ 8\<rfloor>, - 8)"

definition ref_decimal :: "dec decimal_ops" where
  "ref_decimal =
     \<lparr> dec_zero = (0, 1), dec_add = ref_add, dec_sub = ref_sub, dec_mul = ref_mul,
       dec_is_zero = (\<lambda>x. fst x = 0), dec_is_positive = (\<lambda>x. 0 < fst x),
       dec_string = ref_string, dec_of_string = ref_of_string,
       dec_float64 = (\<lambda>x. f64_of_rat (ref_value x)), dec_value = ref_value, dec_scan = ref_scan \<rparr>"

text \<open>Arithmetic is exact.\<close>

lemma ref_rescale_value:
  assumes "e \<le> snd x"
  shows "of_int (ref_rescale e x) * 10 powi e = ref_value x"
proof -
  have "(10::rat) ^ nat (snd x - e) * 10 powi e = 10 powi (int (nat (snd x - e))) * 10 powi e"
    by (simp only: power_int_of_nat)
  also have "\<dots> = 10 powi (snd x)" using assms by (simp add: power_int_add [symmetric])
  finally show ?thesis by (simp add: ref_rescale_def ref_value_def mult.assoc)
qed

lemma ref_value_add: "ref_value (ref_add x y) = ref_value x + ref_value y"
  using ref_rescale_value [of "min (snd x) (snd y)" x] ref_rescale_value [of "min (snd x) (snd y)" y]
  by (simp add: ref_add_def Let_def distrib_right [symmetric] ref_value_def [of "(_, _)"])
    (simp add: distrib_right)

lemma ref_value_sub: "ref_value (ref_sub x y) = ref_value x - ref_value y"
  using ref_rescale_value [of "min (snd x) (snd y)" x] ref_rescale_value [of "min (snd x) (snd y)" y]
  by (simp add: ref_sub_def Let_def ref_value_def [of "(_, _)"] left_diff_distrib)

lemma ref_value_mul: "ref_value (ref_mul x y) = ref_value x * ref_value y"
  by (simp add: ref_mul_def ref_value_def power_int_add algebra_simps)

lemma ref_value_sign: "ref_value x = 0 \<longleftrightarrow> fst x = 0" "0 < ref_value x \<longleftrightarrow> 0 < fst x"
proof -
  have p: "(0::rat) < 10 powi (snd x)" by simp
  then show "ref_value x = 0 \<longleftrightarrow> fst x = 0" by (simp add: ref_value_def)
  show "0 < ref_value x \<longleftrightarrow> 0 < fst x"
    using p unfolding ref_value_def by (metis mult_pos_pos of_int_0_less_iff zero_less_mult_pos2)
qed

text \<open>Printing and parsing round-trip on the value.\<close>

lemma digits_val_foldl: "foldl (\<lambda>v c. 10 * v + digit_val c) a s = a * 10 ^ length s + digits_val s"
proof (induction s arbitrary: a)
  case (Cons c s)
  show ?case
    using Cons.IH [of "10 * a + digit_val c"] Cons.IH [of "digit_val c"]
    by (simp add: digits_val_def algebra_simps)
qed (simp add: digits_val_def)

lemma digits_val_append: "digits_val (s @ t) = digits_val s * 10 ^ length t + digits_val t"
  using digits_val_foldl [of "digits_val s" t] by (simp add: digits_val_def)

lemma digits_val_zeros: "digits_val (replicate n CHR ''0'') = 0"
  by (induction n) (simp_all add: digits_val_append [of "[_]", simplified] digits_val_def digit_val_def)

lemma is_digit_0: "is_digit CHR ''0''" by (simp add: is_digit_def)

lemma ref_digits_props:
  assumes "ref_digits x = (i, f)"
  shows "list_all is_digit (i @ f)" "i \<noteq> []"
    "int (length f) = (if snd x < 0 then - snd x else 0)"
    "digits_val (i @ f) = nat \<bar>fst x\<bar> * 10 ^ nat (snd x)"
proof -
  let ?ds = "utoa (nat \<bar>fst x\<bar>)"
  have ds: "list_all is_digit ?ds" "?ds \<noteq> []" "digits_val ?ds = nat \<bar>fst x\<bar>"
    by (simp_all add: utoa_digits)
  define k where "k = nat (- snd x)"
  define p where "p = replicate (Suc k - length ?ds) CHR ''0'' @ ?ds"
  have p: "k < length p" "list_all is_digit p" "digits_val p = nat \<bar>fst x\<bar>"
    using ds
    by (simp_all add: p_def digits_val_append digits_val_zeros list_all_iff is_digit_0 set_replicate_conv_if)
  have "list_all is_digit (i @ f) \<and> i \<noteq> [] \<and> int (length f) = (if snd x < 0 then - snd x else 0)
    \<and> digits_val (i @ f) = nat \<bar>fst x\<bar> * 10 ^ nat (snd x)"
  proof (cases "0 \<le> snd x")
    case True
    then have "i = ?ds @ replicate (nat (snd x)) CHR ''0''" "f = []"
      using assms by (simp_all add: ref_digits_def Let_def)
    with True ds show ?thesis
      by (simp add: digits_val_append digits_val_zeros list_all_iff is_digit_0 set_replicate_conv_if)
  next
    case False
    then have "i = take (length p - k) p" "f = drop (length p - k) p"
      using assms by (simp_all add: ref_digits_def Let_def k_def p_def)
    moreover have "p \<noteq> []" using p(1) by auto
    ultimately show ?thesis using False p by (simp add: k_def)
  qed
  then show "list_all is_digit (i @ f)" "i \<noteq> []"
    "int (length f) = (if snd x < 0 then - snd x else 0)"
    "digits_val (i @ f) = nat \<bar>fst x\<bar> * 10 ^ nat (snd x)" by blast+
qed

lemma ref_of_string_string:
  "map_option ref_value (ref_of_string (ref_string x)) = Some (ref_value x)"
proof -
  obtain i f where d: "ref_digits x = (i, f)" by (cases "ref_digits x")
  note pr = ref_digits_props [OF d]
  have nodot: "\<forall>c \<in> set (i @ f). c \<noteq> CHR ''.''" and nominus: "hd i \<noteq> CHR ''-''"
    using pr(1,2) not_is_digit_consts by (auto simp del: not_is_digit_consts simp: list_all_iff dest!: hd_in_set)
  define body where "body = i @ (if f = [] then [] else CHR ''.'' # f)"
  have tw: "takeWhile (\<lambda>c. c \<noteq> CHR ''.'') body = i"
    using nodot by (simp add: body_def takeWhile_append)
  have rest: "drop (Suc (length i)) body = f" by (simp add: body_def)
  obtain c cs where body: "body = c # cs" "c \<noteq> CHR ''-''"
    using pr(2) nominus by (cases i) (auto simp: body_def)
  have str: "ref_string x = (if fst x < 0 then ''-'' else []) @ body"
    by (simp add: ref_string_def d body_def)
  have parsed: "ref_of_string (ref_string x) =
      Some ((if fst x < 0 then - 1 else 1) * int (digits_val (i @ f)), - int (length f))"
    using pr(1,2) tw rest body
    by (cases "fst x < 0") (simp_all add: ref_of_string_def str Let_def)
  have sgn: "(if fst x < 0 then - 1 else 1) * int (nat \<bar>fst x\<bar>) = fst x" by simp
  have "(if fst x < 0 then - 1 else 1) * int (digits_val (i @ f)) = fst x * 10 ^ nat (snd x)"
    unfolding pr(4) of_nat_mult by (subst mult.assoc [symmetric], subst sgn) simp
  then show ?thesis
    unfolding parsed pr(3)
    by (cases "snd x < 0") (auto simp: ref_value_def power_int_def)
qed

lemma ref_string_nonempty: "ref_string x \<noteq> []"
proof -
  have "fst (ref_digits x) \<noteq> []"
    by (auto simp: ref_digits_def Let_def)
  then show ?thesis by (auto simp: ref_string_def split: prod.splits)
qed

interpretation ref: decimal ref_decimal
proof
  show "dec_value ref_decimal (dec_scan ref_decimal r) = r" if "scale8 r" for r
    using that by (simp add: ref_decimal_def ref_scan_def ref_value_def scale8_def power_int_minus)
qed (simp_all add: ref_decimal_def ref_value_add ref_value_sub ref_value_mul ref_value_sign
  ref_of_string_string ref_string_nonempty ref_value_def [of "(0, _)"])

end
