(* ===== verification/Go_Time.thy ===== *)
theory Go_Time
  imports Go_Text
begin

text \<open>
  What the program uses of Go's \<open>time\<close> package. A \<open>time.Time\<close> is the instant it
  denotes, in nanoseconds since the Unix epoch; a \<open>time.Duration\<close> is its nanosecond
  count. Values are printed in UTC, the zone of the containers the program runs in.
\<close>

type_synonym time = int
type_synonym duration = int

section \<open>Instants and durations\<close>

definition second :: duration where "second = 10 ^ 9"
definition minute :: duration where "minute = 60 * second"
definition hour :: duration where "hour = 60 * minute"
definition millisecond :: duration where "millisecond = 10 ^ 6"

lemmas duration_defs = second_def minute_def hour_def millisecond_def

text \<open>The zero \<open>time.Time\<close> is January 1, year 1, 00:00 UTC.\<close>

definition zero_time :: time where "zero_time = - 62135596800 * 10 ^ 9"

definition time_is_zero :: "time \<Rightarrow> bool" where "time_is_zero t \<longleftrightarrow> t = zero_time"

text \<open>\<open>Time.Sub\<close> saturates at the bounds of the 64-bit \<open>Duration\<close>.\<close>

definition time_sub :: "time \<Rightarrow> time \<Rightarrow> duration" where
  "time_sub t u = max min_int64 (min max_int64 (t - u))"

text \<open>\<open>Time.Truncate\<close> rounds down to a multiple of \<open>d\<close> since the zero time.\<close>

definition time_truncate :: "time \<Rightarrow> duration \<Rightarrow> time" where
  "time_truncate t d = (if d \<le> 0 then t else t - (t - zero_time) mod d)"

definition time_unix :: "int \<Rightarrow> time" where "time_unix sec = sec * second"
definition unix :: "time \<Rightarrow> int" where "unix t = t div second"
definition unix_milli :: "time \<Rightarrow> int" where "unix_milli t = t div millisecond"
definition time_unix_milli :: "int \<Rightarrow> time" where "time_unix_milli ms = ms * millisecond"

lemma time_sub_less_iff: "0 < d \<Longrightarrow> d \<le> max_int64 \<Longrightarrow> time_sub t u < d \<longleftrightarrow> t - u < d"
  by (auto simp: time_sub_def max_int64_def min_int64_def)

lemma time_sub_neg_iff: "time_sub t u < 0 \<longleftrightarrow> t < u"
  by (auto simp: time_sub_def max_int64_def min_int64_def)

lemma time_truncate_le: "time_truncate t d \<le> t"
  by (auto simp: time_truncate_def)

lemma time_truncate_gt: "0 < d \<Longrightarrow> t - d < time_truncate t d"
  using pos_mod_bound [of d "t - zero_time"] by (simp add: time_truncate_def)

lemma time_truncate_mult:
  "0 < d \<Longrightarrow> time_truncate t d = zero_time + d * ((t - zero_time) div d)"
  by (simp add: time_truncate_def minus_mod_eq_mult_div [symmetric])

lemma time_truncate_idem: "time_truncate (time_truncate t d) d = time_truncate t d"
proof (cases "0 < d")
  case True
  then show ?thesis by (simp add: time_truncate_mult)
qed (simp add: time_truncate_def)

lemma time_truncate_eq_iff:
  "0 < d \<Longrightarrow> time_truncate t d = time_truncate u d \<longleftrightarrow> (t - zero_time) div d = (u - zero_time) div d"
  by (simp add: time_truncate_mult)

text \<open>Dropping the sub-second part does not change the hour, or any bucket of whole seconds.\<close>

lemma time_truncate_second:
  assumes "0 < n"
  shows "time_truncate (t - t mod second) (n * second) = time_truncate t (n * second)"
proof -
  have z: "zero_time = - 62135596800 * second" by (simp add: zero_time_def second_def)
  have "(t - t mod second - zero_time) div second = (t - zero_time) div second"
  proof -
    have "t - t mod second - zero_time = (t div second + 62135596800) * second"
      by (simp add: z algebra_simps minus_mod_eq_mult_div)
    moreover have "(t - zero_time) div second = t div second + 62135596800"
      by (simp add: z second_def)
    ultimately show ?thesis by (simp add: second_def)
  qed
  then have "(t - t mod second - zero_time) div (n * second) = (t - zero_time) div (n * second)"
    using assms by (simp add: mult.commute [of n] zdiv_zmult2_eq)
  then show ?thesis
    using assms by (subst time_truncate_eq_iff) (simp_all add: second_def)
qed

section \<open>The proleptic Gregorian calendar\<close>

definition leap :: "int \<Rightarrow> bool" where
  "leap y \<longleftrightarrow> y mod 4 = 0 \<and> (y mod 100 \<noteq> 0 \<or> y mod 400 = 0)"

text \<open>Days from January 1, year 1 to January 1 of the year.\<close>

definition days_before_year :: "int \<Rightarrow> int" where
  "days_before_year y = 365 * (y - 1) + (y - 1) div 4 - (y - 1) div 100 + (y - 1) div 400"

definition month_start :: "bool \<Rightarrow> nat \<Rightarrow> int" where
  "month_start l m =
     [0, 31, 59, 90, 120, 151, 181, 212, 243, 273, 304, 334] ! (m - 1) + (if l \<and> 2 < m then 1 else 0)"

definition days_in_month :: "bool \<Rightarrow> nat \<Rightarrow> int" where
  "days_in_month l m =
     (if l \<and> m = 2 then 29 else [31, 28, 31, 30, 31, 30, 31, 31, 30, 31, 30, 31] ! (m - 1))"

definition month_of_yday :: "bool \<Rightarrow> int \<Rightarrow> nat" where
  "month_of_yday l yd =
     (if yd < month_start l 2 then 1 else if yd < month_start l 3 then 2
      else if yd < month_start l 4 then 3 else if yd < month_start l 5 then 4
      else if yd < month_start l 6 then 5 else if yd < month_start l 7 then 6
      else if yd < month_start l 8 then 7 else if yd < month_start l 9 then 8
      else if yd < month_start l 10 then 9 else if yd < month_start l 11 then 10
      else if yd < month_start l 12 then 11 else 12)"

text \<open>Year and day of the year of a day number, by 400-, 100-, 4- and 1-year cycles.\<close>

definition year_yday :: "int \<Rightarrow> int \<times> int" where
  "year_yday n =
     (let a = n div 146097; r1 = n mod 146097;
          b = min 3 (r1 div 36524); r2 = r1 - 36524 * b;
          c = r2 div 1461; r3 = r2 mod 1461;
          e = min 3 (r3 div 365)
      in (400 * a + 100 * b + 4 * c + e + 1, r3 - 365 * e))"

definition date_of_days :: "int \<Rightarrow> int \<times> nat \<times> nat" where
  "date_of_days n =
     (let (y, yd) = year_yday n; m = month_of_yday (leap y) yd
      in (y, m, nat (yd - month_start (leap y) m + 1)))"

definition days_of_date :: "int \<Rightarrow> nat \<Rightarrow> nat \<Rightarrow> int" where
  "days_of_date y m d = days_before_year y + month_start (leap y) m + int d - 1"

lemma cycle_divs:
  fixes a b c e :: int
  assumes "0 \<le> b" "b \<le> 3" "0 \<le> c" "c \<le> 24" "0 \<le> e" "e \<le> 3"
  shows "(400 * a + 100 * b + 4 * c + e) div 4 = 100 * a + 25 * b + c"
    and "(400 * a + 100 * b + 4 * c + e) div 100 = 4 * a + b"
    and "(400 * a + 100 * b + 4 * c + e) div 400 = a"
proof -
  show "(400 * a + 100 * b + 4 * c + e) div 4 = 100 * a + 25 * b + c"
    by (rule int_div_pos_eq [where r = e]) (use assms in auto)
  show "(400 * a + 100 * b + 4 * c + e) div 100 = 4 * a + b"
    by (rule int_div_pos_eq [where r = "4 * c + e"]) (use assms in auto)
  show "(400 * a + 100 * b + 4 * c + e) div 400 = a"
    by (rule int_div_pos_eq [where r = "100 * b + 4 * c + e"]) (use assms in auto)
qed

text \<open>One level of the cycles: the quotient capped at 3 leaves a remainder of at most one cycle.\<close>

lemma capped_div:
  fixes r d :: int
  assumes "0 \<le> r" "r \<le> 4 * d" "0 < d"
  shows "0 \<le> min 3 (r div d)" "0 \<le> r - d * min 3 (r div d)" "r - d * min 3 (r div d) \<le> d"
    "r - d * min 3 (r div d) = d \<Longrightarrow> r = 4 * d"
proof -
  have q: "r = d * (r div d) + r mod d" "0 \<le> r mod d" "r mod d < d" "0 \<le> r div d"
    using assms by (simp_all add: pos_imp_zdiv_nonneg_iff)
  show "0 \<le> min 3 (r div d)" using q by simp
  have "0 \<le> r - d * min 3 (r div d) \<and> r - d * min 3 (r div d) \<le> d
    \<and> (r - d * min 3 (r div d) = d \<longrightarrow> r = 4 * d)"
  proof (cases "r div d \<le> 3")
    case True
    then have "r - d * min 3 (r div d) = r mod d" by (simp add: minus_mult_div_eq_mod)
    with q show ?thesis by simp
  next
    case False
    then have "d * 4 \<le> d * (r div d)" using assms by (intro mult_left_mono) auto
    with q have "4 * d \<le> r" by linarith
    with assms(2) have "r = 4 * d" by linarith
    moreover have "min 3 (r div d) = 3" using False by simp
    ultimately show ?thesis using assms(3) by simp
  qed
  then show "0 \<le> r - d * min 3 (r div d)" "r - d * min 3 (r div d) \<le> d"
    "r - d * min 3 (r div d) = d \<Longrightarrow> r = 4 * d" by blast+
qed

lemma leap_cycle_end:
  fixes a b c :: int
  assumes "0 \<le> b" "b \<le> 3" "0 \<le> c" "c \<le> 24" "c = 24 \<longrightarrow> b = 3"
  shows "leap (400 * a + 100 * b + 4 * c + 4)"
proof (cases "c = 24")
  case True
  with assms have "400 * a + 100 * b + 4 * c + 4 = 400 * (a + 1)" by simp
  moreover have "(400 * (a + 1)) mod 400 = 0" by (rule mod_mult_self1_is_0)
  moreover have "(4::int) dvd 400 * (a + 1)" by (rule dvd_mult2) simp
  ultimately show ?thesis unfolding leap_def by (simp only: mod_eq_0_iff_dvd) simp
next
  case False
  have "400 * a + 100 * b + 4 * c + 4 = 4 * (100 * a + 25 * b + c + 1)" by simp
  then have "(400 * a + 100 * b + 4 * c + 4) mod 4 = 0" by (simp only: mod_mult_self1_is_0)
  moreover have "400 * a + 100 * b + 4 * c + 4 = 100 * (4 * a + b) + (4 * c + 4)" by simp
  then have "(400 * a + 100 * b + 4 * c + 4) mod 100 = 4 * c + 4"
    using False assms by (simp only: mod_mult_self4 mod_pos_pos_trivial)
  ultimately show ?thesis using assms by (simp add: leap_def)
qed

lemma year_yday_sound:
  assumes "year_yday n = (y, yd)"
  shows "days_before_year y + yd = n" "0 \<le> yd" "yd < 365 + of_bool (leap y)"
proof -
  define a where "a = n div 146097"
  define r1 where "r1 = n mod 146097"
  define b where "b = min 3 (r1 div 36524)"
  define r2 where "r2 = r1 - 36524 * b"
  define c where "c = r2 div 1461"
  define r3 where "r3 = r2 mod 1461"
  define e where "e = min 3 (r3 div 365)"
  have y: "y = 400 * a + 100 * b + 4 * c + e + 1" and yd: "yd = r3 - 365 * e"
    using assms
    unfolding year_yday_def Let_def prod.inject a_def r1_def b_def r2_def c_def r3_def e_def
    by (elim conjE, simp only:)+
  have r1: "0 \<le> r1" "r1 < 146097" and n: "n = 146097 * a + r1"
    by (simp_all add: r1_def a_def)
  have b: "0 \<le> b" "b \<le> 3" and r2: "0 \<le> r2" "r2 \<le> 36524"
    using capped_div [of r1 36524] r1 unfolding b_def r2_def by auto
  have b3: "b = 3" if "r2 = 36524"
    using capped_div(4) [of r1 36524] r1 that unfolding b_def r2_def by simp
  have r2': "r2 = 1461 * c + r3" and r3: "0 \<le> r3" "r3 < 1461" by (simp_all add: c_def r3_def)
  have c: "0 \<le> c" "c \<le> 24" using r2 unfolding c_def by auto
  have e: "0 \<le> e" "e \<le> 3" using r3 unfolding e_def by (auto simp: min_def)
  have ydb: "0 \<le> yd" "yd \<le> 365"
    using capped_div(2,3) [of r3 365] r3 unfolding yd e_def by auto
  have yd365: "e = 3 \<and> r3 = 1460" if "yd = 365"
    using capped_div(4) [of r3 365] r3 that unfolding yd e_def by simp
  show "days_before_year y + yd = n"
    using cycle_divs [OF b c e, of a] r2' n unfolding y yd days_before_year_def r2_def by simp
  show "0 \<le> yd" by fact
  show "yd < 365 + of_bool (leap y)"
  proof (cases "yd = 365")
    case True
    have full: "e = 3" "r3 = 1460" using yd365 [OF True] by auto
    have "b = 3" if "c = 24" using r2' r2 full that by (intro b3) simp
    then have "leap (400 * a + 100 * b + 4 * c + 4)" by (intro leap_cycle_end b c) simp
    moreover have "400 * a + 100 * b + 4 * c + 4 = y" using full y by simp
    ultimately have "leap y" by (simp only:)
    with True show ?thesis by simp
  next
    case False
    with ydb show ?thesis by auto
  qed
qed

lemma month_table [simp]:
  "month_start l 1 = 0" "month_start l (Suc 0) = 0" "month_start l 2 = 31"
  "month_start l 3 = 59 + of_bool l" "month_start l 4 = 90 + of_bool l"
  "month_start l 5 = 120 + of_bool l" "month_start l 6 = 151 + of_bool l"
  "month_start l 7 = 181 + of_bool l" "month_start l 8 = 212 + of_bool l"
  "month_start l 9 = 243 + of_bool l" "month_start l 10 = 273 + of_bool l"
  "month_start l 11 = 304 + of_bool l" "month_start l 12 = 334 + of_bool l"
  "days_in_month l 1 = 31" "days_in_month l (Suc 0) = 31" "days_in_month l 2 = 28 + of_bool l"
  "days_in_month l 3 = 31" "days_in_month l 4 = 30" "days_in_month l 5 = 31"
  "days_in_month l 6 = 30" "days_in_month l 7 = 31" "days_in_month l 8 = 31"
  "days_in_month l 9 = 30" "days_in_month l 10 = 31" "days_in_month l 11 = 30"
  "days_in_month l 12 = 31"
  by (simp_all add: month_start_def days_in_month_def)

lemma month_of_yday_range: "1 \<le> month_of_yday l yd" "month_of_yday l yd \<le> 12"
  by (simp_all add: month_of_yday_def)

lemma month_of_yday_sound:
  assumes "0 \<le> yd" and "yd < 365 + of_bool l"
  shows "month_start l (month_of_yday l yd) \<le> yd"
    "yd < month_start l (month_of_yday l yd) + days_in_month l (month_of_yday l yd)"
  using assms unfolding month_of_yday_def by (auto split: if_splits)

text \<open>A day number and its date determine each other, and the date is a valid one.\<close>

lemma days_of_date_of_days:
  assumes "date_of_days n = (y, m, d)"
  shows "days_of_date y m d = n" "1 \<le> m" "m \<le> 12" "1 \<le> d" "int d \<le> days_in_month (leap y) m"
proof -
  obtain yd where yy: "year_yday n = (y, yd)" and m: "m = month_of_yday (leap y) yd"
    and d: "d = nat (yd - month_start (leap y) m + 1)"
    using assms by (auto simp: date_of_days_def Let_def split: prod.splits)
  note s = year_yday_sound [OF yy]
  note ms = month_of_yday_sound [OF s(2,3), folded m]
  show "1 \<le> m" "m \<le> 12" unfolding m by (rule month_of_yday_range)+
  show "1 \<le> d" "int d \<le> days_in_month (leap y) m" using ms d by auto
  show "days_of_date y m d = n" using ms d s(1) by (simp add: days_of_date_def)
qed

section \<open>time.RFC3339\<close>

definition unix_epoch_days_secs :: int where "unix_epoch_days_secs = 62135596800"

text \<open>
  \<open>Time.Format(time.RFC3339)\<close> in UTC, for the years 0 to 9999 that RFC 3339 can name:
  whole seconds only, the sub-second part is dropped.
\<close>

definition format_rfc3339 :: "time \<Rightarrow> string" where
  "format_rfc3339 t =
     (let s = t div second + unix_epoch_days_secs; sod = nat (s mod 86400);
          (y, m, d) = date_of_days (s div 86400)
      in pad4 (nat y) @ ''-'' @ pad2 m @ ''-'' @ pad2 d @ ''T'' @ pad2 (sod div 3600) @ '':'' @
         pad2 (sod div 60 mod 60) @ '':'' @ pad2 (sod mod 60) @ ''Z'')"

definition year_of :: "time \<Rightarrow> int" where
  "year_of t = fst (date_of_days ((t div second + unix_epoch_days_secs) div 86400))"

lemma year_of_truncate_hour: "year_of (time_truncate t hour) = year_of t"
proof -
  have day: "(u div second + unix_epoch_days_secs) div 86400 = (u - zero_time) div hour div 24" for u
  proof -
    have "(u - zero_time) div second = u div second + unix_epoch_days_secs"
      using div_mult_self1 [of second u 62135596800]
      by (simp add: zero_time_def second_def unix_epoch_days_secs_def)
    moreover have "x div hour div 24 = x div second div 86400" for x
      by (simp add: duration_defs zdiv_zmult2_eq [symmetric])
    ultimately show ?thesis by simp
  qed
  have "(time_truncate t hour - zero_time) div hour = (t - zero_time) div hour"
    by (simp add: time_truncate_mult duration_defs)
  then show ?thesis by (simp only: year_of_def day)
qed

definition rfc3339_range :: "time \<Rightarrow> bool" where
  "rfc3339_range t \<longleftrightarrow> 0 \<le> year_of t \<and> year_of t \<le> 9999"

text \<open>
  \<open>time.Parse(time.RFC3339, s)\<close>: fixed-width fields, an hour of one or two digits, an
  optional fraction after a period or comma of which nine digits count, and the zone \<open>Z\<close> or
  a signed offset of at most 24 hours and 60 minutes.
\<close>

fun parse_frac :: "string \<Rightarrow> int \<times> string" where
  "parse_frac (c # d # r) =
     (if (c = CHR ''.'' \<or> c = CHR '','') \<and> is_digit d
      then let ds = takeWhile is_digit (d # r); ns = take 9 ds
           in (int (digits_val ns * 10 ^ (9 - length ns)), dropWhile is_digit (d # r))
      else (0, c # d # r))"
| "parse_frac s = (0, s)"

fun parse_zone :: "string \<Rightarrow> (int \<times> string) option" where
  "parse_zone (g # r) =
     (if g = CHR ''Z'' then Some (0, r)
      else do {
        (hh, r) \<leftarrow> getnum2 r;
        r \<leftarrow> expect CHR '':'' r;
        (mm, r) \<leftarrow> getnum2 r;
        if 24 < hh \<or> 60 < mm then None
        else if g = CHR ''+'' then Some (int ((hh * 60 + mm) * 60), r)
        else if g = CHR ''-'' then Some (- int ((hh * 60 + mm) * 60), r)
        else None })"
| "parse_zone [] = None"

definition parse_rfc3339 :: "string \<Rightarrow> time option" where
  "parse_rfc3339 s0 = do {
     (y, s) \<leftarrow> getnum4 s0;
     s \<leftarrow> expect CHR ''-'' s;
     (mo, s) \<leftarrow> getnum2 s;
     s \<leftarrow> expect CHR ''-'' s;
     (d, s) \<leftarrow> getnum2 s;
     s \<leftarrow> expect CHR ''T'' s;
     (h, s) \<leftarrow> getnum12 s;
     s \<leftarrow> expect CHR '':'' s;
     (mi, s) \<leftarrow> getnum2 s;
     s \<leftarrow> expect CHR '':'' s;
     (se, s) \<leftarrow> getnum2 s;
     let (ns, s) = parse_frac s;
     (off, s) \<leftarrow> parse_zone s;
     if s \<noteq> [] \<or> mo < 1 \<or> 12 < mo \<or> 24 \<le> h \<or> 60 \<le> mi \<or> 60 \<le> se
        \<or> d < 1 \<or> days_in_month (leap (int y)) mo < int d
     then None
     else Some ((days_of_date (int y) mo d * 86400 + int h * 3600 + int mi * 60 + int se
                  - unix_epoch_days_secs - off) * second + ns) }"

text \<open>Reading back what was printed loses exactly the sub-second part.\<close>

lemma days_in_month_le: "1 \<le> m \<Longrightarrow> m \<le> 12 \<Longrightarrow> days_in_month l m \<le> 31"
proof -
  assume "1 \<le> m" "m \<le> 12"
  then have "m = 1 \<or> m = 2 \<or> m = 3 \<or> m = 4 \<or> m = 5 \<or> m = 6 \<or> m = 7 \<or> m = 8 \<or> m = 9
    \<or> m = 10 \<or> m = 11 \<or> m = 12" by presburger
  then show ?thesis by (elim disjE) simp_all
qed

lemma seconds_of_day:
  fixes s :: int
  defines "sod \<equiv> nat (s mod 86400)"
  shows "(s div 86400) * 86400 + int (sod div 3600) * 3600 + int (sod div 60 mod 60) * 60
    + int (sod mod 60) = s" "sod div 3600 < 24"
proof -
  have b: "0 \<le> s mod 86400" "s mod 86400 < 86400" by simp_all
  then have "int sod = s mod 86400" by (simp add: sod_def)
  moreover have "sod = 60 * (sod div 60) + sod mod 60" by simp
  moreover have "sod div 60 = 60 * (sod div 60 div 60) + sod div 60 mod 60" by simp
  moreover have "sod div 60 div 60 = sod div 3600" by (simp add: div_mult2_eq [symmetric])
  moreover have "s = 86400 * (s div 86400) + s mod 86400" by simp
  ultimately show "(s div 86400) * 86400 + int (sod div 3600) * 3600 + int (sod div 60 mod 60) * 60
    + int (sod mod 60) = s" by linarith
  have "sod < 86400" using b by (simp add: sod_def nat_less_iff)
  then show "sod div 3600 < 24" by (simp add: less_mult_imp_div_less)
qed

lemma parse_format_rfc3339:
  assumes "rfc3339_range t"
  shows "parse_rfc3339 (format_rfc3339 t) = Some (t - t mod second)"
proof -
  define s where "s = t div second + unix_epoch_days_secs"
  define sod where "sod = nat (s mod 86400)"
  obtain y m d where date: "date_of_days (s div 86400) = (y, m, d)" by (cases "date_of_days (s div 86400)")
  note dd = days_of_date_of_days [OF date]
  have y: "0 \<le> y" "y \<le> 9999"
    using assms date by (simp_all add: rfc3339_range_def year_of_def s_def)
  have d: "d < 100" using dd(5) days_in_month_le [OF dd(2,3), of "leap y"] by linarith
  have fmt: "format_rfc3339 t = pad4 (nat y) @ ''-'' @ pad2 m @ ''-'' @ pad2 d @ ''T'' @
      pad2 (sod div 3600) @ '':'' @ pad2 (sod div 60 mod 60) @ '':'' @ pad2 (sod mod 60) @ ''Z''"
    by (simp add: format_rfc3339_def Let_def s_def [symmetric] date sod_def)
  have bounds: "nat y < 10000" "m < 100" "sod div 3600 < 100" "sod div 60 mod 60 < 100" "sod mod 60 < 100"
    using y dd(3) seconds_of_day(2) [of s, folded sod_def] by (simp_all add: less_trans [of _ 60 100])
  have pn: "getnum4 (pad4 (nat y) @ r) = Some (nat y, r)"
    "getnum2 (pad2 m @ r) = Some (m, r)" "getnum2 (pad2 d @ r) = Some (d, r)"
    "getnum12 (pad2 (sod div 3600) @ r) = Some (sod div 3600, r)"
    "getnum2 (pad2 (sod div 60 mod 60) @ r) = Some (sod div 60 mod 60, r)"
    "getnum2 (pad2 (sod mod 60) @ r) = Some (sod mod 60, r)" for r
    using bounds d by simp_all
  have t: "t - t mod second = (s - unix_epoch_days_secs) * second"
    by (simp add: s_def minus_mod_eq_mult_div mult.commute)
  have parsed: "parse_rfc3339 (format_rfc3339 t) =
      Some ((days_of_date y m d * 86400 + int (sod div 3600) * 3600 + int (sod div 60 mod 60) * 60
        + int (sod mod 60) - unix_epoch_days_secs) * second)"
    unfolding fmt parse_rfc3339_def
    using dd y seconds_of_day(2) [of s, folded sod_def] mod_less_divisor [of 60 sod]
      mod_less_divisor [of 60 "sod div 60"]
    by (simp add: pn not_le)
  show ?thesis
    unfolding parsed t dd(1) using seconds_of_day(1) [of s, folded sod_def] by simp
qed

text \<open>A printed time is one second-aligned instant: printing is injective up to the fraction.\<close>

lemma format_rfc3339_inj:
  assumes "rfc3339_range t" "rfc3339_range u" "format_rfc3339 t = format_rfc3339 u"
  shows "t - t mod second = u - u mod second"
  using parse_format_rfc3339 [OF assms(1)] parse_format_rfc3339 [OF assms(2)] assms(3) by simp

end
