(* ===== verification/Domain.thy ===== *)
theory Domain
  imports Decimal Go_Time
begin

text \<open>
  Package \<open>internal/domain\<close>: the enum sets, the sentinel errors, the trade records, input
  validation and the behavioural metric functions (P\&L, revenge flag, rolling plan adherence,
  session tilt, overtrading bounds).
\<close>

section \<open>Enumerations (enums.go)\<close>

definition AssetClassEquity :: string where "AssetClassEquity = ''equity''"
definition AssetClassCrypto :: string where "AssetClassCrypto = ''crypto''"
definition AssetClassForex :: string where "AssetClassForex = ''forex''"

definition DirectionLong :: string where "DirectionLong = ''long''"
definition DirectionShort :: string where "DirectionShort = ''short''"

definition StatusOpen :: string where "StatusOpen = ''open''"
definition StatusClosed :: string where "StatusClosed = ''closed''"
definition StatusCancelled :: string where "StatusCancelled = ''cancelled''"

definition EmotionCalm :: string where "EmotionCalm = ''calm''"
definition EmotionAnxious :: string where "EmotionAnxious = ''anxious''"
definition EmotionGreedy :: string where "EmotionGreedy = ''greedy''"
definition EmotionFearful :: string where "EmotionFearful = ''fearful''"
definition EmotionNeutral :: string where "EmotionNeutral = ''neutral''"

definition OutcomeWin :: string where "OutcomeWin = ''win''"
definition OutcomeLoss :: string where "OutcomeLoss = ''loss''"

lemmas enum_defs =
  AssetClassEquity_def AssetClassCrypto_def AssetClassForex_def DirectionLong_def DirectionShort_def
  StatusOpen_def StatusClosed_def StatusCancelled_def EmotionCalm_def EmotionAnxious_def
  EmotionGreedy_def EmotionFearful_def EmotionNeutral_def OutcomeWin_def OutcomeLoss_def

definition validAssetClasses :: "bool strmap" where
  "validAssetClasses = [AssetClassEquity \<mapsto> True, AssetClassCrypto \<mapsto> True, AssetClassForex \<mapsto> True]"

definition validDirections :: "bool strmap" where
  "validDirections = [DirectionLong \<mapsto> True, DirectionShort \<mapsto> True]"

definition validStatuses :: "bool strmap" where
  "validStatuses = [StatusOpen \<mapsto> True, StatusClosed \<mapsto> True, StatusCancelled \<mapsto> True]"

definition validEmotions :: "bool strmap" where
  "validEmotions =
     [EmotionCalm \<mapsto> True, EmotionAnxious \<mapsto> True, EmotionGreedy \<mapsto> True, EmotionFearful \<mapsto> True,
      EmotionNeutral \<mapsto> True]"

text \<open>Indexing a Go map gives the zero value (\<open>false\<close>) for a missing key.\<close>

definition IsValidAssetClass :: "string \<Rightarrow> bool" where
  "IsValidAssetClass s = opt_else False (validAssetClasses s)"

definition IsValidDirection :: "string \<Rightarrow> bool" where
  "IsValidDirection s = opt_else False (validDirections s)"

definition IsValidStatus :: "string \<Rightarrow> bool" where
  "IsValidStatus s = opt_else False (validStatuses s)"

definition IsValidEmotionalState :: "string \<Rightarrow> bool" where
  "IsValidEmotionalState s = opt_else False (validEmotions s)"

lemma IsValid_iff [guard_simps]:
  "IsValidAssetClass s \<longleftrightarrow> s \<in> {''equity'', ''crypto'', ''forex''}"
  "IsValidDirection s \<longleftrightarrow> s \<in> {''long'', ''short''}"
  "IsValidStatus s \<longleftrightarrow> s \<in> {''open'', ''closed'', ''cancelled''}"
  "IsValidEmotionalState s \<longleftrightarrow> s \<in> {''calm'', ''anxious'', ''greedy'', ''fearful'', ''neutral''}"
  by (auto simp: IsValidAssetClass_def IsValidDirection_def IsValidStatus_def
      IsValidEmotionalState_def validAssetClasses_def validDirections_def validStatuses_def
      validEmotions_def enum_defs)

section \<open>Errors (errors.go)\<close>

text \<open>
  The sentinel errors, the driver's no-rows error, any other error by its message, and
  \<open>fmt.Errorf("%w: ...")\<close>, which wraps an error.
\<close>

datatype go_error =
    ErrDuplicate | ErrNotFound | ErrForbidden | ErrUnauthorized | ErrBadRequest
  | ErrNoRows
  | ErrMessage string
  | ErrWrap go_error string

fun error_string :: "go_error \<Rightarrow> string" where
  "error_string ErrDuplicate = ''duplicate record''"
| "error_string ErrNotFound = ''resource not found''"
| "error_string ErrForbidden = ''cross-tenant access denied''"
| "error_string ErrUnauthorized = ''unauthorized''"
| "error_string ErrBadRequest = ''bad request''"
| "error_string ErrNoRows = ''no rows in result set''"
| "error_string (ErrMessage m) = m"
| "error_string (ErrWrap e m) = error_string e @ '': '' @ m"

text \<open>\<open>errors.Is\<close>.\<close>

fun error_is :: "go_error \<Rightarrow> go_error \<Rightarrow> bool" where
  "error_is (ErrWrap e m) t \<longleftrightarrow> ErrWrap e m = t \<or> error_is e t"
| "error_is e t \<longleftrightarrow> e = t"

section \<open>Trades (trade.go)\<close>

text \<open>
  \<open>TradeInput\<close> is the client's payload; \<open>Trade\<close> has the same fields and five more. The
  decimal type is a parameter, so that a table row is a \<open>rat Trade\<close>.
\<close>

record 'd TradeInput =
  TradeID :: string
  UserID :: string
  SessionID :: string
  Asset :: string
  AssetClass :: string
  Direction :: string
  EntryPrice :: 'd
  ExitPrice :: "'d option"
  Quantity :: 'd
  EntryAt :: time
  ExitAt :: "time option"
  Status :: string
  PlanAdherence :: "int option"
  EmotionalState :: "string option"
  EntryRationale :: "string option"

record 'd Trade = "'d TradeInput" +
  Outcome :: "string option"
  PnL :: "'d option"
  RevengeFlag :: bool
  CreatedAt :: time
  UpdatedAt :: time

definition bad_request :: "string \<Rightarrow> go_error option" where
  "bad_request m = Some (ErrWrap ErrBadRequest m)"

text \<open>The \<open>\<le>\<close> of the last message is three UTF-8 bytes.\<close>

definition utf8_le :: string where "utf8_le = [CHR 0xE2, CHR 0x89, CHR 0xA4]"

definition Validate :: "'d decimal_ops \<Rightarrow> ('d, 'b) TradeInput_scheme \<Rightarrow> go_error option" where
  "Validate D t =
     (if TradeID t = '''' then bad_request ''tradeId is required''
      else if UserID t = '''' then bad_request ''userId is required''
      else if SessionID t = '''' then bad_request ''sessionId is required''
      else if Asset t = '''' then bad_request ''asset is required''
      else if \<not> IsValidAssetClass (AssetClass t)
        then bad_request (''invalid assetClass: '' @ AssetClass t)
      else if \<not> IsValidDirection (Direction t)
        then bad_request (''invalid direction: '' @ Direction t)
      else if dec_is_zero D (EntryPrice t) then bad_request ''entryPrice is required''
      else if dec_is_zero D (Quantity t) then bad_request ''quantity is required''
      else if time_is_zero (EntryAt t) then bad_request ''entryAt is required''
      else if \<not> IsValidStatus (Status t) then bad_request (''invalid status: '' @ Status t)
      else if ptr_and (PlanAdherence t) (\<lambda>p. p < 1 \<or> 5 < p)
        then bad_request ''planAdherence must be between 1 and 5''
      else if ptr_and (EmotionalState t) (\<lambda>e. \<not> IsValidEmotionalState e)
        then bad_request (''invalid emotionalState: '' @ opt_else [] (EmotionalState t))
      else if ptr_and (EntryRationale t) (\<lambda>r. 500 < length r)
        then bad_request (''entryRationale must be '' @ utf8_le @ '' 500 characters'')
      else None)"

text \<open>
  What a valid payload is, declaratively: the fields the API requires, the enumerations, and
  the ranges the schema repeats as constraints.
\<close>

definition valid_input :: "'d decimal_ops \<Rightarrow> ('d, 'b) TradeInput_scheme \<Rightarrow> bool" where
  "valid_input D t \<longleftrightarrow>
     TradeID t \<noteq> [] \<and> UserID t \<noteq> [] \<and> SessionID t \<noteq> [] \<and> Asset t \<noteq> [] \<and>
     AssetClass t \<in> {''equity'', ''crypto'', ''forex''} \<and> Direction t \<in> {''long'', ''short''} \<and>
     Status t \<in> {''open'', ''closed'', ''cancelled''} \<and>
     dec_value D (EntryPrice t) \<noteq> 0 \<and> dec_value D (Quantity t) \<noteq> 0 \<and> EntryAt t \<noteq> zero_time \<and>
     (\<forall>p. PlanAdherence t = Some p \<longrightarrow> 1 \<le> p \<and> p \<le> 5) \<and>
     (\<forall>e. EmotionalState t = Some e \<longrightarrow> e \<in> {''calm'', ''anxious'', ''greedy'', ''fearful'', ''neutral''}) \<and>
     (\<forall>r. EntryRationale t = Some r \<longrightarrow> length r \<le> 500)"

lemma bad_request_not_None [simp]: "bad_request m \<noteq> None" "None \<noteq> bad_request m"
  by (simp_all add: bad_request_def)

lemma if_bad_None: "(if c then bad_request m else x) = None \<longleftrightarrow> \<not> c \<and> x = None"
  by simp

lemma Validate_is_bad_request: "Validate D t = Some e \<Longrightarrow> \<exists>m. e = ErrWrap ErrBadRequest m"
  by (auto simp: Validate_def bad_request_def split: if_splits)

text \<open>
  \<open>ComputePnL\<close>: the result value starts as the zero decimal, which a direction outside the
  two cases leaves.
\<close>

definition ComputePnL :: "'d decimal_ops \<Rightarrow> string \<Rightarrow> 'd \<Rightarrow> 'd \<Rightarrow> 'd \<Rightarrow> 'd \<times> string" where
  "ComputePnL D direction entryPrice exitPrice quantity =
     (let pnl = (if direction = DirectionLong
                 then dec_mul D (dec_sub D exitPrice entryPrice) quantity
                 else if direction = DirectionShort
                 then dec_mul D (dec_sub D entryPrice exitPrice) quantity
                 else dec_zero D);
          outcome = (if dec_is_positive D pnl then OutcomeWin else OutcomeLoss)
      in (pnl, outcome))"

section \<open>Revenge trades (revenge.go)\<close>

definition IsRevenge :: "time \<Rightarrow> time \<Rightarrow> string \<Rightarrow> bool" where
  "IsRevenge prevExitAt newEntryAt emotionalState =
     (let gap = time_sub newEntryAt prevExitAt
      in if 90 * second \<le> gap \<or> gap < 0 then False
         else emotionalState = EmotionAnxious \<or> emotionalState = EmotionFearful)"

section \<open>Plan adherence and session tilt (adherence.go, tilt.go)\<close>

definition RollingAvg :: "int list \<Rightarrow> float64" where
  "RollingAvg ratings =
     (if length ratings = 0 then Fin 0
      else let start = (if 10 < length ratings then length ratings - 10 else 0);
               subset = drop start ratings;
               total = foldl (+) 0 subset
           in f64_div (f64_of_int total) (f64_of_int (int (length subset))))"

definition SessionTiltIndex :: "int \<Rightarrow> int \<Rightarrow> float64" where
  "SessionTiltIndex lossFollowCount totalCount =
     (if totalCount = 0 then Fin 0
      else f64_div (f64_of_int lossFollowCount) (f64_of_int totalCount))"

section \<open>Overtrading window (overtrading.go)\<close>

definition MaxTradesPerWindow :: int where "MaxTradesPerWindow = 10"
definition WindowDuration :: duration where "WindowDuration = 30 * minute"
definition WindowDurationMs :: int where "WindowDurationMs = 1800000"

lemma window_durations_agree: "WindowDuration = WindowDurationMs * millisecond"
  by (simp add: WindowDuration_def WindowDurationMs_def duration_defs)

section \<open>Properties\<close>

lemma ComputePnL_outcome:
  "snd (ComputePnL D dir ep xp q) =
     (if dec_is_positive D (fst (ComputePnL D dir ep xp q)) then OutcomeWin else OutcomeLoss)"
  by (simp only: ComputePnL_def Let_def fst_conv snd_conv)

context decimal
begin

lemma Validate_None_iff: "Validate D t = None \<longleftrightarrow> valid_input D t"
  unfolding Validate_def valid_input_def if_bad_None is_zero_iff time_is_zero_def IsValid_iff
    ptr_and_iff
  by (simp only: de_Morgan_disj de_Morgan_conj not_ex simp_thms not_not not_less not_le imp_conv_disj conj_assoc
      disj_comms conj_ac)

lemma pnl_value_long:
  "dec_value D (fst (ComputePnL D ''long'' ep xp q)) = (dec_value D xp - dec_value D ep) * dec_value D q"
  by (simp add: ComputePnL_def Let_def DirectionLong_def value_ops)

lemma pnl_value_short:
  "dec_value D (fst (ComputePnL D ''short'' ep xp q)) = (dec_value D ep - dec_value D xp) * dec_value D q"
  by (simp add: ComputePnL_def Let_def DirectionLong_def DirectionShort_def value_ops)

lemma pnl_outcome:
  "snd (ComputePnL D dir ep xp q) =
     (if 0 < dec_value D (fst (ComputePnL D dir ep xp q)) then ''win'' else ''loss'')"
  by (simp only: ComputePnL_outcome is_positive_iff OutcomeWin_def OutcomeLoss_def)

end

lemma RollingAvg_last10:
  "ratings \<noteq> [] \<Longrightarrow> RollingAvg ratings =
     f64_div (f64_of_int (sum_list (last_n 10 ratings))) (f64_of_int (int (length (last_n 10 ratings))))"
  by (simp add: RollingAvg_def last_n_def Let_def fold_plus_sum_list_rev foldl_conv_fold add.commute)

lemma RollingAvg_between:
  assumes "ratings \<noteq> []" "\<And>p. p \<in> set ratings \<Longrightarrow> 1 \<le> p \<and> p \<le> 5"
  shows "f64_between 1 5 (RollingAvg ratings)"
proof -
  let ?xs = "last_n 10 ratings"
  let ?n = "int (length ?xs)"
  have "\<And>x. x \<in> set ?xs \<Longrightarrow> 1 \<le> x \<and> x \<le> 5" using set_last_n [of 10 ratings] assms(2) by blast
  then have b: "1 * ?n \<le> sum_list ?xs" "sum_list ?xs \<le> 5 * ?n" using sum_list_bounds_int by blast+
  have n: "0 < ?n" "?n \<le> 10" using assms(1) by (simp_all add: Suc_le_eq)
  have s: "\<bar>sum_list ?xs\<bar> \<le> 50" using b n by linarith
  have big: "(50::int) \<le> 2 ^ 53" by simp
  show ?thesis unfolding RollingAvg_last10 [OF assms(1)]
    by (rule f64_ratio_between(1) [OF n(1) _ _ b]) (use n(2) s big in linarith)+
qed

lemma SessionTiltIndex_between:
  assumes "0 \<le> l" "l \<le> t" "t \<le> 2 ^ 53"
  shows "f64_between 0 1 (SessionTiltIndex l t)"
proof (cases "t = 0")
  case True
  then show ?thesis by (simp add: SessionTiltIndex_def f64_between_def)
next
  case False
  then have "f64_between 0 1 (f64_div (f64_of_int l) (f64_of_int t))"
    by (intro f64_ratio_between(1)) (use assms in simp_all)
  with False show ?thesis by (simp add: SessionTiltIndex_def)
qed

lemma IsRevenge_90: "time_sub n p < 90 * second \<longleftrightarrow> n - p < 90 * second"
  by (rule time_sub_less_iff) (simp_all add: second_def max_int64_def)

section \<open>Properties of the package\<close>

text \<open>
  A trade is revenge trading exactly when it was entered at or after the exit of the last loss,
  strictly less than 90 seconds after it, in an anxious or fearful state; the saturation of
  \<open>Time.Sub\<close> never changes the verdict.
\<close>

lemma IsRevenge_iff:
  "IsRevenge prevExitAt newEntryAt e \<longleftrightarrow>
     prevExitAt \<le> newEntryAt \<and> newEntryAt < prevExitAt + 90 * second \<and> e \<in> {''anxious'', ''fearful''}"
proof -
  have "\<not> 90 * second \<le> time_sub newEntryAt prevExitAt \<longleftrightarrow> newEntryAt - prevExitAt < 90 * second"
    using IsRevenge_90 by (simp add: not_le)
  then show ?thesis
    by (auto simp: IsRevenge_def Let_def time_sub_neg_iff EmotionAnxious_def EmotionFearful_def)
qed

text \<open>
  C37: The P\&L is exact and the outcome is its sign: a long trade earns the price rise times the
  quantity, a short trade the opposite, any other direction nothing; the outcome is a win exactly
  for a positive P\&L (break-even is a loss), so of a long and a short position in the same trade
  at most one wins.
\<close>

theorem ComputePnL_exact:
  fixes ep xp q :: 'd
  assumes "decimal D"
  defines "gain \<equiv> (dec_value D xp - dec_value D ep) * dec_value D q"
  shows "dec_value D (fst (ComputePnL D dir ep xp q))
      = (if dir = ''long'' then gain else if dir = ''short'' then - gain else 0)
    \<and> snd (ComputePnL D dir ep xp q) = (if 0 < dec_value D (fst (ComputePnL D dir ep xp q)) then ''win'' else ''loss'')
    \<and> \<not> (snd (ComputePnL D ''long'' ep xp q) = ''win'' \<and> snd (ComputePnL D ''short'' ep xp q) = ''win'')"
proof -
  note l = decimal.pnl_value_long [OF assms(1), of ep xp q] and s = decimal.pnl_value_short [OF assms(1), of ep xp q]
  have neg: "(dec_value D ep - dec_value D xp) * dec_value D q = - gain" by (simp add: gain_def algebra_simps)
  have other: "dec_value D (fst (ComputePnL D dir ep xp q)) = 0" if "dir \<noteq> ''long''" "dir \<noteq> ''short''"
    using that decimal.value_zero [OF assms(1)] by (simp add: ComputePnL_def Let_def DirectionLong_def DirectionShort_def)
  have "dec_value D (fst (ComputePnL D dir ep xp q)) = (if dir = ''long'' then gain else if dir = ''short'' then - gain else 0)"
    using l s neg other by (auto simp: gain_def)
  moreover have "\<not> (snd (ComputePnL D ''long'' ep xp q) = ''win'' \<and> snd (ComputePnL D ''short'' ep xp q) = ''win'')"
    unfolding decimal.pnl_outcome [OF assms(1)] l s neg by (auto simp: gain_def)
  ultimately show ?thesis using decimal.pnl_outcome [OF assms(1), of dir ep xp q] by blast
qed

theorem ComputePnL_exact_witness:
  "dec_value ref_decimal (fst (ComputePnL ref_decimal ''short'' (100, 0) (905, - 1) (2, 0))) = 19
   \<and> snd (ComputePnL ref_decimal ''long'' (100, 0) (100, 0) (2, 0)) = ''loss''"
proof -
  have "(dec_value ref_decimal (905, - 1) - dec_value ref_decimal (100, 0)) * dec_value ref_decimal (2, 0) = - 19"
    by code_simp
  moreover have "(dec_value ref_decimal (100, 0) - dec_value ref_decimal (100, 0)) * dec_value ref_decimal (2, 0) = 0"
    by simp
  ultimately show ?thesis
    using ComputePnL_exact [OF ref.decimal_axioms, of "''short''" "(100, 0)" "(905, - 1)" "(2, 0)"]
      ComputePnL_exact [OF ref.decimal_axioms, of "''long''" "(100, 0)" "(100, 0)" "(2, 0)"]
    by simp
qed

end
