(* ===== verification/Postgres.thy ===== *)
theory Postgres
  imports Domain
begin

text \<open>
  The relational side: the tables the migrations declare, as a record of row lists; the
  conversions of the server and its driver, which are outside the repository, as a record of
  functions with a locale of their documented laws; the outcome of a statement sent over a
  connection that can fail; and keyed tables with the two conflict clauses the SQL uses.
\<close>

section \<open>Server and driver conversions\<close>

text \<open>Why a statement is refused. The message text is the server's.\<close>

datatype pg_fault = InvalidInput | CheckViolation | ForeignKeyViolation | OutOfRange | UniqueViolation | ConnectionLost

record pg_types =
  pg_uuid :: "string \<Rightarrow> string option"  \<comment> \<open>UUID input, printed canonically\<close>
  pg_text :: "string \<Rightarrow> bool"           \<comment> \<open>acceptable as TEXT\<close>
  pg_char_length :: "string \<Rightarrow> nat"     \<comment> \<open>characters, as VARCHAR(n) counts\<close>
  pg_timestamptz :: "time \<Rightarrow> time option"
  pg_numeric18_8 :: "rat \<Rightarrow> rat option"
  pg_numeric5_4 :: "float64 \<Rightarrow> rat option"
  pg_avg :: "rat list \<Rightarrow> rat"           \<comment> \<open>AVG of a non-empty NUMERIC column\<close>
  pg_float8 :: "rat \<Rightarrow> float64"         \<comment> \<open>a NUMERIC scanned into a float64\<close>
  pg_time_bucket :: "string \<Rightarrow> time \<Rightarrow> time"
  pg_scan :: "rat Trade list \<Rightarrow> rat Trade list"  \<comment> \<open>the order in which a plan reads the table\<close>
  pg_message :: "pg_fault \<Rightarrow> string"

definition pg_error :: "pg_types \<Rightarrow> pg_fault \<Rightarrow> go_error" where
  "pg_error T f = ErrMessage (pg_message T f)"

locale postgres =
  fixes T :: pg_types
  assumes uuid_canonical: "pg_uuid T s = Some u \<Longrightarrow> pg_uuid T u = Some u"
    and char_length_le: "pg_char_length T s \<le> length s"
    and timestamptz_micros: "pg_timestamptz T t = Some t' \<Longrightarrow> t' \<le> t \<and> t < t' + 1000 \<and> pg_timestamptz T t' = Some t'"
    and timestamptz_exact: "rfc3339_range t \<Longrightarrow> t mod 1000 = 0 \<Longrightarrow> pg_timestamptz T t = Some t"
    and numeric_stored: "pg_numeric18_8 T r = Some n \<Longrightarrow> scale8 n \<and> \<bar>n\<bar> < 10 ^ 10"
    and numeric_exact: "scale8 r \<Longrightarrow> \<bar>r\<bar> < 10 ^ 10 \<Longrightarrow> pg_numeric18_8 T r = Some r"
    and numeric5_4_stored: "pg_numeric5_4 T v = Some m \<Longrightarrow> \<bar>m\<bar> < 10 \<and> (\<exists>k::int. m = of_int k / 10 ^ 4)"
    and numeric5_4_round: "\<bar>r\<bar> \<le> 9 \<Longrightarrow> \<exists>m. pg_numeric5_4 T (Fin r) = Some m \<and> \<bar>m - r\<bar> \<le> 1 / 20000"
    and avg_between: "vs \<noteq> [] \<Longrightarrow> (\<And>v. v \<in> set vs \<Longrightarrow> of_int lo \<le> v \<and> v \<le> of_int hi) \<Longrightarrow>
      of_int lo \<le> pg_avg T vs \<and> pg_avg T vs \<le> of_int hi"
    and float8_nearest: "pg_float8 T r = f64_of_rat r"
    and time_bucket_hour: "pg_time_bucket T ''1 hour'' t = time_truncate t hour"
    and scan_permutes: "mset (pg_scan T rows) = mset rows"
begin

lemma scan_set [simp]: "set (pg_scan T rows) = set rows"
  by (metis scan_permutes set_mset_mset)

lemma scan_length [simp]: "length (pg_scan T rows) = length rows"
  by (metis scan_permutes size_mset)

lemma scan_filter_length: "length (filter P (pg_scan T rows)) = length (filter P rows)"
  by (metis mset_filter scan_permutes size_mset)

text \<open>A value between two integers is stored between them.\<close>

lemma numeric5_4_between:
  assumes "of_int lo \<le> r" "r \<le> of_int hi" "- 9 \<le> lo" "hi \<le> 9" "pg_numeric5_4 T (Fin r) = Some m"
  shows "of_int lo \<le> m \<and> m \<le> of_int hi"
proof -
  obtain k :: int where k: "m = of_int k / 10 ^ 4" using numeric5_4_stored [OF assms(5)] by blast
  have "of_int (- 9) \<le> (of_int lo :: rat)" "(of_int hi :: rat) \<le> of_int 9"
    using assms(3,4) by (simp_all only: of_int_le_iff)
  then have "\<bar>r\<bar> \<le> 9" using assms(1,2) unfolding abs_le_iff by simp
  then have c: "\<bar>m - r\<bar> \<le> 1 / 20000" using numeric5_4_round [of r] assms(5) by auto
  then have "of_int lo - 1 / 20000 \<le> m" using assms(1) unfolding abs_le_iff by linarith
  moreover have "m \<le> of_int hi + 1 / 20000" using c assms(2) unfolding abs_le_iff by linarith
  ultimately have "of_int (10000 * lo - 1) < (of_int k :: rat)" "(of_int k :: rat) < of_int (10000 * hi + 1)"
    by (simp_all add: k field_simps)
  then have "10000 * lo - 1 < k" "k < 10000 * hi + 1" by (simp_all only: of_int_less_iff)
  then have "10000 * lo \<le> k" "k \<le> 10000 * hi" by simp_all
  then have "(of_int (10000 * lo) :: rat) \<le> of_int k" "(of_int k :: rat) \<le> of_int (10000 * hi)"
    by (simp_all only: of_int_le_iff)
  then show ?thesis by (simp add: k field_simps)
qed

lemma numeric_idem: "pg_numeric18_8 T r = Some n \<Longrightarrow> pg_numeric18_8 T n = Some n"
  by (auto dest: numeric_stored intro: numeric_exact)

end

section \<open>Tables (migrations 001 and 003)\<close>

record user_row =
  u_UserID :: string
  u_Name :: string
  u_Role :: string
  u_Pathology :: "string option"

record session_row =
  s_SessionID :: string
  s_UserID :: string
  s_StartedAt :: time
  s_Notes :: "string option"

record debrief_row =
  db_DebriefID :: string
  db_SessionID :: string
  db_OverallMood :: string
  db_KeyMistake :: "string option"
  db_KeyLesson :: "string option"
  db_PlanAdherenceRating :: "int option"
  db_WillReviewTomorrow :: bool
  db_SavedAt :: time

record metrics_row =
  m_Bucket :: time
  m_UserID :: string
  m_TradeCount :: int
  m_WinCount :: int
  m_LossCount :: int
  m_TotalPnl :: rat
  m_AvgPlanAdherence :: "rat option"
  m_SessionTiltIndex :: "rat option"
  m_RevengeCount :: int
  m_OvertradingEvents :: int

record emotion_row =
  e_UserID :: string
  e_EmotionalState :: string
  e_DateBucket :: int
  e_Wins :: int
  e_Losses :: int

record overtrading_row =
  o_UserID :: string
  o_WindowStart :: time
  o_TradeCount :: int
  o_EmittedAt :: time

text \<open>
  What happens to the next statement on its way: delivered and answered, lost before the server
  saw it, or executed with the reply lost.
\<close>

datatype delivery = Delivered | RequestLost | ReplyLost

record db =
  users :: "user_row list"
  sessions :: "session_row list"
  trades :: "rat Trade list"
  debriefs :: "debrief_row list"
  behavioral_metrics :: "metrics_row list"
  emotion_win_rates :: "emotion_row list"
  overtrading_events :: "overtrading_row list"
  db_now :: time
  db_uuid_supply :: "string list"
  db_deliveries :: "delivery list"

type_synonym 'a stmt = "db \<Rightarrow> (go_error + 'a) \<times> db"

text \<open>
  Sending one statement: the next delivery outcome is consumed; no outcome left means the
  connection stays up.
\<close>

definition pg_send :: "pg_types \<Rightarrow> 'a stmt \<Rightarrow> 'a stmt" where
  "pg_send T q s =
     (case db_deliveries s of
        [] \<Rightarrow> q s
      | Delivered # ds \<Rightarrow> q (s\<lparr>db_deliveries := ds\<rparr>)
      | RequestLost # ds \<Rightarrow> (Inl (pg_error T ConnectionLost), s\<lparr>db_deliveries := ds\<rparr>)
      | ReplyLost # ds \<Rightarrow> (Inl (pg_error T ConnectionLost), snd (q (s\<lparr>db_deliveries := ds\<rparr>))))"

lemma pg_send_up [simp]: "db_deliveries s = [] \<Longrightarrow> pg_send T q s = q s"
  by (simp add: pg_send_def)

text \<open>Whatever a statement and the fault bookkeeping both keep, sending it keeps.\<close>

lemma pg_send_preserves:
  assumes "\<And>s. P s \<Longrightarrow> P (snd (q s))" and "\<And>s ds. P s \<Longrightarrow> P (s\<lparr>db_deliveries := ds\<rparr>)" and "P s"
  shows "P (snd (pg_send T q s))"
  using assms by (auto simp: pg_send_def split: list.splits delivery.splits)

lemma pg_send_InrE:
  assumes "pg_send T q s = (Inr x, s')"
  obtains ds where "q (s\<lparr>db_deliveries := ds\<rparr>) = (Inr x, s')"
proof (cases "db_deliveries s")
  case Nil
  then have "s\<lparr>db_deliveries := []\<rparr> = s" by (cases s) simp
  with Nil assms that [of "[]"] show thesis by (simp add: pg_send_def)
next
  case (Cons d ds)
  with assms that [of ds] show thesis by (cases d) (simp_all add: pg_send_def)
qed

section \<open>Enumerated columns\<close>

definition asset_class_enum :: "string list" where "asset_class_enum = [''equity'', ''crypto'', ''forex'']"
definition direction_enum :: "string list" where "direction_enum = [''long'', ''short'']"
definition status_enum :: "string list" where "status_enum = [''open'', ''closed'', ''cancelled'']"
definition emotion_enum :: "string list" where
  "emotion_enum = [''calm'', ''anxious'', ''greedy'', ''fearful'', ''neutral'']"
definition outcome_enum :: "string list" where "outcome_enum = [''win'', ''loss'']"

definition int4_ok :: "int \<Rightarrow> bool" where "int4_ok n \<longleftrightarrow> - (2 ^ 31) \<le> n \<and> n < 2 ^ 31"

text \<open>The calendar day of an instant in UTC, as a day number: a DATE.\<close>

definition pg_date :: "time \<Rightarrow> int" where "pg_date t = (t - zero_time) div (24 * hour)"

definition pg_hour :: "time \<Rightarrow> int" where "pg_hour t = (t - zero_time) div hour mod 24"

section \<open>Keyed tables\<close>

text \<open>
  A table with a primary key, its lookup, and the two insertions of the SQL: \<open>ON CONFLICT DO
  NOTHING\<close>, which returns a row only when it inserted one, and \<open>ON CONFLICT DO UPDATE\<close>, which
  merges the excluded row into the stored one.
\<close>

definition tbl_lookup :: "('r \<Rightarrow> 'k) \<Rightarrow> 'k \<Rightarrow> 'r list \<Rightarrow> 'r option" where
  "tbl_lookup key k rows = List.find (\<lambda>r. key r = k) rows"

definition tbl_insert_new :: "('r \<Rightarrow> 'k) \<Rightarrow> 'r \<Rightarrow> 'r list \<Rightarrow> 'r option \<times> 'r list" where
  "tbl_insert_new key r rows =
     (case tbl_lookup key (key r) rows of None \<Rightarrow> (Some r, rows @ [r]) | Some _ \<Rightarrow> (None, rows))"

definition tbl_upsert :: "('r \<Rightarrow> 'k) \<Rightarrow> ('r \<Rightarrow> 'r \<Rightarrow> 'r) \<Rightarrow> 'r \<Rightarrow> 'r list \<Rightarrow> 'r list" where
  "tbl_upsert key merge r rows =
     (case tbl_lookup key (key r) rows of
        None \<Rightarrow> rows @ [r]
      | Some _ \<Rightarrow> map (\<lambda>x. if key x = key r then merge x r else x) rows)"

lemma tbl_lookup_simps [simp]:
  "tbl_lookup key k [] = None"
  "tbl_lookup key k (r # rows) = (if key r = k then Some r else tbl_lookup key k rows)"
  by (simp_all add: tbl_lookup_def)

lemma tbl_lookup_append:
  "tbl_lookup key k (xs @ ys) = (case tbl_lookup key k xs of None \<Rightarrow> tbl_lookup key k ys | Some r \<Rightarrow> Some r)"
  by (induction xs) auto

lemma tbl_lookup_Some: "tbl_lookup key k rows = Some r \<Longrightarrow> r \<in> set rows \<and> key r = k"
  by (induction rows) (auto split: if_splits)

lemma tbl_lookup_None: "tbl_lookup key k rows = None \<longleftrightarrow> k \<notin> key ` set rows"
  by (induction rows) auto

lemma tbl_lookup_in:
  "distinct (map key rows) \<Longrightarrow> r \<in> set rows \<Longrightarrow> tbl_lookup key (key r) rows = Some r"
  by (simp add: tbl_lookup_def find_distinct_key)

locale keyed_table =
  fixes key :: "'r \<Rightarrow> 'k" and merge :: "'r \<Rightarrow> 'r \<Rightarrow> 'r"
  assumes key_merge: "key (merge x r) = key x"
begin

lemma distinct_insert_new:
  "distinct (map key rows) \<Longrightarrow> distinct (map key (snd (tbl_insert_new key r rows)))"
  by (auto simp: tbl_insert_new_def tbl_lookup_None split: option.splits)

lemma map_key_update: "map key (map (\<lambda>x. if key x = k then merge x r else x) rows) = map key rows"
  by (simp add: key_merge)

lemma distinct_upsert:
  "distinct (map key rows) \<Longrightarrow> distinct (map key (tbl_upsert key merge r rows))"
  by (auto simp: tbl_upsert_def tbl_lookup_None map_key_update simp del: map_map split: option.splits)

lemma lookup_upsert_same:
  "tbl_lookup key (key r) (tbl_upsert key merge r rows) =
     Some (case tbl_lookup key (key r) rows of None \<Rightarrow> r | Some x \<Rightarrow> merge x r)"
proof -
  have upd: "tbl_lookup key k (map (\<lambda>x. if key x = k then merge x r else x) rows)
      = map_option (\<lambda>x. merge x r) (tbl_lookup key k rows)" for k
    by (induction rows) (auto simp: key_merge)
  show ?thesis
    by (simp add: tbl_upsert_def tbl_lookup_append upd split: option.splits)
qed

lemma lookup_upsert_other:
  "k \<noteq> key r \<Longrightarrow> tbl_lookup key k (tbl_upsert key merge r rows) = tbl_lookup key k rows"
proof -
  assume k: "k \<noteq> key r"
  then have "tbl_lookup key k (map (\<lambda>x. if key x = key r then merge x r else x) rows) = tbl_lookup key k rows"
    by (induction rows) (auto simp: key_merge)
  with k show ?thesis by (simp add: tbl_upsert_def tbl_lookup_append split: option.splits)
qed

lemma lookup_insert_new_same:
  "tbl_lookup key (key r) (snd (tbl_insert_new key r rows)) =
     Some (case tbl_lookup key (key r) rows of None \<Rightarrow> r | Some x \<Rightarrow> x)"
  by (simp add: tbl_insert_new_def tbl_lookup_append split: option.splits)

lemma lookup_insert_new_other:
  "k \<noteq> key r \<Longrightarrow> tbl_lookup key k (snd (tbl_insert_new key r rows)) = tbl_lookup key k rows"
  by (simp add: tbl_insert_new_def tbl_lookup_append split: option.splits)

end

section \<open>The reference conversions\<close>

definition is_hex :: "char \<Rightarrow> bool" where
  "is_hex c \<longleftrightarrow> is_digit c \<or> c \<in> set ''abcdefABCDEF''"

definition hex_lower :: "char \<Rightarrow> char" where
  "hex_lower c =
     (if c = CHR ''A'' then CHR ''a'' else if c = CHR ''B'' then CHR ''b''
      else if c = CHR ''C'' then CHR ''c'' else if c = CHR ''D'' then CHR ''d''
      else if c = CHR ''E'' then CHR ''e'' else if c = CHR ''F'' then CHR ''f'' else c)"

definition uuid_pattern :: string where "uuid_pattern = ''xxxxxxxx-xxxx-xxxx-xxxx-xxxxxxxxxxxx''"

definition ref_uuid :: "string \<Rightarrow> string option" where
  "ref_uuid s =
     (if list_all2 (\<lambda>p c. if p = CHR ''-'' then c = CHR ''-'' else is_hex c) uuid_pattern s
      then Some (map hex_lower s) else None)"

text \<open>Rounding to \<open>k\<close> decimal places, halves away from zero.\<close>

definition ref_round :: "nat \<Rightarrow> rat \<Rightarrow> rat" where
  "ref_round k r =
     of_int (if r < 0 then - \<lfloor>- r * 10 ^ k + 1 / 2\<rfloor> else \<lfloor>r * 10 ^ k + 1 / 2\<rfloor>) / 10 ^ k"

definition ref_numeric :: "rat \<Rightarrow> rat option" where
  "ref_numeric r = (let n = ref_round 8 r in if \<bar>n\<bar> < 10 ^ 10 then Some n else None)"

definition ref_numeric5_4 :: "float64 \<Rightarrow> rat option" where
  "ref_numeric5_4 v =
     (case v of Fin r \<Rightarrow> (let n = ref_round 4 r in if \<bar>n\<bar> < 10 then Some n else None) | _ \<Rightarrow> None)"

text \<open>\<open>time_bucket\<close>: multiples of the width counted from Monday, January 3, 2000.\<close>

definition ref_time_bucket :: "string \<Rightarrow> time \<Rightarrow> time" where
  "ref_time_bucket i t =
     (let w = (if i = ''1 hour'' then hour else if i = ''1 day'' then 24 * hour else 30 * (24 * hour))
      in t - (t - 946857600 * second) mod w)"

definition ref_pg :: pg_types where
  "ref_pg =
     \<lparr> pg_uuid = ref_uuid, pg_text = (\<lambda>s. CHR 0x00 \<notin> set s), pg_char_length = length,
       pg_timestamptz = (\<lambda>t. Some (t - t mod 1000)), pg_numeric18_8 = ref_numeric,
       pg_numeric5_4 = ref_numeric5_4, pg_avg = (\<lambda>xs. sum_list xs / of_nat (length xs)),
       pg_float8 = f64_of_rat, pg_time_bucket = ref_time_bucket, pg_scan = (\<lambda>rows. rows),
       pg_message = (\<lambda>f. ''error'') \<rparr>"

lemma hex_lower_simps [simp]:
  "hex_lower (hex_lower c) = hex_lower c" "hex_lower c = CHR ''-'' \<longleftrightarrow> c = CHR ''-''"
  by (simp_all add: hex_lower_def)

lemma is_hex_lower: "is_hex c \<Longrightarrow> is_hex (hex_lower c)"
  by (simp add: is_hex_def hex_lower_def) blast

lemma ref_uuid_canonical: "ref_uuid s = Some u \<Longrightarrow> ref_uuid u = Some u"
  by (auto simp: ref_uuid_def list_all2_map2 comp_def is_hex_lower elim!: list_all2_mono split: if_splits)

lemma ref_round_scale8: "scale8 (ref_round 8 r)"
  unfolding ref_round_def by (rule scale8_of_int)

lemma ref_numeric_stored: "ref_numeric r = Some n \<Longrightarrow> scale8 n \<and> \<bar>n\<bar> < 10 ^ 10"
  using ref_round_scale8 [of r] by (auto simp: ref_numeric_def Let_def split: if_splits)

lemma floor_half_int: "\<lfloor>(of_int k :: rat) + 1 / 2\<rfloor> = k"
  by (rule floor_unique) auto

lemma ref_round_exact:
  assumes "r * 10 ^ k = of_int n"
  shows "ref_round k r = r"
proof -
  have "- r * 10 ^ k = of_int (- n)" using assms by simp
  then have "(if r < 0 then - \<lfloor>- r * 10 ^ k + 1 / 2\<rfloor> else \<lfloor>r * 10 ^ k + 1 / 2\<rfloor>) = n"
    unfolding assms by (simp only: floor_half_int minus_minus if_cancel)
  moreover have "of_int n / 10 ^ k = r" using assms by (simp add: field_simps)
  ultimately show ?thesis by (simp only: ref_round_def)
qed

lemma ref_numeric_exact: "scale8 r \<Longrightarrow> \<bar>r\<bar> < 10 ^ 10 \<Longrightarrow> ref_numeric r = Some r"
proof -
  assume "scale8 r" and b: "\<bar>r\<bar> < 10 ^ 10"
  then have "ref_round 8 r = r" by (intro ref_round_exact [where n = "\<lfloor>r * 10 ^ 8\<rfloor>"]) (simp only: scale8_def)
  with b show ?thesis by (simp add: ref_numeric_def)
qed

lemma ref_round_close: "\<bar>ref_round k r - r\<bar> \<le> 1 / (2 * 10 ^ k)"
proof -
  have half: "\<bar>of_int \<lfloor>x + 1 / 2\<rfloor> - x\<bar> \<le> 1 / 2" for x :: rat
    using floor_correct [of "x + 1 / 2"] by (simp only: abs_le_iff) linarith
  have "\<bar>ref_round k r * 10 ^ k - r * 10 ^ k\<bar> \<le> 1 / 2"
  proof (cases "r < 0")
    case True
    then show ?thesis using half [of "- r * 10 ^ k"] by (simp add: ref_round_def abs_minus_commute add.commute)
  qed (use half [of "r * 10 ^ k"] in \<open>simp add: ref_round_def\<close>)
  then have "\<bar>ref_round k r - r\<bar> * 10 ^ k \<le> 1 / 2"
    by (simp add: left_diff_distrib [symmetric] abs_mult)
  then show ?thesis by (simp add: field_simps)
qed

lemma ref_avg_between:
  fixes vs :: "rat list"
  assumes "vs \<noteq> []" "\<And>v. v \<in> set vs \<Longrightarrow> of_int lo \<le> v \<and> v \<le> of_int hi"
  shows "of_int lo \<le> sum_list vs / of_nat (length vs) \<and> sum_list vs / of_nat (length vs) \<le> of_int hi"
proof -
  have "of_int lo * of_nat (length vs) \<le> sum_list vs \<and> sum_list vs \<le> of_int hi * of_nat (length vs)"
    using assms(2)
  proof (induction vs)
    case (Cons v vs)
    then have "of_int lo \<le> v" "v \<le> of_int hi" "of_int lo * of_nat (length vs) \<le> sum_list vs"
      "sum_list vs \<le> of_int hi * of_nat (length vs)" by simp_all
    then show ?case by (simp add: algebra_simps)
  qed simp
  moreover have "(0 :: rat) < of_nat (length vs)" using assms(1) by simp
  ultimately show ?thesis by (simp add: pos_le_divide_eq pos_divide_le_eq)
qed

lemma ref_time_bucket_hour: "ref_time_bucket ''1 hour'' t = time_truncate t hour"
proof -
  have eqs: "946857600 * second = 263016 * hour" "zero_time = (- 17259888) * hour"
    by (simp_all add: zero_time_def duration_defs)
  have m: "(t - k * hour) mod hour = t mod hour" for k :: int
    by (metis mod_diff_right_eq mod_mult_self2_is_0 diff_zero)
  have "(t - 946857600 * second) mod hour = (t - zero_time) mod hour" unfolding eqs by (simp only: m)
  moreover have "\<not> hour \<le> 0" by (simp add: duration_defs)
  ultimately show ?thesis by (simp only: ref_time_bucket_def time_truncate_def Let_def if_True if_False simp_thms)
qed

lemma ref_round_multiple: "\<exists>n::int. ref_round k r = of_int n / 10 ^ k"
  unfolding ref_round_def by blast

interpretation ref_pg: postgres ref_pg
proof
  show "\<exists>m. pg_numeric5_4 ref_pg (Fin r) = Some m \<and> \<bar>m - r\<bar> \<le> 1 / 20000" if r: "\<bar>r\<bar> \<le> 9" for r
  proof -
    have c: "\<bar>ref_round 4 r - r\<bar> \<le> 1 / 20000" using ref_round_close [of 4 r] by simp
    then have "\<bar>ref_round 4 r\<bar> < 10" using r by (simp only: abs_le_iff abs_less_iff) linarith
    with c show ?thesis by (simp add: ref_pg_def ref_numeric5_4_def Let_def)
  qed
  show "of_int lo \<le> pg_avg ref_pg vs \<and> pg_avg ref_pg vs \<le> of_int hi"
    if "vs \<noteq> []" "\<And>v. v \<in> set vs \<Longrightarrow> of_int lo \<le> v \<and> v \<le> of_int hi" for vs lo hi
    using ref_avg_between [OF that] by (simp add: ref_pg_def)
  show "pg_time_bucket ref_pg ''1 hour'' t = time_truncate t hour" for t
    by (simp add: ref_pg_def ref_time_bucket_hour)
  show "\<bar>m\<bar> < 10 \<and> (\<exists>k::int. m = of_int k / 10 ^ 4)" if "pg_numeric5_4 ref_pg v = Some m" for v m
    using that ref_round_multiple [of 4]
    by (auto simp: ref_pg_def ref_numeric5_4_def Let_def simp del: power_numeral split: float64.splits if_splits)
  show "pg_timestamptz ref_pg t = Some t' \<Longrightarrow> t' \<le> t \<and> t < t' + 1000 \<and> pg_timestamptz ref_pg t' = Some t'" for t t'
    by (auto simp: ref_pg_def)
  show "rfc3339_range t \<Longrightarrow> t mod 1000 = 0 \<Longrightarrow> pg_timestamptz ref_pg t = Some t" for t
    by (simp add: ref_pg_def)
  show "pg_numeric18_8 ref_pg r = Some n \<Longrightarrow> scale8 n \<and> \<bar>n\<bar> < 10 ^ 10" for r n
    using ref_numeric_stored [of r n] by (simp add: ref_pg_def)
  show "scale8 r \<Longrightarrow> \<bar>r\<bar> < 10 ^ 10 \<Longrightarrow> pg_numeric18_8 ref_pg r = Some r" for r
    by (simp add: ref_pg_def ref_numeric_exact)
qed (auto simp: ref_pg_def ref_uuid_canonical ref_numeric5_4_def Let_def split: float64.splits if_splits)

end
