(* ===== verification/Trade_Store.thy ===== *)
theory Trade_Store
  imports Postgres
begin

text \<open>
  \<open>internal/store/trade_store.go\<close>: the SQL statements over the trades table (declared by
  migration 001) and the operations of \<open>TradeStore\<close> that send them.
\<close>

section \<open>A trade as a table row (migration 001)\<close>

definition opt_col :: "('a \<Rightarrow> 'b option) \<Rightarrow> 'a option \<Rightarrow> 'b option option" where
  "opt_col f x = (case x of None \<Rightarrow> Some None | Some v \<Rightarrow> map_option Some (f v))"

definition smallint_ok :: "int \<Rightarrow> bool" where "smallint_ok n \<longleftrightarrow> - 32768 \<le> n \<and> n \<le> 32767"

text \<open>
  The values \<open>$1\<close> to \<open>$18\<close> converted to the column types, \<open>now()\<close> in both time stamps; no
  row when a value does not convert.
\<close>

definition trade_to_row :: "pg_types \<Rightarrow> 'd decimal_ops \<Rightarrow> time \<Rightarrow> 'd Trade \<Rightarrow> rat Trade option" where
  "trade_to_row T D now t = do {
     tid \<leftarrow> pg_uuid T (TradeID t);
     uid \<leftarrow> pg_uuid T (UserID t);
     sid \<leftarrow> pg_uuid T (SessionID t);
     ep \<leftarrow> pg_numeric18_8 T (dec_value D (EntryPrice t));
     xp \<leftarrow> opt_col (\<lambda>x. pg_numeric18_8 T (dec_value D x)) (ExitPrice t);
     qty \<leftarrow> pg_numeric18_8 T (dec_value D (Quantity t));
     ea \<leftarrow> pg_timestamptz T (EntryAt t);
     xa \<leftarrow> opt_col (pg_timestamptz T) (ExitAt t);
     pl \<leftarrow> opt_col (\<lambda>x. pg_numeric18_8 T (dec_value D x)) (PnL t);
     if pg_text T (Asset t) \<and> AssetClass t \<in> set asset_class_enum \<and> Direction t \<in> set direction_enum
        \<and> Status t \<in> set status_enum \<and> \<not> ptr_and (PlanAdherence t) (\<lambda>p. \<not> smallint_ok p)
        \<and> \<not> ptr_and (EmotionalState t) (\<lambda>e. e \<notin> set emotion_enum)
        \<and> \<not> ptr_and (EntryRationale t) (\<lambda>r. \<not> (pg_text T r \<and> pg_char_length T r \<le> 500))
        \<and> \<not> ptr_and (Outcome t) (\<lambda>e. e \<notin> set outcome_enum)
     then Some \<lparr> TradeID = tid, UserID = uid, SessionID = sid, Asset = Asset t,
                 AssetClass = AssetClass t, Direction = Direction t, EntryPrice = ep, ExitPrice = xp,
                 Quantity = qty, EntryAt = ea, ExitAt = xa, Status = Status t,
                 PlanAdherence = PlanAdherence t, EmotionalState = EmotionalState t,
                 EntryRationale = EntryRationale t, Outcome = Outcome t, PnL = pl,
                 RevengeFlag = RevengeFlag t, CreatedAt = now, UpdatedAt = now \<rparr>
     else None }"

text \<open>\<open>CHECK (plan_adherence BETWEEN 1 AND 5)\<close> and the two foreign keys.\<close>

definition trade_check :: "rat Trade \<Rightarrow> bool" where
  "trade_check r \<longleftrightarrow> \<not> ptr_and (PlanAdherence r) (\<lambda>p. \<not> (1 \<le> p \<and> p \<le> 5))"

definition trade_fk :: "db \<Rightarrow> rat Trade \<Rightarrow> bool" where
  "trade_fk s r \<longleftrightarrow> tbl_lookup u_UserID (UserID r) (users s) \<noteq> None
     \<and> tbl_lookup s_SessionID (SessionID r) (sessions s) \<noteq> None"

section \<open>Reading rows (scanTrade, scanTradeRows)\<close>

definition scanTrade :: "'d decimal_ops \<Rightarrow> rat Trade \<Rightarrow> 'd Trade" where
  "scanTrade D r =
     \<lparr> TradeID = TradeID r, UserID = UserID r, SessionID = SessionID r, Asset = Asset r,
       AssetClass = AssetClass r, Direction = Direction r, EntryPrice = dec_scan D (EntryPrice r),
       ExitPrice = map_option (dec_scan D) (ExitPrice r), Quantity = dec_scan D (Quantity r),
       EntryAt = EntryAt r, ExitAt = ExitAt r, Status = Status r, PlanAdherence = PlanAdherence r,
       EmotionalState = EmotionalState r, EntryRationale = EntryRationale r, Outcome = Outcome r,
       PnL = map_option (dec_scan D) (PnL r), RevengeFlag = RevengeFlag r, CreatedAt = CreatedAt r,
       UpdatedAt = UpdatedAt r \<rparr>"

definition scanTradeRows :: "'d decimal_ops \<Rightarrow> rat Trade list \<Rightarrow> 'd Trade list" where
  "scanTradeRows D rows = map (scanTrade D) rows"

lemma scanTrade_fields [simp]:
  "TradeID (scanTrade D r) = TradeID r" "UserID (scanTrade D r) = UserID r"
  "SessionID (scanTrade D r) = SessionID r" "EntryAt (scanTrade D r) = EntryAt r"
  "ExitAt (scanTrade D r) = ExitAt r" "Status (scanTrade D r) = Status r"
  "PlanAdherence (scanTrade D r) = PlanAdherence r"
  "EmotionalState (scanTrade D r) = EmotionalState r" "Outcome (scanTrade D r) = Outcome r"
  "PnL (scanTrade D r) = map_option (dec_scan D) (PnL r)" "RevengeFlag (scanTrade D r) = RevengeFlag r"
  "Direction (scanTrade D r) = Direction r" "CreatedAt (scanTrade D r) = CreatedAt r"
  by (simp_all add: scanTrade_def)

section \<open>Upsert\<close>

text \<open>
  \<open>INSERT ... ON CONFLICT (trade_id) DO NOTHING RETURNING ...\<close>: conversion and CHECK come
  before the conflict test, the foreign keys are tested for an inserted row only. A statement
  that fails changes nothing; a conflict returns no row.
\<close>

definition insert_trade :: "pg_types \<Rightarrow> 'd decimal_ops \<Rightarrow> 'd Trade \<Rightarrow> rat Trade stmt" where
  "insert_trade T D t s =
     (case trade_to_row T D (db_now s) t of
        None \<Rightarrow> (Inl (pg_error T InvalidInput), s)
      | Some row \<Rightarrow>
          if \<not> trade_check row then (Inl (pg_error T CheckViolation), s)
          else (case tbl_insert_new TradeID row (trades s) of
                  (None, _) \<Rightarrow> (Inl ErrNoRows, s)
                | (Some r, rows) \<Rightarrow>
                    if trade_fk s r then (Inr r, s\<lparr>trades := rows\<rparr>)
                    else (Inl (pg_error T ForeignKeyViolation), s)))"

definition select_trade :: "pg_types \<Rightarrow> string \<Rightarrow> rat Trade stmt" where
  "select_trade T tradeID s =
     (case pg_uuid T tradeID of
        None \<Rightarrow> (Inl (pg_error T InvalidInput), s)
      | Some u \<Rightarrow> (case tbl_lookup TradeID u (trades s) of
                    None \<Rightarrow> (Inl ErrNoRows, s)
                  | Some r \<Rightarrow> (Inr r, s)))"

definition Upsert :: "pg_types \<Rightarrow> 'd decimal_ops \<Rightarrow> 'd Trade \<Rightarrow> 'd Trade stmt" where
  "Upsert T D t s =
     (case pg_send T (insert_trade T D t) s of
        (Inr r, s1) \<Rightarrow> (Inr (scanTrade D r), s1)
      | (Inl e, s1) \<Rightarrow>
          if error_is e ErrNoRows
          then (case pg_send T (select_trade T (TradeID t)) s1 of
                  (Inr r, s2) \<Rightarrow> (Inr (scanTrade D r), s2)
                | (Inl e2, s2) \<Rightarrow> (Inl e2, s2))
          else (Inl e, s1))"

section \<open>Queries\<close>

definition GetByID :: "pg_types \<Rightarrow> 'd decimal_ops \<Rightarrow> string \<Rightarrow> 'd Trade stmt" where
  "GetByID T D tradeID s =
     (case pg_send T (select_trade T tradeID) s of
        (Inr r, s1) \<Rightarrow> (Inr (scanTrade D r), s1)
      | (Inl e, s1) \<Rightarrow> if error_is e ErrNoRows then (Inl ErrNotFound, s1) else (Inl e, s1))"

text \<open>A query with one UUID argument: an argument that is not a UUID is an error.\<close>

definition select_by_uuid :: "pg_types \<Rightarrow> string \<Rightarrow> (string \<Rightarrow> rat Trade list \<Rightarrow> 'a) \<Rightarrow> 'a stmt" where
  "select_by_uuid T arg q s =
     (case pg_uuid T arg of
        None \<Rightarrow> (Inl (pg_error T InvalidInput), s)
      | Some u \<Rightarrow> (Inr (q u (pg_scan T (trades s))), s))"

definition ListBySession :: "pg_types \<Rightarrow> 'd decimal_ops \<Rightarrow> string \<Rightarrow> 'd Trade list stmt" where
  "ListBySession T D sessionID =
     pg_send T (select_by_uuid T sessionID
       (\<lambda>u rows. scanTradeRows D (sort_key EntryAt (filter (\<lambda>r. SessionID r = u) rows))))"

text \<open>\<open>ORDER BY exit_at DESC\<close>: PostgreSQL sorts nulls first in descending order.\<close>

definition order_by_exit_desc :: "rat Trade list \<Rightarrow> rat Trade list" where
  "order_by_exit_desc rows =
     filter (\<lambda>r. ExitAt r = None) rows
     @ sort_key (\<lambda>r. - opt_else 0 (ExitAt r)) (filter (\<lambda>r. ExitAt r \<noteq> None) rows)"

definition GetLastPlanAdherenceRatings :: "pg_types \<Rightarrow> string \<Rightarrow> nat \<Rightarrow> int list stmt" where
  "GetLastPlanAdherenceRatings T userID limit =
     pg_send T (select_by_uuid T userID
       (\<lambda>u rows. map (\<lambda>r. opt_else 0 (PlanAdherence r)) (take limit (order_by_exit_desc
          (filter (\<lambda>r. UserID r = u \<and> Status r = ''closed'' \<and> PlanAdherence r \<noteq> None) rows)))))"

text \<open>\<open>LAG(outcome)\<close> over the rows in order: the outcome of the row before, null for the first.\<close>

definition lag_outcome :: "rat Trade list \<Rightarrow> string option list" where
  "lag_outcome rows = take (length rows) (None # map Outcome rows)"

definition GetSessionTiltData :: "pg_types \<Rightarrow> string \<Rightarrow> (int \<times> int) stmt" where
  "GetSessionTiltData T sessionID =
     pg_send T (select_by_uuid T sessionID
       (\<lambda>u rows. let prev = filter (\<lambda>o'. o' \<noteq> None)
                     (lag_outcome (sort_key EntryAt (filter (\<lambda>r. SessionID r = u) rows)))
                 in (int (length (filter (\<lambda>o'. o' = Some ''loss'') prev)), int (length prev))))"

section \<open>Evidence for pathologies\<close>

record EvidenceResult =
  TradeIDs :: "string list"
  SessionIDs :: "string list"

text \<open>The \<open>WHERE\<close> clause of each pathology, for a row of the user's table.\<close>

definition pathology_clause :: "pg_types \<Rightarrow> string \<Rightarrow> rat Trade list \<Rightarrow> string \<Rightarrow> rat Trade \<Rightarrow> bool" where
  "pathology_clause T u rows pathology r =
     (if pathology = ''revenge_trading'' then RevengeFlag r
      else if pathology = ''overtrading''
        then 8 < length (filter (\<lambda>x. UserID x = u \<and> SessionID x = SessionID r) rows)
      else if pathology = ''fomo_entries'' then EmotionalState r = Some ''greedy''
      else if pathology = ''plan_non_adherence'' then ptr_and (PlanAdherence r) (\<lambda>p. p \<le> 2)
      else if pathology = ''premature_exit''
        then Status r = ''closed'' \<and> ptr_and (ExitAt r) (\<lambda>x. x - EntryAt r < 1800 * second)
      else if pathology = ''loss_running''
        then Outcome r = Some ''loss'' \<and> ptr_and (PnL r) (\<lambda>p. 100 < \<bar>p\<bar>)
      else if pathology = ''session_tilt''
        then \<exists>x \<in> set rows. UserID x = u \<and> Outcome x = Some ''loss'' \<and> SessionID x = SessionID r
      else if pathology = ''time_of_day_bias''
        then pg_hour (EntryAt r) < 9 \<or> 15 < pg_hour (EntryAt r)
      else if pathology = ''position_sizing_inconsistency''
        then pg_avg T (map Quantity (filter (\<lambda>x. UserID x = u) rows)) * (3 / 2) < Quantity r
      else True)"

text \<open>The loop over the result rows: every trade, and each session the first time it is seen.\<close>

definition add_evidence :: "EvidenceResult \<Rightarrow> rat Trade \<Rightarrow> EvidenceResult" where
  "add_evidence e r =
     e\<lparr> TradeIDs := TradeIDs e @ [TradeID r],
        SessionIDs := (if SessionID r \<in> set (SessionIDs e) then SessionIDs e
                       else SessionIDs e @ [SessionID r]) \<rparr>"

definition GetEvidenceForPathology :: "pg_types \<Rightarrow> string \<Rightarrow> string \<Rightarrow> EvidenceResult stmt" where
  "GetEvidenceForPathology T userID pathology =
     pg_send T (select_by_uuid T userID
       (\<lambda>u rows. foldl add_evidence \<lparr>TradeIDs = [], SessionIDs = []\<rparr>
          (take 10 (sort_key (\<lambda>r. - EntryAt r)
             (filter (\<lambda>r. UserID r = u \<and> pathology_clause T u rows pathology r) rows)))))"

section \<open>What sending a statement can do\<close>

lemma pg_send_cases:
  obtains (up) ds where "pg_send T q s = q (s\<lparr>db_deliveries := ds\<rparr>)"
  | (lost) ds where "pg_send T q s = (Inl (pg_error T ConnectionLost), s\<lparr>db_deliveries := ds\<rparr>)"
  | (noreply) ds where "pg_send T q s = (Inl (pg_error T ConnectionLost), snd (q (s\<lparr>db_deliveries := ds\<rparr>)))"
proof (cases "db_deliveries s")
  case Nil
  then have "s\<lparr>db_deliveries := []\<rparr> = s" by (cases s) simp
  with Nil up [of "[]"] show thesis by (simp add: pg_send_def)
next
  case (Cons d ds)
  with up [of ds] lost [of ds] noreply [of ds] show thesis by (cases d) (simp_all add: pg_send_def)
qed

text \<open>
  What holds of every outcome of a statement and of an outcome that is lost, before or after the
  statement took effect, holds of sending it.
\<close>

lemma pg_send_rule:
  assumes "\<And>ds. E (q (s\<lparr>db_deliveries := ds\<rparr>))" "\<And>ds. E (Inl (pg_error T ConnectionLost), s\<lparr>db_deliveries := ds\<rparr>)"
    and "\<And>ds. E (Inl (pg_error T ConnectionLost), snd (q (s\<lparr>db_deliveries := ds\<rparr>)))"
  shows "E (pg_send T q s)"
  by (rule pg_send_cases [of T q s]) (simp_all add: assms)

lemma pg_send_state:
  assumes "\<And>ds. V (snd (q (s\<lparr>db_deliveries := ds\<rparr>)))" "\<And>ds. V (s\<lparr>db_deliveries := ds\<rparr>)"
  shows "V (snd (pg_send T q s))"
  by (rule pg_send_rule [where E = "\<lambda>r. V (snd r)"]) (simp_all add: assms)

text \<open>A query that changes nothing changes only the delivery script when sent.\<close>

lemma pg_send_read:
  assumes "\<And>s. snd (q s) = s"
  shows "\<exists>ds. snd (pg_send T q s) = s\<lparr>db_deliveries := ds\<rparr>"
  by (rule pg_send_cases [of T q s]) (auto simp: assms)

lemma select_reads [simp]:
  "snd (select_trade T k s) = s" "snd (select_by_uuid T k f s) = s"
  by (simp_all add: select_trade_def select_by_uuid_def split: option.splits)

text \<open>Every query of the store is a read.\<close>

lemma query_frame [frame_simps]:
  "\<exists>ds. snd (ListBySession T D sid s) = s\<lparr>db_deliveries := ds\<rparr>"
  "\<exists>ds. snd (GetLastPlanAdherenceRatings T uid n s) = s\<lparr>db_deliveries := ds\<rparr>"
  "\<exists>ds. snd (GetSessionTiltData T sid s) = s\<lparr>db_deliveries := ds\<rparr>"
  "\<exists>ds. snd (GetEvidenceForPathology T uid p s) = s\<lparr>db_deliveries := ds\<rparr>"
  unfolding ListBySession_def GetLastPlanAdherenceRatings_def GetSessionTiltData_def
    GetEvidenceForPathology_def
  by (rule pg_send_read, simp)+

lemma GetByID_frame: "\<exists>ds. snd (GetByID T D tid s) = s\<lparr>db_deliveries := ds\<rparr>"
proof -
  obtain ds where "snd (pg_send T (select_trade T tid) s) = s\<lparr>db_deliveries := ds\<rparr>"
    using pg_send_read [of "select_trade T tid" T s] by auto
  then show ?thesis
    by (auto simp: GetByID_def split: prod.splits sum.splits)
qed

section \<open>Insertion\<close>

text \<open>The row a trade becomes, with the time of the insertion in both time stamps.\<close>

definition inserts_row :: "pg_types \<Rightarrow> 'd decimal_ops \<Rightarrow> 'd Trade \<Rightarrow> db \<Rightarrow> rat Trade \<Rightarrow> bool" where
  "inserts_row T D t s row \<longleftrightarrow>
     trade_to_row T D (db_now s) t = Some row \<and> trade_check row \<and> trade_fk s row
     \<and> tbl_lookup TradeID (TradeID row) (trades s) = None"

lemma insert_trade_cases:
  obtains (inserted) row where "inserts_row T D t s row"
      "insert_trade T D t s = (Inr row, s\<lparr>trades := trades s @ [row]\<rparr>)"
  | (conflict) row old where "trade_to_row T D (db_now s) t = Some row" "trade_check row"
      "tbl_lookup TradeID (TradeID row) (trades s) = Some old"
      "insert_trade T D t s = (Inl ErrNoRows, s)"
  | (refused) f where "insert_trade T D t s = (Inl (pg_error T f), s)"
proof (cases "trade_to_row T D (db_now s) t")
  case None
  then show thesis by (intro refused [of InvalidInput]) (simp add: insert_trade_def)
next
  case (Some row)
  show thesis
  proof (cases "trade_check row")
    case False
    with Some show thesis by (intro refused [of CheckViolation]) (simp add: insert_trade_def)
  next
    case check: True
    show thesis
    proof (cases "tbl_lookup TradeID (TradeID row) (trades s)")
      case (Some old)
      with \<open>trade_to_row T D (db_now s) t = Some row\<close> check show thesis
        by (intro conflict [of row old]) (simp_all add: insert_trade_def tbl_insert_new_def)
    next
      case None
      show thesis
      proof (cases "trade_fk s row")
        case True
        with Some None check show thesis
          by (intro inserted [of row]) (simp_all add: insert_trade_def tbl_insert_new_def inserts_row_def)
      next
        case False
        with Some None check show thesis
          by (intro refused [of ForeignKeyViolation]) (simp add: insert_trade_def tbl_insert_new_def)
      qed
    qed
  qed
qed

lemma inserts_row_deliveries [simp]:
  "inserts_row T D t (s\<lparr>db_deliveries := ds\<rparr>) row = inserts_row T D t s row"
  by (simp add: inserts_row_def trade_fk_def)

lemma pg_error_not_no_rows [simp]: "pg_error T f \<noteq> ErrNoRows" "\<not> error_is (pg_error T f) ErrNoRows"
  "pg_error T f \<noteq> ErrNotFound" "\<not> error_is (pg_error T f) ErrNotFound"
  by (simp_all add: pg_error_def)

text \<open>
  Sent over a connection that may fail, an INSERT and an \<open>Upsert\<close> either leave the tables as they
  are or append the one row their trade converts to; nothing else of the database changes.
\<close>

lemma insert_trade_effect:
  "\<exists>ds. snd (pg_send T (insert_trade T D t) s) = s\<lparr>db_deliveries := ds\<rparr>
     \<or> (\<exists>row. inserts_row T D t s row
          \<and> snd (pg_send T (insert_trade T D t) s) = s\<lparr>trades := trades s @ [row], db_deliveries := ds\<rparr>)"
proof (rule pg_send_state [where V = "\<lambda>s'. \<exists>ds. s' = s\<lparr>db_deliveries := ds\<rparr>
     \<or> (\<exists>row. inserts_row T D t s row \<and> s' = s\<lparr>trades := trades s @ [row], db_deliveries := ds\<rparr>)"])
  show "\<exists>ds'. snd (insert_trade T D t (s\<lparr>db_deliveries := ds\<rparr>)) = s\<lparr>db_deliveries := ds'\<rparr>
      \<or> (\<exists>row. inserts_row T D t s row \<and> snd (insert_trade T D t (s\<lparr>db_deliveries := ds\<rparr>))
            = s\<lparr>trades := trades s @ [row], db_deliveries := ds'\<rparr>)" for ds
    by (rule insert_trade_cases [of T D t "s\<lparr>db_deliveries := ds\<rparr>"]) (auto intro!: exI [of _ ds])
qed auto

lemma Upsert_effect:
  "\<exists>ds. snd (Upsert T D t s) = s\<lparr>db_deliveries := ds\<rparr>
     \<or> (\<exists>row. inserts_row T D t s row
          \<and> snd (Upsert T D t s) = s\<lparr>trades := trades s @ [row], db_deliveries := ds\<rparr>)"
proof -
  obtain r1 s1 where sent: "pg_send T (insert_trade T D t) s = (r1, s1)" by fastforce
  obtain ds2 where sel: "snd (pg_send T (select_trade T (TradeID t)) s1) = s1\<lparr>db_deliveries := ds2\<rparr>"
    using pg_send_read [of "select_trade T (TradeID t)" T s1] by auto
  have "snd (Upsert T D t s) = s1 \<or> snd (Upsert T D t s) = s1\<lparr>db_deliveries := ds2\<rparr>"
    using sel by (auto simp: Upsert_def sent split: sum.splits prod.splits)
  with insert_trade_effect [of T D t s] sent show ?thesis by fastforce
qed

text \<open>The two successful outcomes on a connection that stays up.\<close>

lemma Upsert_fresh:
  assumes "db_deliveries s = []" "inserts_row T D t s row"
  shows "Upsert T D t s = (Inr (scanTrade D row), s\<lparr>trades := trades s @ [row]\<rparr>)"
  using assms by (simp add: Upsert_def insert_trade_def inserts_row_def tbl_insert_new_def)

lemma trade_to_row_key: "trade_to_row T D now t = Some row \<Longrightarrow> pg_uuid T (TradeID t) = Some (TradeID row)"
  by (auto simp: trade_to_row_def bind_eq_Some_conv split: if_splits)

lemma Upsert_existing:
  assumes "db_deliveries s = []" "trade_to_row T D (db_now s) t = Some row" "trade_check row"
    and "tbl_lookup TradeID (TradeID row) (trades s) = Some old"
  shows "Upsert T D t s = (Inr (scanTrade D old), s)"
  using assms trade_to_row_key [OF assms(2)]
  by (simp add: Upsert_def insert_trade_def tbl_insert_new_def select_trade_def)

lemma trade_to_row_now:
  "trade_to_row T D now t = Some row \<Longrightarrow>
   trade_to_row T D now' t = Some (row\<lparr>CreatedAt := now', UpdatedAt := now'\<rparr>)"
  by (auto simp: trade_to_row_def bind_eq_Some_conv split: if_splits)

text \<open>The fields a stored row takes over unchanged, and those that are canonicalised.\<close>

lemma trade_to_row_fields:
  assumes "trade_to_row T D now t = Some row"
  shows "Status row = Status t" "Outcome row = Outcome t" "EmotionalState row = EmotionalState t"
    "PlanAdherence row = PlanAdherence t" "RevengeFlag row = RevengeFlag t"
    "pg_uuid T (UserID t) = Some (UserID row)" "pg_uuid T (SessionID t) = Some (SessionID row)"
    "CreatedAt row = now" "UpdatedAt row = now" "Direction row = Direction t"
  using assms by (auto simp: trade_to_row_def bind_eq_Some_conv split: if_splits)

section \<open>The invariant of the trades table\<close>

definition trade_row_ok :: "pg_types \<Rightarrow> db \<Rightarrow> rat Trade \<Rightarrow> bool" where
  "trade_row_ok T s r \<longleftrightarrow>
     pg_uuid T (TradeID r) = Some (TradeID r) \<and> pg_uuid T (UserID r) = Some (UserID r)
     \<and> pg_uuid T (SessionID r) = Some (SessionID r) \<and> trade_fk s r \<and> trade_check r
     \<and> AssetClass r \<in> set asset_class_enum \<and> Direction r \<in> set direction_enum
     \<and> Status r \<in> set status_enum
     \<and> scale8 (EntryPrice r) \<and> scale8 (Quantity r) \<and> \<not> ptr_and (ExitPrice r) (\<lambda>x. \<not> scale8 x)
     \<and> \<not> ptr_and (PnL r) (\<lambda>x. \<not> scale8 x)
     \<and> \<not> ptr_and (EmotionalState r) (\<lambda>e. e \<notin> set emotion_enum)
     \<and> \<not> ptr_and (Outcome r) (\<lambda>o'. o' \<notin> set outcome_enum)"

definition trades_ok :: "pg_types \<Rightarrow> db \<Rightarrow> bool" where
  "trades_ok T s \<longleftrightarrow> distinct (map TradeID (trades s)) \<and> (\<forall>r \<in> set (trades s). trade_row_ok T s r)"

lemma trade_row_ok_frame [simp]:
  "trade_row_ok T (s\<lparr>db_deliveries := ds\<rparr>) r = trade_row_ok T s r"
  "trade_row_ok T (s\<lparr>trades := ts\<rparr>) r = trade_row_ok T s r"
  by (simp_all add: trade_row_ok_def trade_fk_def)

lemma trades_ok_deliveries [simp]: "trades_ok T (s\<lparr>db_deliveries := ds\<rparr>) = trades_ok T s"
  by (simp add: trades_ok_def)

context postgres
begin

lemma opt_col_Some: "opt_col f x = Some y \<Longrightarrow> (y = None \<and> x = None) \<or> (\<exists>v w. x = Some v \<and> y = Some w \<and> f v = Some w)"
  by (cases x) (auto simp: opt_col_def)

lemma opt_col_scale8:
  "opt_col (\<lambda>x. pg_numeric18_8 T (g x)) x = Some y \<Longrightarrow> \<not> ptr_and y (\<lambda>v. \<not> scale8 v)"
  using numeric_stored by (auto dest!: opt_col_Some)

lemma trade_to_row_ok:
  assumes "trade_to_row T D now t = Some row" "trade_check row" "trade_fk s row"
  shows "trade_row_ok T s row"
  using assms
  by (auto simp: trade_to_row_def trade_row_ok_def bind_eq_Some_conv
      dest: uuid_canonical numeric_stored opt_col_scale8 split: if_splits)

lemma trades_ok_append:
  assumes "trades_ok T s" "inserts_row T D t s row"
  shows "trades_ok T (s\<lparr>trades := trades s @ [row]\<rparr>)"
  using assms trade_to_row_ok [of D "db_now s" t row s]
  by (auto simp: trades_ok_def inserts_row_def tbl_lookup_None)

lemma Upsert_trades_ok: "trades_ok T s \<Longrightarrow> trades_ok T (snd (Upsert T D t s))"
proof -
  assume ok: "trades_ok T s"
  obtain ds where "snd (Upsert T D t s) = s\<lparr>db_deliveries := ds\<rparr>
     \<or> (\<exists>row. inserts_row T D t s row
          \<and> snd (Upsert T D t s) = s\<lparr>trades := trades s @ [row], db_deliveries := ds\<rparr>)"
    using Upsert_effect by blast
  then show ?thesis
    using ok trades_ok_append [OF ok] by auto
qed

end

section \<open>What an Upsert returns\<close>

text \<open>
  A successful answer is always the scan of the row that the table holds under the trade's key
  afterwards: the new row, or the canonical row of an earlier insert.
\<close>

lemma select_trade_Inr:
  "select_trade T k s = (Inr r, s') \<Longrightarrow>
     s' = s \<and> (\<exists>u. pg_uuid T k = Some u \<and> tbl_lookup TradeID u (trades s) = Some r)"
  by (auto simp: select_trade_def split: option.splits)

lemma insert_trade_Inr:
  "insert_trade T D t s = (Inr r, s') \<Longrightarrow>
     inserts_row T D t s r \<and> s' = s\<lparr>trades := trades s @ [r]\<rparr>"
  by (rule insert_trade_cases [of T D t s]) auto

lemma Upsert_answer:
  assumes "Upsert T D t s = (Inr x, s')"
  shows "\<exists>r. x = scanTrade D r \<and> pg_uuid T (TradeID t) = Some (TradeID r)
    \<and> tbl_lookup TradeID (TradeID r) (trades s') = Some r"
proof -
  obtain r1 s1 where ins: "pg_send T (insert_trade T D t) s = (r1, s1)" by fastforce
  show ?thesis
  proof (cases r1)
    case (Inr r)
    with ins obtain ds where "insert_trade T D t (s\<lparr>db_deliveries := ds\<rparr>) = (Inr r, s1)"
      by (metis pg_send_InrE)
    then have "inserts_row T D t s r" "s1 = s\<lparr>trades := trades s @ [r], db_deliveries := ds\<rparr>"
      using insert_trade_Inr by force+
    moreover have "x = scanTrade D r" "s' = s1" using assms ins Inr by (simp_all add: Upsert_def)
    ultimately show ?thesis
      by (auto simp: inserts_row_def trade_to_row_key tbl_lookup_append)
  next
    case (Inl e)
    obtain r2 s2 where sel: "pg_send T (select_trade T (TradeID t)) s1 = (r2, s2)" by fastforce
    from assms ins Inl sel obtain r where r: "r2 = Inr r" "x = scanTrade D r" "s' = s2"
      by (auto simp: Upsert_def split: if_splits sum.splits)
    with sel obtain ds where "select_trade T (TradeID t) (s1\<lparr>db_deliveries := ds\<rparr>) = (Inr r, s2)"
      by (metis pg_send_InrE)
    then have "s2 = s1\<lparr>db_deliveries := ds\<rparr>"
      "\<exists>u. pg_uuid T (TradeID t) = Some u \<and> tbl_lookup TradeID u (trades s1) = Some r"
      using select_trade_Inr by force+
    with r show ?thesis by (auto dest: tbl_lookup_Some)
  qed
qed

text \<open>
  On any connection an \<open>Upsert\<close> inserts the row of its trade, finds the row that holds its ID, or
  is refused or lost before it did anything; its answer is the row, or lost.
\<close>

lemma Upsert_cases:
  obtains (inserted) row ds where "inserts_row T D t s row"
      "snd (Upsert T D t s) = s\<lparr>trades := trades s @ [row], db_deliveries := ds\<rparr>"
      "fst (Upsert T D t s) \<in> {Inr (scanTrade D row), Inl (pg_error T ConnectionLost)}"
  | (existing) row old ds where "trade_to_row T D (db_now s) t = Some row" "trade_check row"
      "tbl_lookup TradeID (TradeID row) (trades s) = Some old"
      "snd (Upsert T D t s) = s\<lparr>db_deliveries := ds\<rparr>"
      "fst (Upsert T D t s) \<in> {Inr (scanTrade D old), Inl (pg_error T ConnectionLost)}"
  | (refused) f ds where "Upsert T D t s = (Inl (pg_error T f), s\<lparr>db_deliveries := ds\<rparr>)"
proof -
  have lost: thesis if "pg_send T (insert_trade T D t) s = (Inl (pg_error T f), s\<lparr>db_deliveries := ds\<rparr>)" for f ds
    using that by (intro refused [of f ds]) (simp add: Upsert_def)
  have sel: thesis
    if row: "trade_to_row T D (db_now s) t = Some row" "trade_check row"
        "tbl_lookup TradeID (TradeID row) (trades s) = Some old"
      and ins: "pg_send T (insert_trade T D t) s = (Inl ErrNoRows, s\<lparr>db_deliveries := ds\<rparr>)" for row old ds
  proof (rule pg_send_cases [of T "select_trade T (TradeID t)" "s\<lparr>db_deliveries := ds\<rparr>"])
    fix ds' assume "pg_send T (select_trade T (TradeID t)) (s\<lparr>db_deliveries := ds\<rparr>)
        = select_trade T (TradeID t) (s\<lparr>db_deliveries := ds, db_deliveries := ds'\<rparr>)"
    then show thesis using row(3) trade_to_row_key [OF row(1)] ins
      by (intro existing [OF row, of ds']) (simp_all add: Upsert_def select_trade_def)
  next
    fix ds' assume "pg_send T (select_trade T (TradeID t)) (s\<lparr>db_deliveries := ds\<rparr>)
        = (Inl (pg_error T ConnectionLost), s\<lparr>db_deliveries := ds, db_deliveries := ds'\<rparr>)"
    then show thesis using ins by (intro existing [OF row, of ds']) (simp_all add: Upsert_def)
  next
    fix ds' assume "pg_send T (select_trade T (TradeID t)) (s\<lparr>db_deliveries := ds\<rparr>)
        = (Inl (pg_error T ConnectionLost), snd (select_trade T (TradeID t) (s\<lparr>db_deliveries := ds, db_deliveries := ds'\<rparr>)))"
    then show thesis using ins by (intro existing [OF row, of ds']) (simp_all add: Upsert_def)
  qed
  show thesis
  proof (rule pg_send_cases [of T "insert_trade T D t" s])
    fix ds assume send: "pg_send T (insert_trade T D t) s = insert_trade T D t (s\<lparr>db_deliveries := ds\<rparr>)"
    show thesis
    proof (rule insert_trade_cases [of T D t "s\<lparr>db_deliveries := ds\<rparr>"])
      fix row assume "inserts_row T D t (s\<lparr>db_deliveries := ds\<rparr>) row"
        "insert_trade T D t (s\<lparr>db_deliveries := ds\<rparr>)
          = (Inr row, s\<lparr>db_deliveries := ds, trades := trades (s\<lparr>db_deliveries := ds\<rparr>) @ [row]\<rparr>)"
      with send show thesis by (intro inserted [of row ds]) (simp_all add: Upsert_def)
    next
      fix row old assume "trade_to_row T D (db_now (s\<lparr>db_deliveries := ds\<rparr>)) t = Some row" "trade_check row"
        "tbl_lookup TradeID (TradeID row) (trades (s\<lparr>db_deliveries := ds\<rparr>)) = Some old"
        "insert_trade T D t (s\<lparr>db_deliveries := ds\<rparr>) = (Inl ErrNoRows, s\<lparr>db_deliveries := ds\<rparr>)"
      with send show thesis by (intro sel [of row old ds]) simp_all
    next
      fix f assume "insert_trade T D t (s\<lparr>db_deliveries := ds\<rparr>) = (Inl (pg_error T f), s\<lparr>db_deliveries := ds\<rparr>)"
      with send show thesis by (intro lost [of f ds]) simp
    qed
  next
    fix ds assume "pg_send T (insert_trade T D t) s = (Inl (pg_error T ConnectionLost), s\<lparr>db_deliveries := ds\<rparr>)"
    then show thesis by (rule lost)
  next
    fix ds assume send: "pg_send T (insert_trade T D t) s
        = (Inl (pg_error T ConnectionLost), snd (insert_trade T D t (s\<lparr>db_deliveries := ds\<rparr>)))"
    show thesis
    proof (rule insert_trade_cases [of T D t "s\<lparr>db_deliveries := ds\<rparr>"])
      fix row assume "inserts_row T D t (s\<lparr>db_deliveries := ds\<rparr>) row"
        "insert_trade T D t (s\<lparr>db_deliveries := ds\<rparr>)
          = (Inr row, s\<lparr>db_deliveries := ds, trades := trades (s\<lparr>db_deliveries := ds\<rparr>) @ [row]\<rparr>)"
      with send show thesis by (intro inserted [of row ds]) (simp_all add: Upsert_def)
    qed (use send lost [of ConnectionLost ds] in simp_all)
  qed
qed

section \<open>Query results\<close>

lemma filter_lag_outcome:
  "filter (\<lambda>o'. o' \<noteq> None) (lag_outcome rows) = filter (\<lambda>o'. o' \<noteq> None) (map Outcome (butlast rows))"
proof (cases rows rule: rev_cases)
  case (snoc ys y)
  then show ?thesis by (simp add: lag_outcome_def)
qed (simp add: lag_outcome_def)

text \<open>Tilt counts: decided trades, and losses, among all but the last trade of the session.\<close>

definition tilt_counts :: "rat Trade list \<Rightarrow> int \<times> int" where
  "tilt_counts rows =
     (int (length (filter (\<lambda>r. Outcome r = Some ''loss'') (butlast rows))),
      int (length (filter (\<lambda>r. Outcome r \<noteq> None) (butlast rows))))"

lemma filter_loss_map:
  "filter (\<lambda>o'. o' = Some ''loss'') (filter (\<lambda>o'. o' \<noteq> None) (map Outcome rows))
     = map Outcome (filter (\<lambda>r. Outcome r = Some ''loss'') rows)"
  by (induction rows) auto

lemma length_filter_decided: "length (filter (\<lambda>o'. o' \<noteq> None) (map Outcome rows)) = length (filter (\<lambda>r. Outcome r \<noteq> None) rows)"
  by (induction rows) auto

lemma tilt_query:
  "(let prev = filter (\<lambda>o'. o' \<noteq> None) (lag_outcome rows)
    in (int (length (filter (\<lambda>o'. o' = Some ''loss'') prev)), int (length prev))) = tilt_counts rows"
  unfolding Let_def filter_lag_outcome filter_loss_map length_filter_decided length_map tilt_counts_def
  by (rule refl)

lemma GetSessionTiltData_counts:
  assumes "db_deliveries s = []" "pg_uuid T sid = Some u"
  shows "GetSessionTiltData T sid s =
    (Inr (tilt_counts (sort_key EntryAt (filter (\<lambda>r. SessionID r = u) (pg_scan T (trades s))))), s)"
  by (simp only: GetSessionTiltData_def tilt_query pg_send_up assms select_by_uuid_def option.case)

lemma tilt_counts_bounds:
  "0 \<le> fst (tilt_counts rows)" "fst (tilt_counts rows) \<le> snd (tilt_counts rows)"
  "snd (tilt_counts rows) \<le> int (length rows)"
proof -
  have "length (filter (\<lambda>r. Outcome r = Some ''loss'') xs) \<le> length (filter (\<lambda>r. Outcome r \<noteq> None) xs)" for xs
    by (induction xs) auto
  then show "0 \<le> fst (tilt_counts rows)" "fst (tilt_counts rows) \<le> snd (tilt_counts rows)"
    by (simp_all add: tilt_counts_def)
  have "length (filter P (butlast rows)) \<le> length rows" for P
    using length_filter_le [of P "butlast rows"] by simp
  then show "snd (tilt_counts rows) \<le> int (length rows)" by (simp add: tilt_counts_def)
qed

text \<open>The evidence loop collects the trades in order and each session once.\<close>

lemma add_evidence_fold:
  "foldl add_evidence e rows =
     e\<lparr> TradeIDs := TradeIDs e @ map TradeID rows,
        SessionIDs := fold (\<lambda>x xs. if x \<in> set xs then xs else xs @ [x]) (map SessionID rows) (SessionIDs e) \<rparr>"
  by (induction rows arbitrary: e) (simp_all add: add_evidence_def)

lemma collect_distinct:
  "distinct xs \<Longrightarrow> distinct (fold (\<lambda>x xs. if x \<in> set xs then xs else xs @ [x]) ys xs)"
  "set (fold (\<lambda>x xs. if x \<in> set xs then xs else xs @ [x]) ys xs) = set xs \<union> set ys"
  by (induction ys arbitrary: xs) auto

end
