(* ===== verification/Metrics_Store.thy ===== *)
theory Metrics_Store
  imports Trade_Store
begin

text \<open>
  \<open>internal/store/metrics_store.go\<close>: the additive upserts of the hourly buckets and of the
  daily win rates, the overtrading event log, and the range queries that aggregate them.
\<close>

section \<open>Result types\<close>

record 'd MetricsBucket =
  mb_Bucket :: time
  mb_TradeCount :: int
  mb_WinCount :: int
  mb_LossCount :: int
  mb_PnL :: 'd
  mb_AvgPlanAdherence :: "float64 option"
  mb_SessionTiltIndex :: "float64 option"
  mb_RevengeCount :: int
  mb_OvertradingEvents :: int

record EmotionWinRate =
  er_EmotionalState :: string
  er_Wins :: int
  er_Losses :: int
  er_WinRate :: float64

section \<open>UpsertBucket\<close>

definition metrics_key :: "metrics_row \<Rightarrow> time \<times> string" where
  "metrics_key r = (m_Bucket r, m_UserID r)"

text \<open>The \<open>DO UPDATE SET\<close> list: counts and P\&L add up, a non-null average or tilt replaces.\<close>

definition metrics_merge :: "metrics_row \<Rightarrow> metrics_row \<Rightarrow> metrics_row" where
  "metrics_merge x r =
     x\<lparr> m_TradeCount := m_TradeCount x + m_TradeCount r,
        m_WinCount := m_WinCount x + m_WinCount r,
        m_LossCount := m_LossCount x + m_LossCount r,
        m_TotalPnl := m_TotalPnl x + m_TotalPnl r,
        m_AvgPlanAdherence := coalesce (m_AvgPlanAdherence r) (m_AvgPlanAdherence x),
        m_SessionTiltIndex := coalesce (m_SessionTiltIndex r) (m_SessionTiltIndex x),
        m_RevengeCount := m_RevengeCount x + m_RevengeCount r,
        m_OvertradingEvents := m_OvertradingEvents x + m_OvertradingEvents r \<rparr>"

text \<open>The INT and NUMERIC(18,8) columns hold the row.\<close>

definition metrics_fits :: "pg_types \<Rightarrow> metrics_row \<Rightarrow> bool" where
  "metrics_fits T r \<longleftrightarrow>
     int4_ok (m_TradeCount r) \<and> int4_ok (m_WinCount r) \<and> int4_ok (m_LossCount r)
     \<and> int4_ok (m_RevengeCount r) \<and> int4_ok (m_OvertradingEvents r)
     \<and> pg_numeric18_8 T (m_TotalPnl r) = Some (m_TotalPnl r)"

definition metrics_to_row ::
  "pg_types \<Rightarrow> 'd decimal_ops \<Rightarrow> string \<Rightarrow> time \<Rightarrow> int \<Rightarrow> int \<Rightarrow> int \<Rightarrow> 'd
   \<Rightarrow> float64 option \<Rightarrow> float64 option \<Rightarrow> int \<Rightarrow> int \<Rightarrow> metrics_row option" where
  "metrics_to_row T D userID bucket tradeCount winCount lossCount totalPnl avg tilt revenge overtrading = do {
     b \<leftarrow> pg_timestamptz T bucket;
     u \<leftarrow> pg_uuid T userID;
     p \<leftarrow> pg_numeric18_8 T (dec_value D totalPnl);
     a \<leftarrow> opt_col (pg_numeric5_4 T) avg;
     x \<leftarrow> opt_col (pg_numeric5_4 T) tilt;
     Some \<lparr> m_Bucket = b, m_UserID = u, m_TradeCount = tradeCount, m_WinCount = winCount,
            m_LossCount = lossCount, m_TotalPnl = p, m_AvgPlanAdherence = a, m_SessionTiltIndex = x,
            m_RevengeCount = revenge, m_OvertradingEvents = overtrading \<rparr> }"

definition upsert_bucket_row :: "pg_types \<Rightarrow> metrics_row option \<Rightarrow> unit stmt" where
  "upsert_bucket_row T row s =
     (case row of
        None \<Rightarrow> (Inl (pg_error T InvalidInput), s)
      | Some r \<Rightarrow>
          (let new = (case tbl_lookup metrics_key (metrics_key r) (behavioral_metrics s) of
                        None \<Rightarrow> r | Some x \<Rightarrow> metrics_merge x r)
           in if metrics_fits T r \<and> metrics_fits T new
              then (Inr (), s\<lparr>behavioral_metrics :=
                      tbl_upsert metrics_key metrics_merge r (behavioral_metrics s)\<rparr>)
              else (Inl (pg_error T OutOfRange), s)))"

definition UpsertBucket ::
  "pg_types \<Rightarrow> 'd decimal_ops \<Rightarrow> string \<Rightarrow> time \<Rightarrow> int \<Rightarrow> int \<Rightarrow> int \<Rightarrow> 'd
   \<Rightarrow> float64 option \<Rightarrow> float64 option \<Rightarrow> int \<Rightarrow> int \<Rightarrow> unit stmt" where
  "UpsertBucket T D userID bucket tradeCount winCount lossCount totalPnl avg tilt revenge overtrading =
     pg_send T (upsert_bucket_row T
       (metrics_to_row T D userID bucket tradeCount winCount lossCount totalPnl avg tilt revenge overtrading))"

interpretation metrics_table: keyed_table metrics_key metrics_merge
  by unfold_locales (simp add: metrics_key_def metrics_merge_def)

section \<open>UpsertEmotionWinRate and InsertOvertradingEvent\<close>

definition emotion_key :: "emotion_row \<Rightarrow> string \<times> string \<times> int" where
  "emotion_key r = (e_UserID r, e_EmotionalState r, e_DateBucket r)"

definition emotion_merge :: "emotion_row \<Rightarrow> emotion_row \<Rightarrow> emotion_row" where
  "emotion_merge x r = x\<lparr>e_Wins := e_Wins x + e_Wins r, e_Losses := e_Losses x + e_Losses r\<rparr>"

definition emotion_fits :: "emotion_row \<Rightarrow> bool" where
  "emotion_fits r \<longleftrightarrow> int4_ok (e_Wins r) \<and> int4_ok (e_Losses r)"

definition upsert_emotion_row :: "pg_types \<Rightarrow> emotion_row \<Rightarrow> unit stmt" where
  "upsert_emotion_row T r s =
     (let old = tbl_lookup emotion_key (emotion_key r) (emotion_win_rates s);
          new = (case old of None \<Rightarrow> r | Some x \<Rightarrow> emotion_merge x r)
      in if \<not> (emotion_fits r \<and> emotion_fits new) then (Inl (pg_error T OutOfRange), s)
         else if old = None \<and> tbl_lookup u_UserID (e_UserID r) (users s) = None
         then (Inl (pg_error T ForeignKeyViolation), s)
         else (Inr (), s\<lparr>emotion_win_rates :=
                 tbl_upsert emotion_key emotion_merge r (emotion_win_rates s)\<rparr>))"

definition UpsertEmotionWinRate ::
  "pg_types \<Rightarrow> string \<Rightarrow> string \<Rightarrow> time \<Rightarrow> int \<Rightarrow> int \<Rightarrow> unit stmt" where
  "UpsertEmotionWinRate T userID emotionalState dateBucket wins losses =
     pg_send T (\<lambda>s. case pg_uuid T userID of
        None \<Rightarrow> (Inl (pg_error T InvalidInput), s)
      | Some u \<Rightarrow>
          if emotionalState \<notin> set emotion_enum then (Inl (pg_error T InvalidInput), s)
          else upsert_emotion_row T
                 \<lparr> e_UserID = u, e_EmotionalState = emotionalState, e_DateBucket = pg_date dateBucket,
                   e_Wins = wins, e_Losses = losses \<rparr> s)"

interpretation emotion_table: keyed_table emotion_key emotion_merge
  by unfold_locales (simp add: emotion_key_def emotion_merge_def)

definition InsertOvertradingEvent :: "pg_types \<Rightarrow> string \<Rightarrow> time \<Rightarrow> int \<Rightarrow> unit stmt" where
  "InsertOvertradingEvent T userID windowStart tradeCount =
     pg_send T (\<lambda>s. case (pg_uuid T userID, pg_timestamptz T windowStart) of
        (Some u, Some w) \<Rightarrow>
          if \<not> int4_ok tradeCount then (Inl (pg_error T InvalidInput), s)
          else if tbl_lookup u_UserID u (users s) = None then (Inl (pg_error T ForeignKeyViolation), s)
          else (Inr (), s\<lparr>overtrading_events := overtrading_events s @
                 [\<lparr>o_UserID = u, o_WindowStart = w, o_TradeCount = tradeCount, o_EmittedAt = db_now s\<rparr>]\<rparr>)
      | _ \<Rightarrow> (Inl (pg_error T InvalidInput), s))"

section \<open>Range queries\<close>

text \<open>\<open>AVG\<close> ignores nulls and is null over no values.\<close>

definition sql_avg :: "pg_types \<Rightarrow> rat option list \<Rightarrow> float64 option" where
  "sql_avg T xs =
     (let vs = map (opt_else 0) (filter (\<lambda>x. x \<noteq> None) xs)
      in if vs = [] then None else Some (pg_float8 T (pg_avg T vs)))"

definition bucket_group :: "pg_types \<Rightarrow> 'd decimal_ops \<Rightarrow> time \<Rightarrow> metrics_row list \<Rightarrow> 'd MetricsBucket" where
  "bucket_group T D b rows =
     \<lparr> mb_Bucket = b, mb_TradeCount = sum_list (map m_TradeCount rows),
       mb_WinCount = sum_list (map m_WinCount rows), mb_LossCount = sum_list (map m_LossCount rows),
       mb_PnL = dec_scan D (sum_list (map m_TotalPnl rows)),
       mb_AvgPlanAdherence = sql_avg T (map m_AvgPlanAdherence rows),
       mb_SessionTiltIndex = sql_avg T (map m_SessionTiltIndex rows),
       mb_RevengeCount = sum_list (map m_RevengeCount rows),
       mb_OvertradingEvents = sum_list (map m_OvertradingEvents rows) \<rparr>"

definition QueryRange ::
  "pg_types \<Rightarrow> 'd decimal_ops \<Rightarrow> string \<Rightarrow> time \<Rightarrow> time \<Rightarrow> string \<Rightarrow> 'd MetricsBucket list stmt" where
  "QueryRange T D userID fromT toT interval =
     pg_send T (\<lambda>s. case (pg_uuid T userID, pg_timestamptz T fromT, pg_timestamptz T toT) of
        (Some u, Some f, Some t) \<Rightarrow>
          (let rows = filter (\<lambda>r. m_UserID r = u \<and> f \<le> m_Bucket r \<and> m_Bucket r \<le> t) (behavioral_metrics s);
               bs = sort (remdups (map (\<lambda>r. pg_time_bucket T interval (m_Bucket r)) rows))
           in (Inr (map (\<lambda>b. bucket_group T D b
                     (filter (\<lambda>r. pg_time_bucket T interval (m_Bucket r) = b) rows)) bs), s))
      | _ \<Rightarrow> (Inl (pg_error T InvalidInput), s))"

text \<open>The scanned counts and the win rate the loop computes for each emotional state.\<close>

definition emotion_rate :: "string \<Rightarrow> emotion_row list \<Rightarrow> EmotionWinRate" where
  "emotion_rate e rows =
     (let wins = sum_list (map e_Wins rows); losses = sum_list (map e_Losses rows);
          total = wins + losses
      in \<lparr> er_EmotionalState = e, er_Wins = wins, er_Losses = losses,
           er_WinRate = (if 0 < total then f64_div (f64_of_int wins) (f64_of_int total) else Fin 0) \<rparr>)"

definition QueryEmotionWinRates ::
  "pg_types \<Rightarrow> string \<Rightarrow> time \<Rightarrow> time \<Rightarrow> EmotionWinRate list stmt" where
  "QueryEmotionWinRates T userID fromT toT =
     pg_send T (\<lambda>s. case pg_uuid T userID of
        None \<Rightarrow> (Inl (pg_error T InvalidInput), s)
      | Some u \<Rightarrow>
          (let rows = filter (\<lambda>r. e_UserID r = u \<and> pg_date fromT \<le> e_DateBucket r
                                  \<and> e_DateBucket r \<le> pg_date toT) (emotion_win_rates s)
           in (Inr (map (\<lambda>e. emotion_rate e (filter (\<lambda>r. e_EmotionalState r = e) rows))
                     (remdups (map e_EmotionalState rows))), s)))"

definition CountOvertradingEvents :: "pg_types \<Rightarrow> string \<Rightarrow> time \<Rightarrow> time \<Rightarrow> int stmt" where
  "CountOvertradingEvents T userID fromT toT =
     pg_send T (\<lambda>s. case (pg_uuid T userID, pg_timestamptz T fromT, pg_timestamptz T toT) of
        (Some u, Some f, Some t) \<Rightarrow>
          (Inr (int (length (filter (\<lambda>r. o_UserID r = u \<and> f \<le> o_EmittedAt r \<and> o_EmittedAt r \<le> t)
                 (overtrading_events s)))), s)
      | _ \<Rightarrow> (Inl (pg_error T InvalidInput), s))"

definition CountRevengeTrades :: "pg_types \<Rightarrow> string \<Rightarrow> time \<Rightarrow> time \<Rightarrow> int stmt" where
  "CountRevengeTrades T userID fromT toT =
     pg_send T (\<lambda>s. case (pg_uuid T userID, pg_timestamptz T fromT, pg_timestamptz T toT) of
        (Some u, Some f, Some t) \<Rightarrow>
          (Inr (int (length (filter (\<lambda>r. UserID r = u \<and> RevengeFlag r \<and> f \<le> EntryAt r \<and> EntryAt r \<le> t)
                 (trades s)))), s)
      | _ \<Rightarrow> (Inl (pg_error T InvalidInput), s))"

section \<open>The merge is a commutative accumulation\<close>

lemma metrics_merge_counts [simp]:
  "m_TradeCount (metrics_merge x r) = m_TradeCount x + m_TradeCount r"
  "m_WinCount (metrics_merge x r) = m_WinCount x + m_WinCount r"
  "m_LossCount (metrics_merge x r) = m_LossCount x + m_LossCount r"
  "m_TotalPnl (metrics_merge x r) = m_TotalPnl x + m_TotalPnl r"
  "m_RevengeCount (metrics_merge x r) = m_RevengeCount x + m_RevengeCount r"
  "m_OvertradingEvents (metrics_merge x r) = m_OvertradingEvents x + m_OvertradingEvents r"
  "m_Bucket (metrics_merge x r) = m_Bucket x" "m_UserID (metrics_merge x r) = m_UserID x"
  by (simp_all add: metrics_merge_def)

lemma metrics_merge_assoc: "metrics_merge (metrics_merge x r) q = metrics_merge x (metrics_merge r q)"
  by (simp add: metrics_merge_def coalesce_assoc)

text \<open>
  The bucket invariant: every decided trade is a win or a loss, counts are not negative, and
  primary keys are unique.
\<close>

definition metrics_row_ok :: "metrics_row \<Rightarrow> bool" where
  "metrics_row_ok r \<longleftrightarrow> m_TradeCount r = m_WinCount r + m_LossCount r \<and> 0 \<le> m_WinCount r
     \<and> 0 \<le> m_LossCount r \<and> 0 \<le> m_RevengeCount r \<and> m_RevengeCount r \<le> m_TradeCount r
     \<and> m_OvertradingEvents r = 0"

definition metrics_ok :: "db \<Rightarrow> bool" where
  "metrics_ok s \<longleftrightarrow> distinct (map metrics_key (behavioral_metrics s))
     \<and> (\<forall>r \<in> set (behavioral_metrics s). metrics_row_ok r)"

lemma metrics_row_ok_merge: "metrics_row_ok x \<Longrightarrow> metrics_row_ok r \<Longrightarrow> metrics_row_ok (metrics_merge x r)"
  by (simp add: metrics_row_ok_def)

lemma set_tbl_upsert: "set (tbl_upsert key merge r rows) \<subseteq> insert r (set rows \<union> (\<lambda>x. merge x r) ` set rows)"
  by (auto simp: tbl_upsert_def split: option.splits if_splits)

lemma metrics_ok_upsert:
  assumes "metrics_ok s" "\<And>r. row = Some r \<Longrightarrow> metrics_row_ok r"
  shows "metrics_ok (snd (upsert_bucket_row T row s))"
proof (cases row)
  case (Some r)
  then have "metrics_row_ok r" using assms(2) by simp
  then have "\<forall>x \<in> set (tbl_upsert metrics_key metrics_merge r (behavioral_metrics s)). metrics_row_ok x"
    using assms(1) set_tbl_upsert [of metrics_key metrics_merge r "behavioral_metrics s"]
    by (auto simp: metrics_ok_def metrics_row_ok_merge)
  then show ?thesis
    using assms(1) Some
    by (simp add: upsert_bucket_row_def Let_def metrics_ok_def metrics_table.distinct_upsert)
qed (use assms in \<open>simp add: upsert_bucket_row_def\<close>)

lemma metrics_ok_deliveries [simp]: "metrics_ok (s\<lparr>db_deliveries := ds\<rparr>) = metrics_ok s"
  by (simp add: metrics_ok_def)

lemma UpsertBucket_metrics_ok:
  assumes "metrics_ok s" "tc = wc + lc" "0 \<le> wc" "0 \<le> lc" "0 \<le> rc" "rc \<le> tc"
  shows "metrics_ok (snd (UpsertBucket T D uid b tc wc lc p a t rc 0 s))"
  unfolding UpsertBucket_def
proof (rule pg_send_preserves [where P = metrics_ok])
  fix s' assume "metrics_ok s'"
  then show "metrics_ok (snd (upsert_bucket_row T (metrics_to_row T D uid b tc wc lc p a t rc 0) s'))"
    using assms by (intro metrics_ok_upsert)
      (auto simp: metrics_to_row_def metrics_row_ok_def bind_eq_Some_conv)
qed (use assms in simp_all)


text \<open>The stored rows also fit their columns.\<close>

definition metrics_inv :: "pg_types \<Rightarrow> db \<Rightarrow> bool" where
  "metrics_inv T s \<longleftrightarrow> metrics_ok s \<and> (\<forall>r \<in> set (behavioral_metrics s). metrics_fits T r)"

lemma metrics_inv_deliveries [simp]: "metrics_inv T (s\<lparr>db_deliveries := ds\<rparr>) = metrics_inv T s"
  by (simp add: metrics_inv_def)

lemma metrics_inv_cong: "behavioral_metrics s' = behavioral_metrics s \<Longrightarrow> metrics_inv T s' = metrics_inv T s"
  by (simp add: metrics_inv_def metrics_ok_def)

lemma fits_upsert:
  assumes "distinct (map metrics_key rows)" "\<forall>x \<in> set rows. metrics_fits T x"
    and "metrics_fits T (case tbl_lookup metrics_key (metrics_key r) rows of None \<Rightarrow> r | Some x \<Rightarrow> metrics_merge x r)"
  shows "\<forall>x \<in> set (tbl_upsert metrics_key metrics_merge r rows). metrics_fits T x"
proof (cases "tbl_lookup metrics_key (metrics_key r) rows")
  case None
  with assms show ?thesis by (auto simp: tbl_upsert_def)
next
  case (Some x)
  have "x = y" if "y \<in> set rows" "metrics_key y = metrics_key r" for y
    using tbl_lookup_in [OF assms(1) that(1)] Some that by simp
  with Some assms show ?thesis by (auto simp: tbl_upsert_def)
qed

lemma metrics_inv_upsert:
  assumes inv: "metrics_inv T s" and ok: "\<And>r. row = Some r \<Longrightarrow> metrics_row_ok r"
  shows "metrics_inv T (snd (upsert_bucket_row T row s))"
proof -
  have "metrics_ok (snd (upsert_bucket_row T row s))"
    using inv ok by (intro metrics_ok_upsert) (simp_all add: metrics_inv_def)
  moreover have "\<forall>x \<in> set (behavioral_metrics (snd (upsert_bucket_row T row s))). metrics_fits T x"
  proof (cases row)
    case (Some r)
    let ?new = "case tbl_lookup metrics_key (metrics_key r) (behavioral_metrics s) of
        None \<Rightarrow> r | Some x \<Rightarrow> metrics_merge x r"
    show ?thesis
    proof (cases "metrics_fits T r \<and> metrics_fits T ?new")
      case True
      then have "\<forall>x \<in> set (tbl_upsert metrics_key metrics_merge r (behavioral_metrics s)). metrics_fits T x"
        by (intro fits_upsert) (use inv in \<open>simp_all add: metrics_inv_def metrics_ok_def\<close>)
      with True Some show ?thesis by (simp only: upsert_bucket_row_def Let_def option.case if_True snd_conv) simp
    next
      case False
      with inv Some show ?thesis
        by (simp only: upsert_bucket_row_def Let_def option.case if_False snd_conv metrics_inv_def) simp
    qed
  qed (use inv in \<open>simp add: upsert_bucket_row_def metrics_inv_def\<close>)
  ultimately show ?thesis by (simp add: metrics_inv_def)
qed

lemma UpsertBucket_metrics_inv:
  assumes "metrics_inv T s" "tc = wc + lc" "0 \<le> wc" "0 \<le> lc" "0 \<le> rc" "rc \<le> tc"
  shows "metrics_inv T (snd (UpsertBucket T D uid b tc wc lc p a t rc 0 s))"
  unfolding UpsertBucket_def
proof (rule pg_send_preserves [where P = "metrics_inv T"])
  fix s' assume "metrics_inv T s'"
  then show "metrics_inv T (snd (upsert_bucket_row T (metrics_to_row T D uid b tc wc lc p a t rc 0) s'))"
    using assms by (intro metrics_inv_upsert)
      (auto simp: metrics_to_row_def metrics_row_ok_def bind_eq_Some_conv)
qed (use assms in simp_all)

section \<open>Sums over a bucket\<close>

text \<open>A column of the bucket with a key, zero when there is no row; and that of a single row.\<close>

definition bucket_sum :: "(metrics_row \<Rightarrow> 'n::zero) \<Rightarrow> db \<Rightarrow> time \<times> string \<Rightarrow> 'n" where
  "bucket_sum f s k = (case tbl_lookup metrics_key k (behavioral_metrics s) of None \<Rightarrow> 0 | Some r \<Rightarrow> f r)"

definition row_sum :: "(metrics_row \<Rightarrow> 'n::zero) \<Rightarrow> metrics_row option \<Rightarrow> time \<times> string \<Rightarrow> 'n" where
  "row_sum f row k = (case row of None \<Rightarrow> 0 | Some r \<Rightarrow> if metrics_key r = k then f r else 0)"

lemma bucket_sum_deliveries [simp]: "bucket_sum f (s\<lparr>db_deliveries := ds\<rparr>) k = bucket_sum f s k"
  by (simp add: bucket_sum_def)

text \<open>An upsert that is not refused adds the row's column to its bucket.\<close>

lemma upsert_bucket_row_sum:
  fixes f :: "metrics_row \<Rightarrow> 'n::comm_monoid_add"
  assumes add: "\<And>x r. f (metrics_merge x r) = f x + f r"
    and acc: "fst (upsert_bucket_row T (Some r) s) = Inr ()"
  shows "bucket_sum f (snd (upsert_bucket_row T (Some r) s)) k = bucket_sum f s k + row_sum f (Some r) k"
proof (cases "metrics_key r = k")
  case True
  with acc show ?thesis
    by (auto simp: upsert_bucket_row_def Let_def bucket_sum_def row_sum_def add
        metrics_table.lookup_upsert_same split: if_splits option.splits)
next
  case False
  with acc show ?thesis
    by (auto simp: upsert_bucket_row_def Let_def bucket_sum_def row_sum_def
        metrics_table.lookup_upsert_other split: if_splits)
qed

text \<open>It is not refused while the columns have room.\<close>

lemma metrics_fits_by_room:
  assumes "metrics_row_ok r" "m_TradeCount r < 2 ^ 31" "pg_numeric18_8 T (m_TotalPnl r) = Some (m_TotalPnl r)"
  shows "metrics_fits T r"
  using assms by (auto simp: metrics_fits_def metrics_row_ok_def int4_ok_def)

lemma lookup_metrics_inv:
  "metrics_inv T s \<Longrightarrow> tbl_lookup metrics_key k (behavioral_metrics s) = Some x
   \<Longrightarrow> metrics_row_ok x \<and> metrics_fits T x"
  by (auto simp: metrics_inv_def metrics_ok_def dest: tbl_lookup_Some)

context postgres
begin

lemma numeric_sum:
  assumes "pg_numeric18_8 T a = Some a" "pg_numeric18_8 T b = Some b" "\<bar>a + b\<bar> < 10 ^ 10"
  shows "pg_numeric18_8 T (a + b) = Some (a + b)"
  using assms numeric_stored [of a a] numeric_stored [of b b] by (intro numeric_exact scale8_add) auto

lemma upsert_bucket_row_done:
  assumes inv: "metrics_inv T s" and r: "metrics_row_ok r" "pg_numeric18_8 T (m_TotalPnl r) = Some (m_TotalPnl r)"
    and room: "bucket_sum m_TradeCount s (metrics_key r) + m_TradeCount r < 2 ^ 31"
      "\<bar>bucket_sum m_TotalPnl s (metrics_key r) + m_TotalPnl r\<bar> < 10 ^ 10"
  shows "fst (upsert_bucket_row T (Some r) s) = Inr ()"
proof (cases "tbl_lookup metrics_key (metrics_key r) (behavioral_metrics s)")
  case None
  with r room show ?thesis
    by (simp add: upsert_bucket_row_def bucket_sum_def metrics_fits_by_room)
next
  case (Some x)
  from lookup_metrics_inv [OF inv Some] have x: "metrics_row_ok x" "metrics_fits T x" by auto
  have "0 \<le> m_TradeCount x" using x(1) by (simp add: metrics_row_ok_def)
  then have "metrics_fits T r" using r room Some by (intro metrics_fits_by_room) (simp_all add: bucket_sum_def)
  moreover have "metrics_fits T (metrics_merge x r)"
    using x r room Some
    by (intro metrics_fits_by_room metrics_row_ok_merge) (simp_all add: bucket_sum_def metrics_fits_def numeric_sum)
  ultimately show ?thesis using Some by (simp add: upsert_bucket_row_def)
qed

text \<open>A row of zeros changes no sum, refused or not.\<close>

lemma upsert_zero_row_sum:
  fixes f :: "metrics_row \<Rightarrow> 'n::comm_monoid_add"
  assumes add: "\<And>x r. f (metrics_merge x r) = f x + f r" and z: "f r = 0"
  shows "bucket_sum f (snd (upsert_bucket_row T (Some r) s)) k = bucket_sum f s k"
proof (cases "fst (upsert_bucket_row T (Some r) s) = Inr ()")
  case True
  then show ?thesis by (simp add: upsert_bucket_row_sum [OF add True] row_sum_def z)
next
  case False
  then have "snd (upsert_bucket_row T (Some r) s) = s"
    by (auto simp: upsert_bucket_row_def Let_def split: if_splits)
  then show ?thesis by simp
qed

text \<open>With room in the bucket \<open>k\<close>, its sum moves exactly by what the row holds for it.\<close>

lemma upsert_bucket_sum_at:
  fixes f :: "metrics_row \<Rightarrow> 'n::comm_monoid_add"
  assumes inv: "metrics_inv T s" and add: "\<And>x r. f (metrics_merge x r) = f x + f r"
    and r: "\<And>r. row = Some r \<Longrightarrow> metrics_row_ok r \<and> pg_numeric18_8 T (m_TotalPnl r) = Some (m_TotalPnl r)"
    and room: "bucket_sum m_TradeCount s k + row_sum m_TradeCount row k < 2 ^ 31"
      "\<bar>bucket_sum m_TotalPnl s k + row_sum m_TotalPnl row k\<bar> < 10 ^ 10"
  shows "bucket_sum f (snd (upsert_bucket_row T row s)) k = bucket_sum f s k + row_sum f row k"
proof (cases row)
  case None
  then show ?thesis by (simp add: upsert_bucket_row_def row_sum_def)
next
  case (Some q)
  show ?thesis
  proof (cases "fst (upsert_bucket_row T (Some q) s) = Inr ()")
    case True
    then show ?thesis unfolding Some by (rule upsert_bucket_row_sum [OF add])
  next
    case False
    with upsert_bucket_row_done [OF inv, of q] r [OF Some] room Some have "metrics_key q \<noteq> k"
      by (auto simp: row_sum_def)
    moreover have "snd (upsert_bucket_row T (Some q) s) = s"
      using False by (auto simp: upsert_bucket_row_def Let_def split: if_splits)
    ultimately show ?thesis by (simp add: Some row_sum_def)
  qed
qed

end

section \<open>The store over a database and a decimal type\<close>

locale backend = postgres T + decimal D for T :: pg_types and D :: "'d decimal_ops"
begin

lemma numeric_zero: "pg_numeric18_8 T 0 = Some 0"
  by (rule numeric_exact) simp_all

text \<open>The averages and tilts are written as rows of zero counts.\<close>

lemma UpsertBucket_zero_sum:
  fixes f :: "metrics_row \<Rightarrow> 'n::comm_monoid_add"
  assumes up: "db_deliveries s = []" and add: "\<And>x r. f (metrics_merge x r) = f x + f r"
    and z: "\<And>r. \<lbrakk>m_TradeCount r = 0; m_WinCount r = 0; m_LossCount r = 0; m_RevengeCount r = 0; m_TotalPnl r = 0\<rbrakk> \<Longrightarrow> f r = 0"
  shows "bucket_sum f (snd (UpsertBucket T D u b 0 0 0 (dec_zero D) a x 0 0 s)) k = bucket_sum f s k"
proof (cases "metrics_to_row T D u b 0 0 0 (dec_zero D) a x 0 0")
  case None
  then show ?thesis using up by (simp add: UpsertBucket_def upsert_bucket_row_def)
next
  case (Some r)
  then have "f r = 0"
    by (intro z) (auto simp: metrics_to_row_def bind_eq_Some_conv value_zero numeric_zero)
  then show ?thesis using up by (simp add: UpsertBucket_def Some upsert_zero_row_sum [OF add])
qed

text \<open>Merged into a stored row, a row of zeros is accepted and sets the score it carries.\<close>

lemma UpsertBucket_zero_lookup:
  assumes up: "db_deliveries s = []" and inv: "metrics_inv T s"
    and old: "tbl_lookup metrics_key k (behavioral_metrics s) = Some x"
    and row: "metrics_to_row T D u b 0 0 0 (dec_zero D) a t 0 0 = Some q" and k: "metrics_key q = k"
  shows "tbl_lookup metrics_key k (behavioral_metrics (snd (UpsertBucket T D u b 0 0 0 (dec_zero D) a t 0 0 s)))
    = Some (metrics_merge x q)"
proof -
  have z: "m_TradeCount q = 0" "m_WinCount q = 0" "m_LossCount q = 0" "m_RevengeCount q = 0"
    "m_OvertradingEvents q = 0" "m_TotalPnl q = 0"
    using row by (auto simp: metrics_to_row_def bind_eq_Some_conv value_zero numeric_zero)
  have "metrics_fits T q" by (simp add: metrics_fits_def z int4_ok_def numeric_zero)
  moreover have "metrics_fits T (metrics_merge x q)"
    using lookup_metrics_inv [OF inv old] by (simp add: metrics_fits_def z)
  ultimately show ?thesis
    using up old k metrics_table.lookup_upsert_same [of q "behavioral_metrics s"]
    by (simp add: UpsertBucket_def row upsert_bucket_row_def)
qed

end

interpretation ref_backend: backend ref_pg ref_decimal
  by unfold_locales

end
