(* ===== verification/Redis.thy ===== *)
theory Redis
  imports Domain
begin

text \<open>
  The interface to the Redis server: the commands the program sends are the fields of a record
  over the server's state, the documented behaviour of the commands that succeed is stated in
  three locales (keys with expiry, sorted sets, streams with a consumer group), and an in-memory
  server with a fault script shows that they can hold. An error value is the client's message; a
  missing key (\<open>redis.Nil\<close>) is \<open>None\<close>.
\<close>

section \<open>Commands\<close>

text \<open>The Go values that are put into a stream entry.\<close>

datatype goval = GStr string | GInt int | GBool bool

type_synonym entry = "string \<times> string strmap"  \<comment> \<open>entry ID and values\<close>

type_synonym ('r, 'a) rcmd = "'r \<Rightarrow> (string + 'a) \<times> 'r"

record 'r redis_ops =
  rd_get :: "string \<Rightarrow> ('r, string option) rcmd"
  rd_set :: "string \<Rightarrow> string \<Rightarrow> duration \<Rightarrow> ('r, unit) rcmd"
  rd_del :: "string \<Rightarrow> ('r, unit) rcmd"
  rd_scan :: "string \<Rightarrow> int \<Rightarrow> 'r \<Rightarrow> (string list \<times> string option) \<times> 'r"
  rd_zaddnx :: "string \<Rightarrow> float64 \<Rightarrow> string \<Rightarrow> ('r, unit) rcmd"
  rd_zremrangebyscore :: "string \<Rightarrow> string \<Rightarrow> string \<Rightarrow> ('r, unit) rcmd"
  rd_zcount :: "string \<Rightarrow> string \<Rightarrow> string \<Rightarrow> ('r, int) rcmd"
  rd_xadd :: "string \<Rightarrow> goval strmap \<Rightarrow> ('r, string) rcmd"
  rd_xgroup_create_mkstream :: "string \<Rightarrow> string \<Rightarrow> string \<Rightarrow> ('r, unit) rcmd"
  rd_xreadgroup :: "string \<Rightarrow> string \<Rightarrow> string \<Rightarrow> int \<Rightarrow> duration \<Rightarrow> ('r, (string \<times> entry list) list) rcmd"
  rd_xack :: "string \<Rightarrow> string \<Rightarrow> string list \<Rightarrow> ('r, unit) rcmd"
  rd_xinfo_stream :: "string \<Rightarrow> ('r, string) rcmd"  \<comment> \<open>the ID of the last entry\<close>

text \<open>How the client writes a value into a command: integers in decimal, booleans as 1 and 0.\<close>

fun arg_string :: "goval \<Rightarrow> string" where
  "arg_string (GStr s) = s"
| "arg_string (GInt n) = itoa n"
| "arg_string (GBool b) = (if b then ''1'' else ''0'')"

section \<open>Keys with expiry\<close>

text \<open>A key holds a value and the server time at which it expires.\<close>

definition live_value :: "('r \<Rightarrow> string \<Rightarrow> (string \<times> time) option) \<Rightarrow> ('r \<Rightarrow> time) \<Rightarrow> 'r \<Rightarrow> string \<Rightarrow> string option" where
  "live_value kv clock s k = (case kv s k of None \<Rightarrow> None | Some (v, d) \<Rightarrow> if clock s < d then Some v else None)"

text \<open>A \<open>MATCH\<close> pattern that is a literal prefix and a star.\<close>

definition plain_glob :: "string \<Rightarrow> bool" where
  "plain_glob p \<longleftrightarrow> list_all (\<lambda>c. c \<notin> {CHR ''*'', CHR ''?'', CHR ''['', CHR 0x5C}) p"

locale redis_keys =
  fixes R :: "'r redis_ops"
    and kv :: "'r \<Rightarrow> string \<Rightarrow> (string \<times> time) option"
    and clock :: "'r \<Rightarrow> time"
  assumes get_ok: "rd_get R k s = (Inr v, s') \<Longrightarrow> v = live_value kv clock s k \<and> kv s' = kv s \<and> clock s' = clock s"
    and get_err: "rd_get R k s = (Inl e, s') \<Longrightarrow> kv s' = kv s \<and> clock s' = clock s"
    and set_ok: "rd_set R k x ttl s = (Inr u, s') \<Longrightarrow> kv s' = (kv s)(k \<mapsto> (x, clock s + ttl)) \<and> clock s' = clock s"
    and set_err: "rd_set R k x ttl s = (Inl e, s') \<Longrightarrow> (kv s' = kv s \<or> kv s' = (kv s)(k \<mapsto> (x, clock s + ttl))) \<and> clock s' = clock s"
    and del_ok: "rd_del R k s = (Inr u, s') \<Longrightarrow> kv s' = (kv s)(k := None) \<and> clock s' = clock s"
    and del_err: "rd_del R k s = (Inl e, s') \<Longrightarrow> (kv s' = kv s \<or> kv s' = (kv s)(k := None)) \<and> clock s' = clock s"
    and scan_ok: "rd_scan R (p @ ''*'') n s = ((ks, None), s') \<Longrightarrow> plain_glob p \<Longrightarrow>
      {k. live_value kv clock s k \<noteq> None \<and> has_prefix p k} \<subseteq> set ks \<and> list_all (has_prefix p) ks"
    and scan_frame: "rd_scan R p n s = (r, s') \<Longrightarrow> kv s' = kv s \<and> clock s' = clock s"
begin

abbreviation live :: "'r \<Rightarrow> string \<Rightarrow> string option" where "live \<equiv> live_value kv clock"

lemma live_set:
  assumes "rd_set R k x ttl s = (Inr u, s')" "0 < ttl"
  shows "live s' k = Some x"
  using set_ok [OF assms(1)] assms(2) by (simp add: live_value_def)

lemma live_after_set:
  assumes "rd_set R k x ttl s = (Inr u, s')" "kv s2 = kv s'"
  shows "live s2 k = (if clock s2 < clock s + ttl then Some x else None)"
  using set_ok [OF assms(1)] assms(2) by (simp add: live_value_def)

end

section \<open>Sorted sets\<close>

locale redis_zset =
  fixes R :: "'r redis_ops"
    and zs :: "'r \<Rightarrow> string \<Rightarrow> string \<Rightarrow> rat option"
  assumes zaddnx_ok: "rd_zaddnx R k (Fin x) m s = (Inr u, s') \<Longrightarrow>
      zs s' = (zs s)(k := (if zs s k m = None then (zs s k)(m \<mapsto> x) else zs s k))"
    and zrem_ok: "rd_zremrangebyscore R k (itoa lo) (itoa hi) s = (Inr u, s') \<Longrightarrow>
      \<bar>lo\<bar> \<le> 2 ^ 53 \<Longrightarrow> \<bar>hi\<bar> \<le> 2 ^ 53 \<Longrightarrow>
      zs s' = (zs s)(k := (\<lambda>m. if ptr_and (zs s k m) (\<lambda>x. of_int lo \<le> x \<and> x \<le> of_int hi) then None else zs s k m))"
    and zcount_ok: "rd_zcount R k (itoa lo) ''+inf'' s = (Inr n, s') \<Longrightarrow> \<bar>lo\<bar> \<le> 2 ^ 53 \<Longrightarrow>
      n = int (card {m. ptr_and (zs s k m) (\<lambda>x. of_int lo \<le> x)}) \<and> zs s' = zs s"
    and zset_finite: "finite (dom (zs s k))"

section \<open>Streams with a consumer group\<close>

text \<open>
  A stream is its entries in order; a group is the number of entries it has delivered and the
  IDs delivered but not acknowledged.
\<close>

locale redis_stream =
  fixes R :: "'r redis_ops"
    and entries :: "'r \<Rightarrow> string \<Rightarrow> entry list"
    and delivered :: "'r \<Rightarrow> string \<Rightarrow> string \<Rightarrow> nat"
    and pending :: "'r \<Rightarrow> string \<Rightarrow> string \<Rightarrow> string set"
  assumes xadd_ok: "rd_xadd R st vs s = (Inr i, s') \<Longrightarrow>
      entries s' = (entries s)(st := entries s st @ [(i, \<lambda>k. map_option arg_string (vs k))])
      \<and> i \<notin> fst ` set (entries s st) \<and> delivered s' = delivered s \<and> pending s' = pending s"
    and xread_ok: "rd_xreadgroup R g c st n b s = (Inr sts, s') \<Longrightarrow> 0 < n \<Longrightarrow>
      entries s' = entries s
      \<and> concat (map snd sts) = take (nat n) (drop (delivered s st g) (entries s st))
      \<and> delivered s' st g = delivered s st g + length (concat (map snd sts))
      \<and> pending s' st g = pending s st g \<union> fst ` set (concat (map snd sts))"
    and xread_err: "rd_xreadgroup R g c st n b s = (Inl e, s') \<Longrightarrow> entries s' = entries s"
    and xack_ok: "rd_xack R st g is s = (Inr u, s') \<Longrightarrow>
      entries s' = entries s \<and> delivered s' = delivered s \<and> pending s' st g = pending s st g - set is"
    and xack_err: "rd_xack R st g is s = (Inl e, s') \<Longrightarrow>
      entries s' = entries s \<and> delivered s' = delivered s
      \<and> (pending s' st g = pending s st g \<or> pending s' st g = pending s st g - set is)"
    and zaddnx_streams: "entries (snd (rd_zaddnx R k x m s)) = entries s
      \<and> delivered (snd (rd_zaddnx R k x m s)) = delivered s \<and> pending (snd (rd_zaddnx R k x m s)) = pending s"
    and zrem_streams: "entries (snd (rd_zremrangebyscore R k lo hi s)) = entries s
      \<and> delivered (snd (rd_zremrangebyscore R k lo hi s)) = delivered s
      \<and> pending (snd (rd_zremrangebyscore R k lo hi s)) = pending s"
    and zcount_streams: "entries (snd (rd_zcount R k lo hi s)) = entries s
      \<and> delivered (snd (rd_zcount R k lo hi s)) = delivered s \<and> pending (snd (rd_zcount R k lo hi s)) = pending s"

section \<open>An in-memory server\<close>

record mem_redis =
  mr_clock :: time
  mr_kv :: "(string \<times> (string \<times> time)) list"
  mr_zset :: "string \<Rightarrow> (string \<times> rat) list"
  mr_entries :: "string \<Rightarrow> entry list"
  mr_delivered :: "string \<Rightarrow> string \<Rightarrow> nat"
  mr_pending :: "string \<Rightarrow> string \<Rightarrow> string list"
  mr_groups :: "(string \<times> string) list"
  mr_up :: "bool list"  \<comment> \<open>whether each next command reaches the server\<close>

definition mr_send :: "(mem_redis, 'a) rcmd \<Rightarrow> (mem_redis, 'a) rcmd" where
  "mr_send f s =
     (case mr_up s of [] \<Rightarrow> f s
      | b # bs \<Rightarrow> if b then f (s\<lparr>mr_up := bs\<rparr>) else (Inl ''connection refused'', s\<lparr>mr_up := bs\<rparr>))"

definition mem_kv :: "mem_redis \<Rightarrow> string \<Rightarrow> (string \<times> time) option" where "mem_kv s = map_of (mr_kv s)"
definition mem_zs :: "mem_redis \<Rightarrow> string \<Rightarrow> string \<Rightarrow> rat option" where "mem_zs s k = map_of (mr_zset s k)"

text \<open>The score bounds the program writes: a decimal integer, or an infinite upper bound.\<close>

definition score_ge :: "string \<Rightarrow> rat \<Rightarrow> bool" where "score_ge b x \<longleftrightarrow> of_int (fst (parse_int64 b)) \<le> x"
definition score_le :: "string \<Rightarrow> rat \<Rightarrow> bool" where
  "score_le b x \<longleftrightarrow> b = ''+inf'' \<or> x \<le> of_int (fst (parse_int64 b))"

definition mem_zadd :: "string \<Rightarrow> rat \<Rightarrow> string \<Rightarrow> mem_redis \<Rightarrow> mem_redis" where
  "mem_zadd k x m s =
     (if map_of (mr_zset s k) m = None then s\<lparr>mr_zset := (mr_zset s)(k := (m, x) # mr_zset s k)\<rparr> else s)"

definition mem_zrem :: "string \<Rightarrow> string \<Rightarrow> string \<Rightarrow> mem_redis \<Rightarrow> mem_redis" where
  "mem_zrem k lo hi s =
     s\<lparr>mr_zset := (mr_zset s)(k := filter
        (\<lambda>p. \<not> ptr_and (map_of (mr_zset s k) (fst p)) (\<lambda>x. score_ge lo x \<and> score_le hi x)) (mr_zset s k))\<rparr>"

definition mem_zcount :: "string \<Rightarrow> string \<Rightarrow> string \<Rightarrow> mem_redis \<Rightarrow> int" where
  "mem_zcount k lo hi s =
     int (length (filter (\<lambda>m. ptr_and (map_of (mr_zset s k) m) (\<lambda>x. score_ge lo x \<and> score_le hi x))
            (remdups (map fst (mr_zset s k)))))"

definition mem_scan :: "string \<Rightarrow> mem_redis \<Rightarrow> string list" where
  "mem_scan pat s =
     filter (\<lambda>k. live_value mem_kv mr_clock s k \<noteq> None \<and> has_prefix (butlast pat) k)
       (remdups (map fst (mr_kv s)))"

text \<open>The number before the dash of an entry ID; a new entry gets a larger one.\<close>

definition id_number :: "string \<Rightarrow> nat" where "id_number i = digits_val (takeWhile is_digit i)"

definition mem_xadd :: "string \<Rightarrow> goval strmap \<Rightarrow> mem_redis \<Rightarrow> string \<times> mem_redis" where
  "mem_xadd st vs s =
     (let i = utoa (Suc (sum_list (map (id_number \<circ> fst) (mr_entries s st)))) @ ''-0''
      in (i, s\<lparr>mr_entries := (mr_entries s)(st := mr_entries s st @ [(i, \<lambda>k. map_option arg_string (vs k))])\<rparr>))"

definition mem_xread :: "string \<Rightarrow> string \<Rightarrow> int \<Rightarrow> mem_redis \<Rightarrow> entry list \<times> mem_redis" where
  "mem_xread g st n s =
     (let es = take (nat n) (drop (mr_delivered s st g) (mr_entries s st))
      in (es, s\<lparr> mr_delivered := (mr_delivered s)(st := (mr_delivered s st)(g := mr_delivered s st g + length es)),
                 mr_pending := (mr_pending s)(st := (mr_pending s st)(g := mr_pending s st g @ map fst es)) \<rparr>))"

definition mem_xack :: "string \<Rightarrow> string \<Rightarrow> string list \<Rightarrow> mem_redis \<Rightarrow> mem_redis" where
  "mem_xack st g is s =
     s\<lparr>mr_pending := (mr_pending s)(st := (mr_pending s st)(g := filter (\<lambda>i. i \<notin> set is) (mr_pending s st g)))\<rparr>"

definition mem_ops :: "mem_redis redis_ops" where
  "mem_ops =
     \<lparr> rd_get = (\<lambda>k. mr_send (\<lambda>s. (Inr (live_value mem_kv mr_clock s k), s))),
       rd_set = (\<lambda>k v ttl. mr_send (\<lambda>s. (Inr (), s\<lparr>mr_kv := (k, (v, mr_clock s + ttl)) # mr_kv s\<rparr>))),
       rd_del = (\<lambda>k. mr_send (\<lambda>s. (Inr (), s\<lparr>mr_kv := filter (\<lambda>p. fst p \<noteq> k) (mr_kv s)\<rparr>))),
       rd_scan = (\<lambda>p n s. ((mem_scan p s, None), s)),
       rd_zaddnx = (\<lambda>k x m. mr_send (\<lambda>s. case x of Fin r \<Rightarrow> (Inr (), mem_zadd k r m s)
                                              | _ \<Rightarrow> (Inl ''not a valid float'', s))),
       rd_zremrangebyscore = (\<lambda>k lo hi. mr_send (\<lambda>s. (Inr (), mem_zrem k lo hi s))),
       rd_zcount = (\<lambda>k lo hi. mr_send (\<lambda>s. (Inr (mem_zcount k lo hi s), s))),
       rd_xadd = (\<lambda>st vs. mr_send (\<lambda>s. let (i, s') = mem_xadd st vs s in (Inr i, s'))),
       rd_xgroup_create_mkstream = (\<lambda>st g i. mr_send (\<lambda>s.
         if (st, g) \<in> set (mr_groups s) then (Inl ''BUSYGROUP Consumer Group name already exists'', s)
         else (Inr (), s\<lparr>mr_groups := (st, g) # mr_groups s\<rparr>))),
       rd_xreadgroup = (\<lambda>g c st n b. mr_send (\<lambda>s. let (es, s') = mem_xread g st n s in (Inr [(st, es)], s'))),
       rd_xack = (\<lambda>st g is. mr_send (\<lambda>s. (Inr (), mem_xack st g is s))),
       rd_xinfo_stream = (\<lambda>st. mr_send (\<lambda>s. (Inr (if mr_entries s st = [] then '''' else fst (last (mr_entries s st))), s))) \<rparr>"

definition mem_init :: "time \<Rightarrow> mem_redis" where
  "mem_init t = \<lparr>mr_clock = t, mr_kv = [], mr_zset = (\<lambda>_. []), mr_entries = (\<lambda>_. []),
     mr_delivered = (\<lambda>_ _. 0), mr_pending = (\<lambda>_ _. []),
     mr_groups = [], mr_up = []\<rparr>"

lemma mr_send_cases:
  obtains (up) bs where "mr_send f s = f (s\<lparr>mr_up := bs\<rparr>)"
  | (down) bs where "mr_send f s = (Inl ''connection refused'', s\<lparr>mr_up := bs\<rparr>)"
proof (cases "mr_up s")
  case Nil
  then have "s\<lparr>mr_up := []\<rparr> = s" by (cases s) simp
  with Nil up [of "[]"] show thesis by (simp add: mr_send_def)
next
  case (Cons b bs)
  with up [of bs] down [of bs] show thesis by (cases b) (simp_all add: mr_send_def)
qed

text \<open>A command that fails in this server has not been executed.\<close>

lemma mr_send_Inr: "mr_send f s = (Inr x, s') \<Longrightarrow> \<exists>bs. f (s\<lparr>mr_up := bs\<rparr>) = (Inr x, s')"
  by (rule mr_send_cases [of f s]) auto

lemma mr_send_Inl:
  "mr_send f s = (Inl e, s') \<Longrightarrow> (\<And>s. \<exists>x s'. f s = (Inr x, s')) \<Longrightarrow> \<exists>bs. s' = s\<lparr>mr_up := bs\<rparr>"
  by (rule mr_send_cases [of f s]) (auto, metis Inl_Inr_False fst_conv)

lemma mr_send_keeps:
  "(\<And>s. V (snd (f s)) = V s) \<Longrightarrow> (\<And>bs. V (s\<lparr>mr_up := bs\<rparr>) = V s) \<Longrightarrow> V (snd (mr_send f s)) = V s"
  by (rule mr_send_cases [of f s]) simp_all

lemma live_value_up [simp]: "live_value mem_kv mr_clock (s\<lparr>mr_up := bs\<rparr>) k = live_value mem_kv mr_clock s k"
  by (simp add: live_value_def mem_kv_def split: option.splits)

lemma mem_kv_up [simp]: "mem_kv (s\<lparr>mr_up := bs\<rparr>) = mem_kv s" by (simp add: mem_kv_def)

lemma mem_zs_up [simp]: "mem_zs (s\<lparr>mr_up := bs\<rparr>) = mem_zs s" by (simp add: mem_zs_def fun_eq_iff)

lemma map_of_filter_neq: "map_of (filter (\<lambda>p. fst p \<noteq> k) xs) = (map_of xs)(k := None)"
  by (induction xs) (auto simp: fun_eq_iff)

lemma has_prefix_butlast_star: "has_prefix (butlast (p @ ''*'')) k = has_prefix p k"
  by simp

interpretation mem: redis_keys mem_ops mem_kv mr_clock
proof
  show "v = live_value mem_kv mr_clock s k \<and> mem_kv s' = mem_kv s \<and> mr_clock s' = mr_clock s"
    if "rd_get mem_ops k s = (Inr v, s')" for k s v s'
    using that by (auto simp: mem_ops_def dest!: mr_send_Inr)
  show "mem_kv s' = mem_kv s \<and> mr_clock s' = mr_clock s"
    if "rd_get mem_ops k s = (Inl e, s')" for k s e s'
    using that by (auto simp: mem_ops_def dest!: mr_send_Inl)
  show "mem_kv s' = (mem_kv s)(k \<mapsto> (x, mr_clock s + ttl)) \<and> mr_clock s' = mr_clock s"
    if "rd_set mem_ops k x ttl s = (Inr u, s')" for k x ttl s u s'
    using that by (auto simp: mem_ops_def mem_kv_def dest!: mr_send_Inr)
  show "(mem_kv s' = mem_kv s \<or> mem_kv s' = (mem_kv s)(k \<mapsto> (x, mr_clock s + ttl))) \<and> mr_clock s' = mr_clock s"
    if "rd_set mem_ops k x ttl s = (Inl e, s')" for k x ttl s e s'
    using that by (auto simp: mem_ops_def dest!: mr_send_Inl)
  show "mem_kv s' = (mem_kv s)(k := None) \<and> mr_clock s' = mr_clock s"
    if "rd_del mem_ops k s = (Inr u, s')" for k s u s'
    using that by (auto simp: mem_ops_def mem_kv_def map_of_filter_neq dest!: mr_send_Inr)
  show "(mem_kv s' = mem_kv s \<or> mem_kv s' = (mem_kv s)(k := None)) \<and> mr_clock s' = mr_clock s"
    if "rd_del mem_ops k s = (Inl e, s')" for k s e s'
    using that by (auto simp: mem_ops_def dest!: mr_send_Inl)
  show "{k. live_value mem_kv mr_clock s k \<noteq> None \<and> has_prefix p k} \<subseteq> set ks \<and> list_all (has_prefix p) ks"
    if "rd_scan mem_ops (p @ ''*'') n s = ((ks, None), s')" for p n s ks s'
  proof -
    have "ks = mem_scan (p @ ''*'') s" using that by (auto simp: mem_ops_def)
    moreover have "k \<in> fst ` set (mr_kv s)" if "live_value mem_kv mr_clock s k \<noteq> None" for k
      using that by (auto simp: live_value_def mem_kv_def split: option.splits dest!: map_of_SomeD intro: rev_image_eqI)
    ultimately show ?thesis by (auto simp: mem_scan_def list_all_iff)
  qed
  show "mem_kv s' = mem_kv s \<and> mr_clock s' = mr_clock s"
    if "rd_scan mem_ops p n s = (r, s')" for p n s r s'
    using that by (simp add: mem_ops_def)
qed

lemma score_bounds:
  assumes "\<bar>n\<bar> \<le> 2 ^ 53"
  shows "score_ge (itoa n) x \<longleftrightarrow> of_int n \<le> x" "score_le (itoa n) x \<longleftrightarrow> x \<le> of_int n"
proof -
  have p: "parse_int64 (itoa n) = (n, True)"
    by (rule parse_int64_itoa) (use assms in \<open>auto simp: min_int64_def max_int64_def\<close>)
  then have "itoa n \<noteq> ''+inf''" by (auto simp: parse_int64_def is_digit_def)
  with p show "score_ge (itoa n) x \<longleftrightarrow> of_int n \<le> x" "score_le (itoa n) x \<longleftrightarrow> x \<le> of_int n"
    by (simp_all add: score_ge_def score_le_def)
qed

lemma map_of_filter_key: "map_of (filter (\<lambda>p. Q (fst p)) xs) m = (if Q m then map_of xs m else None)"
  by (induction xs) auto

interpretation mem: redis_zset mem_ops mem_zs
proof
  show "mem_zs s' = (mem_zs s)(k := (if mem_zs s k m = None then (mem_zs s k)(m \<mapsto> x) else mem_zs s k))"
    if "rd_zaddnx mem_ops k (Fin x) m s = (Inr u, s')" for k x m s u s'
    using that by (auto simp: mem_ops_def mem_zs_def mem_zadd_def fun_eq_iff dest!: mr_send_Inr)
  show "mem_zs s' = (mem_zs s)(k := (\<lambda>m. if ptr_and (mem_zs s k m) (\<lambda>x. of_int lo \<le> x \<and> x \<le> of_int hi)
      then None else mem_zs s k m))"
    if "rd_zremrangebyscore mem_ops k (itoa lo) (itoa hi) s = (Inr u, s')"
      and "\<bar>lo\<bar> \<le> 2 ^ 53" "\<bar>hi\<bar> \<le> 2 ^ 53" for k lo hi s u s'
    using that
    by (auto simp: mem_ops_def mem_zs_def mem_zrem_def score_bounds fun_eq_iff dest!: mr_send_Inr)
      (auto simp: map_of_filter_key [where Q = "\<lambda>m. \<not> ptr_and (map_of _ m) _"])
  show "n = int (card {m. ptr_and (mem_zs s k m) (\<lambda>x. of_int lo \<le> x)}) \<and> mem_zs s' = mem_zs s"
    if "rd_zcount mem_ops k (itoa lo) ''+inf'' s = (Inr n, s')" "\<bar>lo\<bar> \<le> 2 ^ 53" for k lo s n s'
  proof -
    let ?P = "\<lambda>m. ptr_and (mem_zs s k m) (\<lambda>x. of_int lo \<le> x)"
    let ?ks = "remdups (map fst (mr_zset s k))"
    have "n = int (length (filter ?P ?ks)) \<and> mem_zs s' = mem_zs s"
      using that by (auto simp: mem_ops_def mem_zs_def mem_zcount_def score_bounds score_le_def fun_eq_iff dest!: mr_send_Inr)
    moreover have "length (filter ?P ?ks) = card (set (filter ?P ?ks))"
      by (simp add: distinct_card [symmetric] del: set_filter)
    moreover have "set (filter ?P ?ks) = {m. ?P m}"
      by (auto simp: mem_zs_def ptr_and_iff dest: map_of_SomeD intro: rev_image_eqI)
    ultimately show ?thesis by simp
  qed
  show "finite (dom (mem_zs s k))" for s k by (simp add: mem_zs_def finite_dom_map_of)
qed

lemma id_number_utoa: "id_number (utoa n @ ''-0'') = n"
proof -
  have "takeWhile is_digit (utoa n @ ''-0'') = utoa n"
    using utoa_digits [of n] by (simp add: takeWhile_append list_all_iff)
  then show ?thesis by (simp add: id_number_def)
qed

lemma fresh_id: "utoa (Suc (sum_list (map (id_number \<circ> fst) es))) @ ''-0'' \<notin> fst ` set es"
proof
  let ?i = "utoa (Suc (sum_list (map (id_number \<circ> fst) es))) @ ''-0''"
  assume "?i \<in> fst ` set es"
  then have "id_number ?i \<in> set (map (id_number \<circ> fst) es)" by (force simp: comp_def)
  then have "id_number ?i \<le> sum_list (map (id_number \<circ> fst) es)" by (rule member_le_sum_list) simp
  then show False unfolding id_number_utoa by simp
qed

interpretation mem: redis_stream mem_ops mr_entries mr_delivered "\<lambda>s st g. set (mr_pending s st g)"
proof
  show "mr_entries s' = (mr_entries s)(st := mr_entries s st @ [(i, \<lambda>k. map_option arg_string (vs k))])
      \<and> i \<notin> fst ` set (mr_entries s st) \<and> mr_delivered s' = mr_delivered s
      \<and> (\<lambda>st g. set (mr_pending s' st g)) = (\<lambda>st g. set (mr_pending s st g))"
    if h: "rd_xadd mem_ops st vs s = (Inr i, s')" for st vs s i s'
  proof -
    obtain bs where "mem_xadd st vs (s\<lparr>mr_up := bs\<rparr>) = (i, s')"
      using mr_send_Inr [of "\<lambda>s. let (i, s') = mem_xadd st vs s in (Inr i, s')" s i s'] h
      by (auto simp: mem_ops_def Let_def split: prod.splits) (metis surj_pair)
    then have "i = utoa (Suc (sum_list (map (id_number \<circ> fst) (mr_entries s st)))) @ ''-0''"
      "s' = s\<lparr>mr_up := bs, mr_entries := (mr_entries s)(st := mr_entries s st
              @ [(i, \<lambda>k. map_option arg_string (vs k))])\<rparr>"
      by (auto simp: mem_xadd_def Let_def)
    then show ?thesis using fresh_id [of "mr_entries s st"] by simp
  qed
  show "mr_entries s' = mr_entries s
      \<and> concat (map snd sts) = take (nat n) (drop (mr_delivered s st g) (mr_entries s st))
      \<and> mr_delivered s' st g = mr_delivered s st g + length (concat (map snd sts))
      \<and> set (mr_pending s' st g) = set (mr_pending s st g) \<union> fst ` set (concat (map snd sts))"
    if "rd_xreadgroup mem_ops g c st n b s = (Inr sts, s')" for g c st n b s sts s'
    using that by (auto simp: mem_ops_def mem_xread_def Let_def dest!: mr_send_Inr) force
  show "mr_entries s' = mr_entries s"
    if "rd_xreadgroup mem_ops g c st n b s = (Inl e, s')" for g c st n b s e s'
    using that by (auto simp: mem_ops_def mem_xread_def Let_def dest!: mr_send_Inl)
  show "mr_entries s' = mr_entries s \<and> mr_delivered s' = mr_delivered s
      \<and> set (mr_pending s' st g) = set (mr_pending s st g) - set is"
    if "rd_xack mem_ops st g is s = (Inr u, s')" for st g "is" s u s'
    using that by (auto simp: mem_ops_def mem_xack_def dest!: mr_send_Inr)
  show "mr_entries s' = mr_entries s \<and> mr_delivered s' = mr_delivered s
      \<and> (set (mr_pending s' st g) = set (mr_pending s st g)
         \<or> set (mr_pending s' st g) = set (mr_pending s st g) - set is)"
    if "rd_xack mem_ops st g is s = (Inl e, s')" for st g "is" s e s'
    using that by (auto simp: mem_ops_def mem_xack_def dest!: mr_send_Inl)
  note keeps = mr_send_keeps [where V = "\<lambda>s. (mr_entries s, mr_delivered s, mr_pending s)"]
  show "mr_entries (snd (rd_zaddnx mem_ops k x m s)) = mr_entries s
      \<and> mr_delivered (snd (rd_zaddnx mem_ops k x m s)) = mr_delivered s
      \<and> (\<lambda>st g. set (mr_pending (snd (rd_zaddnx mem_ops k x m s)) st g)) = (\<lambda>st g. set (mr_pending s st g))"
    for k x m s
    using keeps [of "\<lambda>s. case x of Fin r \<Rightarrow> (Inr (), mem_zadd k r m s) | _ \<Rightarrow> (Inl ''not a valid float'', s)" s]
    by (simp add: mem_ops_def mem_zadd_def split: float64.splits)
  show "mr_entries (snd (rd_zremrangebyscore mem_ops k lo hi s)) = mr_entries s
      \<and> mr_delivered (snd (rd_zremrangebyscore mem_ops k lo hi s)) = mr_delivered s
      \<and> (\<lambda>st g. set (mr_pending (snd (rd_zremrangebyscore mem_ops k lo hi s)) st g)) = (\<lambda>st g. set (mr_pending s st g))"
    for k lo hi s
    using keeps [of "\<lambda>s. (Inr (), mem_zrem k lo hi s)" s] by (simp add: mem_ops_def mem_zrem_def)
  show "mr_entries (snd (rd_zcount mem_ops k lo hi s)) = mr_entries s
      \<and> mr_delivered (snd (rd_zcount mem_ops k lo hi s)) = mr_delivered s
      \<and> (\<lambda>st g. set (mr_pending (snd (rd_zcount mem_ops k lo hi s)) st g)) = (\<lambda>st g. set (mr_pending s st g))"
    for k lo hi s
    using keeps [of "\<lambda>s. (Inr (mem_zcount k lo hi s), s)" s] by (simp add: mem_ops_def)
qed

end
