(* ===== verification/Cache.thy ===== *)
theory Cache
  imports Redis
begin

text \<open>
  Package \<open>internal/cache\<close>: the metrics cache and the last-loss keys (metrics.go), the sliding
  window of the overtrading detector (zset.go) and the event stream (stream.go), each over the
  server interface of theory \<open>Redis\<close>.
\<close>

section \<open>MetricsCache (metrics.go)\<close>

definition MetricsCacheTTL :: duration where "MetricsCacheTTL = 5 * minute"

text \<open>A miss is \<open>nil, nil\<close>.\<close>

definition Cache_Get :: "'r redis_ops \<Rightarrow> string \<Rightarrow> ('r, string option) rcmd" where
  "Cache_Get R key s =
     (case rd_get R key s of
        (Inr None, s1) \<Rightarrow> (Inr None, s1)
      | (Inr (Some val), s1) \<Rightarrow> (Inr (Some val), s1)
      | (Inl e, s1) \<Rightarrow> (Inl e, s1))"

definition Cache_Set :: "'r redis_ops \<Rightarrow> string \<Rightarrow> string \<Rightarrow> ('r, unit) rcmd" where
  "Cache_Set R key data = rd_set R key data MetricsCacheTTL"

text \<open>The loop of \<open>InvalidateUser\<close> over the scanned keys: it stops at the first failed DEL.\<close>

fun del_all :: "'r redis_ops \<Rightarrow> string list \<Rightarrow> ('r, unit) rcmd" where
  "del_all R [] s = (Inr (), s)"
| "del_all R (k # ks) s =
     (case rd_del R k s of (Inl e, s1) \<Rightarrow> (Inl e, s1) | (Inr _, s1) \<Rightarrow> del_all R ks s1)"

definition user_metrics_prefix :: "string \<Rightarrow> string" where
  "user_metrics_prefix userID = ''metrics:'' @ userID @ '':''"

definition InvalidateUser :: "'r redis_ops \<Rightarrow> string \<Rightarrow> ('r, unit) rcmd" where
  "InvalidateUser R userID s =
     (let pattern = user_metrics_prefix userID @ ''*''
      in case rd_scan R pattern 100 s of ((ks, err), s1) \<Rightarrow>
           (case del_all R ks s1 of
              (Inl e, s2) \<Rightarrow> (Inl e, s2)
            | (Inr _, s2) \<Rightarrow> (case err of None \<Rightarrow> (Inr (), s2) | Some e \<Rightarrow> (Inl e, s2))))"

definition last_loss_key :: "string \<Rightarrow> string" where
  "last_loss_key userID = ''user:'' @ userID @ '':last_loss''"

definition SetLastLoss :: "'r redis_ops \<Rightarrow> string \<Rightarrow> int \<Rightarrow> ('r, unit) rcmd" where
  "SetLastLoss R userID exitAtUnix = rd_set R (last_loss_key userID) (itoa exitAtUnix) (90 * second)"

text \<open>The key of the sliding window, which the API and the worker both build.\<close>

definition trades_ts_key :: "string \<Rightarrow> string" where
  "trades_ts_key userID = ''user:'' @ userID @ '':trades-ts''"

text \<open>A miss is 0 with no error; a value that is not an integer is an error.\<close>

definition GetLastLoss :: "'r redis_ops \<Rightarrow> string \<Rightarrow> ('r, int) rcmd" where
  "GetLastLoss R userID s =
     (case rd_get R (last_loss_key userID) s of
        (Inr None, s1) \<Rightarrow> (Inr 0, s1)
      | (Inr (Some val), s1) \<Rightarrow>
          (case parse_int64 val of
             (n, True) \<Rightarrow> (Inr n, s1)
           | (n, False) \<Rightarrow> (Inl ''strconv.ParseInt: invalid syntax'', s1))
      | (Inl e, s1) \<Rightarrow> (Inl e, s1))"

section \<open>ZSetClient (zset.go)\<close>

definition ZSet_AddNX :: "'r redis_ops \<Rightarrow> string \<Rightarrow> float64 \<Rightarrow> string \<Rightarrow> ('r, unit) rcmd" where
  "ZSet_AddNX R key score member = rd_zaddnx R key score member"

definition ZSet_RemoveByScoreRange :: "'r redis_ops \<Rightarrow> string \<Rightarrow> string \<Rightarrow> string \<Rightarrow> ('r, unit) rcmd" where
  "ZSet_RemoveByScoreRange R key lo hi = rd_zremrangebyscore R key lo hi"

definition ZSet_Count :: "'r redis_ops \<Rightarrow> string \<Rightarrow> string \<Rightarrow> string \<Rightarrow> ('r, int) rcmd" where
  "ZSet_Count R key lo hi = rd_zcount R key lo hi"

text \<open>
  \<open>OvertradingCheck\<close> sends the three commands in one pipeline: all of them run, in order, and
  \<open>Exec\<close> reports the first error.
\<close>

definition OvertradingCheck :: "'r redis_ops \<Rightarrow> string \<Rightarrow> int \<Rightarrow> string \<Rightarrow> int \<Rightarrow> ('r, int) rcmd" where
  "OvertradingCheck R key nowMs tradeID windowMs s =
     (case rd_zaddnx R key (f64_of_int nowMs) tradeID s of (r1, s1) \<Rightarrow>
      case rd_zremrangebyscore R key ''0'' (itoa (nowMs - windowMs)) s1 of (r2, s2) \<Rightarrow>
      case rd_zcount R key (itoa (nowMs - windowMs)) ''+inf'' s2 of (r3, s3) \<Rightarrow>
        (case (r1, r2, r3) of
           (Inl e, _, _) \<Rightarrow> (Inl e, s3)
         | (_, Inl e, _) \<Rightarrow> (Inl e, s3)
         | (_, _, Inl e) \<Rightarrow> (Inl e, s3)
         | (Inr _, Inr _, Inr n) \<Rightarrow> (Inr n, s3)))"

section \<open>StreamClient (stream.go)\<close>

definition Stream_CreateGroup :: "'r redis_ops \<Rightarrow> string \<Rightarrow> string \<Rightarrow> string \<Rightarrow> ('r, unit) rcmd" where
  "Stream_CreateGroup R stream grp start s =
     (case rd_xgroup_create_mkstream R stream grp start s of
        (Inl err, s1) \<Rightarrow>
          if err = ''BUSYGROUP Consumer Group name already exists'' then (Inr (), s1) else (Inl err, s1)
      | (Inr _, s1) \<Rightarrow> (Inr (), s1))"

definition Stream_Add :: "'r redis_ops \<Rightarrow> string \<Rightarrow> goval strmap \<Rightarrow> ('r, string) rcmd" where
  "Stream_Add R stream values = rd_xadd R stream values"

definition Stream_ReadGroup ::
  "'r redis_ops \<Rightarrow> string \<Rightarrow> string \<Rightarrow> string \<Rightarrow> int \<Rightarrow> duration \<Rightarrow> ('r, (string \<times> entry list) list) rcmd" where
  "Stream_ReadGroup R grp consumer stream n block = rd_xreadgroup R grp consumer stream n block"

definition Stream_Ack :: "'r redis_ops \<Rightarrow> string \<Rightarrow> string \<Rightarrow> string list \<Rightarrow> ('r, unit) rcmd" where
  "Stream_Ack R stream grp ids = rd_xack R stream grp ids"

definition Stream_InfoStream :: "'r redis_ops \<Rightarrow> string \<Rightarrow> ('r, string) rcmd" where
  "Stream_InfoStream R stream = rd_xinfo_stream R stream"

section \<open>Keys and expiry\<close>

lemma last_loss_key_inj: "last_loss_key u = last_loss_key v \<Longrightarrow> u = v"
  by (simp add: last_loss_key_def)

lemma last_loss_key_metrics [simp]: "last_loss_key u \<noteq> ''metrics:'' @ x" "last_loss_key u \<noteq> ''profile:'' @ x"
  by (simp_all add: last_loss_key_def)

context redis_keys
begin

text \<open>After a recorded loss, the key answers with its time for 90 seconds of server time.\<close>

lemma GetLastLoss_after_set:
  assumes set: "SetLastLoss R u n s = (Inr x, s1)" and keep: "kv s2 = kv s1"
    and get: "GetLastLoss R u s2 = (Inr m, s3)" and n: "min_int64 \<le> n" "n \<le> max_int64"
  shows "m = (if clock s2 < clock s + 90 * second then n else 0)"
proof -
  have "live s2 (last_loss_key u) = (if clock s2 < clock s + 90 * second then Some (itoa n) else None)"
    using live_after_set [OF set [unfolded SetLastLoss_def] keep] .
  then show ?thesis
    using get by (auto simp: GetLastLoss_def parse_int64_itoa [OF n]
      split: prod.splits sum.splits option.splits bool.splits if_splits dest!: get_ok)
qed

lemma GetLastLoss_frame: "GetLastLoss R u s = (r, s') \<Longrightarrow> kv s' = kv s \<and> clock s' = clock s"
  by (auto simp: GetLastLoss_def split: prod.splits sum.splits option.splits bool.splits
      dest: get_ok get_err)

lemma Cache_Get_value: "Cache_Get R k s = (Inr v, s') \<Longrightarrow> v = live s k \<and> kv s' = kv s \<and> clock s' = clock s"
  by (auto simp: Cache_Get_def split: prod.splits sum.splits option.splits dest: get_ok get_err)

lemma Cache_Get_frame: "Cache_Get R k s = (r, s') \<Longrightarrow> kv s' = kv s \<and> clock s' = clock s"
  by (auto simp: Cache_Get_def split: prod.splits sum.splits option.splits dest: get_ok get_err)

lemma del_all_ok:
  "del_all R ks s = (Inr u, s') \<Longrightarrow>
     kv s' = (\<lambda>k. if k \<in> set ks then None else kv s k) \<and> clock s' = clock s"
proof (induction ks arbitrary: s)
  case (Cons k ks)
  then obtain v s1 where d: "rd_del R k s = (Inr v, s1)" and r: "del_all R ks s1 = (Inr u, s')"
    by (auto split: prod.splits sum.splits)
  show ?case using Cons.IH [OF r] del_ok [OF d] by auto
qed auto

text \<open>
  A successful invalidation leaves no live metrics entry of the user and every key that does not
  start with the user's prefix as it was.
\<close>

lemma InvalidateUser_ok:
  assumes inv: "InvalidateUser R u s = (Inr x, s')" and plain: "plain_glob u"
  shows "has_prefix (user_metrics_prefix u) k \<Longrightarrow> live s' k = None"
    "\<not> has_prefix (user_metrics_prefix u) k \<Longrightarrow> kv s' k = kv s k"
    "clock s' = clock s"
proof -
  obtain ks s1 y where sc: "rd_scan R (user_metrics_prefix u @ ''*'') 100 s = ((ks, None), s1)"
    and d: "del_all R ks s1 = (Inr y, s')"
    using inv by (auto simp: InvalidateUser_def Let_def split: prod.splits sum.splits option.splits)
  have "plain_glob (user_metrics_prefix u)"
    using plain by (simp add: user_metrics_prefix_def plain_glob_def)
  note ok = scan_ok [OF sc this] and fr = scan_frame [OF sc]
  note del = del_all_ok [OF d]
  have live: "live s k = live s1 k" for k using fr by (auto simp: live_value_def split: option.splits)
  show "clock s' = clock s" using fr del by simp
  show "has_prefix (user_metrics_prefix u) k \<Longrightarrow> live s' k = None"
  proof (cases "k \<in> set ks")
    case True
    with del show ?thesis by (simp add: live_value_def)
  next
    case False
    moreover assume "has_prefix (user_metrics_prefix u) k"
    ultimately have "live s k = None" using ok by blast
    then show ?thesis using False del fr by (auto simp: live_value_def split: option.splits if_splits)
  qed
  show "\<not> has_prefix (user_metrics_prefix u) k \<Longrightarrow> kv s' k = kv s k"
    using ok fr del by (auto simp: list_all_iff)
qed

end

section \<open>The sliding window\<close>

text \<open>ZADD NX on the map of scores.\<close>

definition add_nx :: "string \<Rightarrow> rat \<Rightarrow> (string \<Rightarrow> rat option) \<Rightarrow> (string \<Rightarrow> rat option)" where
  "add_nx m x z = (if z m = None then z(m \<mapsto> x) else z)"

definition evict_until :: "rat \<Rightarrow> (string \<Rightarrow> rat option) \<Rightarrow> (string \<Rightarrow> rat option)" where
  "evict_until t z = (\<lambda>m. if ptr_and (z m) (\<lambda>x. 0 \<le> x \<and> x \<le> t) then None else z m)"

text \<open>The members of a window that opened after the time.\<close>

definition opened_after :: "rat \<Rightarrow> (string \<Rightarrow> rat option) \<Rightarrow> string set" where
  "opened_after t z = {m. ptr_and (z m) (\<lambda>x. t < x)}"

lemma itoa_0: "itoa 0 = ''0''"
by code_simp

context redis_zset
begin

lemma OvertradingCheck_spec:
  assumes chk: "OvertradingCheck R k now m w s = (Inr n, s')"
    and rng: "0 \<le> w" "w \<le> now" "now \<le> 2 ^ 53"
  shows "n = int (card (opened_after (of_int (now - w)) (add_nx m (of_int now) (zs s k))))"
    "zs s' k = evict_until (of_int (now - w)) (add_nx m (of_int now) (zs s k))"
    "k' \<noteq> k \<Longrightarrow> zs s' k' = zs s k'"
proof -
  have now: "f64_of_int now = Fin (of_int now)" using rng by (intro f64_of_int_exact) simp
  obtain u1 s1 u2 s2 where a: "rd_zaddnx R k (Fin (of_int now)) m s = (Inr u1, s1)"
    and r: "rd_zremrangebyscore R k (itoa 0) (itoa (now - w)) s1 = (Inr u2, s2)"
    and c: "rd_zcount R k (itoa (now - w)) ''+inf'' s2 = (Inr n, s')"
    using chk by (auto simp: OvertradingCheck_def now itoa_0 split: prod.splits sum.splits)
  have z1: "zs s1 = (zs s)(k := add_nx m (of_int now) (zs s k))"
    using zaddnx_ok [OF a] by (simp add: add_nx_def)
  have z2: "zs s2 = (zs s1)(k := evict_until (of_int (now - w)) (zs s1 k))"
    using zrem_ok [OF r] rng by (simp add: evict_until_def)
  have n: "n = int (card {m. ptr_and (zs s2 k m) (\<lambda>x. of_int (now - w) \<le> x)})" and z3: "zs s' = zs s2"
    using zcount_ok [OF c] rng by auto
  let ?z = "add_nx m (of_int now) (zs s k)"
  show "zs s' k = evict_until (of_int (now - w)) ?z" by (simp add: z3 z2 z1)
  show "k' \<noteq> k \<Longrightarrow> zs s' k' = zs s k'" by (simp add: z3 z2 z1)
  have "(0::rat) \<le> of_int (now - w)" using rng by (simp only: of_int_0_le_iff)
  then have "{m. ptr_and (zs s2 k m) (\<lambda>x. of_int (now - w) \<le> x)} = opened_after (of_int (now - w)) ?z"
    by (auto simp: z2 z1 evict_until_def opened_after_def ptr_and_iff)
  then show "n = int (card (opened_after (of_int (now - w)) ?z))" using n by simp
qed

end

end
