(* ===== verification/World.thy ===== *)
theory World
  imports Metrics_Store Cache
begin

text \<open>
  The two servers behind the processes: every handler and the worker act on one database and one
  Redis server, through the statements of the stores and the commands of the cache package.
\<close>

record 'r world =
  w_db :: db
  w_redis :: 'r

definition on_db :: "'a stmt \<Rightarrow> 'r world \<Rightarrow> (go_error + 'a) \<times> 'r world" where
  "on_db q w = (case q (w_db w) of (r, s) \<Rightarrow> (r, w\<lparr>w_db := s\<rparr>))"

definition on_redis :: "('r, 'a) rcmd \<Rightarrow> 'r world \<Rightarrow> (string + 'a) \<times> 'r world" where
  "on_redis c w = (case c (w_redis w) of (r, s) \<Rightarrow> (r, w\<lparr>w_redis := s\<rparr>))"

text \<open>The connection to the database stays up: no delivery outcome is scripted.\<close>

abbreviation db_up :: "'r world \<Rightarrow> bool" where "db_up w \<equiv> db_deliveries (w_db w) = []"

lemma on_db_simps [simp]:
  "fst (on_db q w) = fst (q (w_db w))" "w_db (snd (on_db q w)) = snd (q (w_db w))"
  "w_redis (snd (on_db q w)) = w_redis w"
  by (simp_all add: on_db_def split: prod.splits)

lemma on_redis_simps [simp]:
  "fst (on_redis c w) = fst (c (w_redis w))" "w_redis (snd (on_redis c w)) = snd (c (w_redis w))"
  "w_db (snd (on_redis c w)) = w_db w"
  by (simp_all add: on_redis_def split: prod.splits)

lemma on_db_eqD: "on_db q w = (r, w') \<Longrightarrow> q (w_db w) = (r, w_db w') \<and> w_redis w' = w_redis w"
  by (auto simp: on_db_def split: prod.splits)

lemma on_redis_eqD: "on_redis c w = (r, w') \<Longrightarrow> c (w_redis w) = (r, w_redis w') \<and> w_db w' = w_db w"
  by (auto simp: on_redis_def split: prod.splits)


section \<open>What the statements leave alone\<close>

text \<open>The tables that only the API writes.\<close>

definition ledger :: "db \<Rightarrow> user_row list \<times> session_row list \<times> rat Trade list \<times> debrief_row list" where
  "ledger s = (users s, sessions s, trades s, debriefs s)"

text \<open>A statement keeps a view of the database when sending it does.\<close>

lemma pg_send_keeps:
  assumes "\<And>s. V (snd (q s)) = V s" "\<And>s ds. V (s\<lparr>db_deliveries := ds\<rparr>) = V s"
  shows "V (snd (pg_send T q s)) = V s"
  using pg_send_preserves [where P = "\<lambda>s'. V s' = V s" and q = q and T = T and s = s] assms by simp

lemma ledger_deliveries [simp]: "ledger (s\<lparr>db_deliveries := ds\<rparr>) = ledger s"
  by (simp add: ledger_def)

lemma select_by_uuid_state [simp]: "snd (select_by_uuid T x q s) = s"
  by (simp add: select_by_uuid_def split: option.splits)

lemma upsert_bucket_row_frame [simp]:
  "ledger (snd (upsert_bucket_row T row s)) = ledger s"
  "emotion_win_rates (snd (upsert_bucket_row T row s)) = emotion_win_rates s"
  "overtrading_events (snd (upsert_bucket_row T row s)) = overtrading_events s"
  by (simp_all add: upsert_bucket_row_def ledger_def Let_def split: option.splits)

lemma upsert_emotion_row_frame [simp]:
  "ledger (snd (upsert_emotion_row T r s)) = ledger s"
  "behavioral_metrics (snd (upsert_emotion_row T r s)) = behavioral_metrics s"
  "overtrading_events (snd (upsert_emotion_row T r s)) = overtrading_events s"
  "db_deliveries (snd (upsert_emotion_row T r s)) = db_deliveries s"
  by (simp_all add: upsert_emotion_row_def ledger_def Let_def)

lemma UpsertBucket_frame [frame_simps]:
  "ledger (snd (UpsertBucket T D u b tc wc lc p a t rc oc s)) = ledger s"
  "emotion_win_rates (snd (UpsertBucket T D u b tc wc lc p a t rc oc s)) = emotion_win_rates s"
  "overtrading_events (snd (UpsertBucket T D u b tc wc lc p a t rc oc s)) = overtrading_events s"
  unfolding UpsertBucket_def by (rule pg_send_keeps; simp)+

lemma UpsertEmotionWinRate_frame [frame_simps]:
  "ledger (snd (UpsertEmotionWinRate T u e d wn ls s)) = ledger s"
  "behavioral_metrics (snd (UpsertEmotionWinRate T u e d wn ls s)) = behavioral_metrics s"
  "overtrading_events (snd (UpsertEmotionWinRate T u e d wn ls s)) = overtrading_events s"
  unfolding UpsertEmotionWinRate_def by (rule pg_send_keeps; simp split: option.splits)+

lemma InsertOvertradingEvent_frame [frame_simps]:
  "ledger (snd (InsertOvertradingEvent T u ws n s)) = ledger s"
  "behavioral_metrics (snd (InsertOvertradingEvent T u ws n s)) = behavioral_metrics s"
  "emotion_win_rates (snd (InsertOvertradingEvent T u ws n s)) = emotion_win_rates s"
  unfolding InsertOvertradingEvent_def by (rule pg_send_keeps; simp add: ledger_def split: option.splits)+

text \<open>The queries of the pipeline keep every view that ignores the fault script.\<close>

lemma pipeline_reads_frame [frame_simps]:
  assumes "\<And>s ds. V (s\<lparr>db_deliveries := ds\<rparr>) = V s"
  shows "V (snd (GetLastPlanAdherenceRatings T u n s)) = V s" "V (snd (GetSessionTiltData T x s)) = V s"
  unfolding GetLastPlanAdherenceRatings_def GetSessionTiltData_def
  by (rule pg_send_keeps; simp add: assms)+

text \<open>On a connection that stays up, statements leave it up.\<close>

lemma upsert_bucket_row_up [simp]: "db_deliveries (snd (upsert_bucket_row T row s)) = db_deliveries s"
  by (simp add: upsert_bucket_row_def Let_def split: option.splits)

lemma statements_up:
  assumes "db_deliveries s = []"
  shows "db_deliveries (snd (UpsertBucket T D u b tc wc lc p a t rc oc s)) = []"
    "db_deliveries (snd (UpsertEmotionWinRate T u e d wn ls s)) = []"
    "db_deliveries (snd (InsertOvertradingEvent T u ws n s)) = []"
    "db_deliveries (snd (GetLastPlanAdherenceRatings T u m s)) = []"
    "db_deliveries (snd (GetSessionTiltData T x s)) = []"
  using assms
  by (simp_all add: UpsertBucket_def UpsertEmotionWinRate_def InsertOvertradingEvent_def
      GetLastPlanAdherenceRatings_def GetSessionTiltData_def split: option.splits)


section \<open>A small world\<close>

text \<open>
  Two users, a session of each, an empty ledger and an empty Redis server: the world on which the
  concrete instances of the properties are evaluated.
\<close>

definition alice :: string where "alice = ''a1111111-1111-4111-8111-111111111111''"
definition bob :: string where "bob = ''b2222222-2222-4222-8222-222222222222''"
definition alice_session :: string where "alice_session = ''a5555555-5555-4555-8555-555555555555''"
definition bob_session :: string where "bob_session = ''b6666666-6666-4666-8666-666666666666''"
definition ex_trade_id :: string where "ex_trade_id = ''c7777777-7777-4777-8777-777777777777''"

text \<open>2025-01-06T10:15:00Z.\<close>

definition ex_time :: time where "ex_time = 1736158500 * 10 ^ 9"

definition ex_db :: db where
  "ex_db =
     \<lparr> users = [\<lparr>u_UserID = alice, u_Name = ''Alice'', u_Role = ''trader'', u_Pathology = None\<rparr>,
                \<lparr>u_UserID = bob, u_Name = ''Bob'', u_Role = ''trader'', u_Pathology = None\<rparr>],
       sessions = [\<lparr>s_SessionID = alice_session, s_UserID = alice, s_StartedAt = ex_time, s_Notes = None\<rparr>,
                   \<lparr>s_SessionID = bob_session, s_UserID = bob, s_StartedAt = ex_time, s_Notes = Some ''calm day''\<rparr>],
       trades = [], debriefs = [], behavioral_metrics = [], emotion_win_rates = [], overtrading_events = [],
       db_now = ex_time, db_uuid_supply = [''d8888888-8888-4888-8888-888888888888''], db_deliveries = [] \<rparr>"

text \<open>A closed losing trade of Alice.\<close>

definition ex_trade :: "rat Trade" where
  "ex_trade =
     \<lparr> TradeID = ex_trade_id, UserID = alice, SessionID = alice_session, Asset = ''AAPL'',
       AssetClass = ''equity'', Direction = ''long'', EntryPrice = 100, ExitPrice = Some 90, Quantity = 2,
       EntryAt = ex_time, ExitAt = Some (ex_time + 600 * second), Status = ''closed'',
       PlanAdherence = Some 2, EmotionalState = Some ''anxious'', EntryRationale = None,
       Outcome = Some ''loss'', PnL = Some (- 20), RevengeFlag = False, CreatedAt = ex_time,
       UpdatedAt = ex_time \<rparr>"

definition ex_world :: "mem_redis world" where
  "ex_world = \<lparr>w_db = ex_db, w_redis = mem_init ex_time\<rparr>"

text \<open>The same world after that trade was stored.\<close>

definition ex_traded :: "mem_redis world" where
  "ex_traded = ex_world\<lparr>w_db := ex_db\<lparr>trades := [ex_trade]\<rparr>\<rparr>"

lemmas ex_defs = ex_world_def ex_db_def alice_def bob_def alice_session_def bob_session_def
  ex_trade_id_def ex_time_def mem_init_def

end
