(* ===== verification/Session_Store.thy ===== *)
theory Session_Store
  imports World
begin

text \<open>
  \<open>internal/store/session_store.go\<close> and \<open>user_store.go\<close>: sessions with their trades,
  debriefs, and users.
\<close>

section \<open>Sessions\<close>

record Session =
  se_SessionID :: string
  se_UserID :: string
  se_StartedAt :: time
  se_Notes :: "string option"

record 'd SessionSummary =
  ss_SessionID :: string
  ss_UserID :: string
  ss_Date :: time
  ss_Notes :: "string option"
  ss_TradeCount :: int
  ss_WinRate :: float64
  ss_TotalPnl :: 'd
  ss_Trades :: "'d Trade list"

definition scan_session :: "session_row \<Rightarrow> Session" where
  "scan_session r =
     \<lparr>se_SessionID = s_SessionID r, se_UserID = s_UserID r, se_StartedAt = s_StartedAt r, se_Notes = s_Notes r\<rparr>"

text \<open>A row by its UUID key: an argument that is not a UUID is refused.\<close>

definition select_session :: "pg_types \<Rightarrow> string \<Rightarrow> Session stmt" where
  "select_session T sessionID s =
     (case pg_uuid T sessionID of
        None \<Rightarrow> (Inl (pg_error T InvalidInput), s)
      | Some u \<Rightarrow> (case tbl_lookup s_SessionID u (sessions s) of
                    None \<Rightarrow> (Inl ErrNoRows, s)
                  | Some r \<Rightarrow> (Inr (scan_session r), s)))"

definition GetSession :: "pg_types \<Rightarrow> string \<Rightarrow> Session stmt" where
  "GetSession T sessionID s =
     (case pg_send T (select_session T sessionID) s of
        (Inr r, s1) \<Rightarrow> (Inr r, s1)
      | (Inl e, s1) \<Rightarrow> if error_is e ErrNoRows then (Inl ErrNotFound, s1) else (Inl e, s1))"

text \<open>The loop over the trades: the P\&L of those that have one, and the number of wins.\<close>

definition add_trade :: "'d decimal_ops \<Rightarrow> 'd \<times> int \<Rightarrow> 'd Trade \<Rightarrow> 'd \<times> int" where
  "add_trade D acc t =
     (case acc of (totalPnl, winCount) \<Rightarrow>
        ((case PnL t of None \<Rightarrow> totalPnl | Some p \<Rightarrow> dec_add D totalPnl p),
         (if ptr_and (Outcome t) (\<lambda>x. x = OutcomeWin) then winCount + 1 else winCount)))"

definition summarize :: "'d decimal_ops \<Rightarrow> Session \<Rightarrow> 'd Trade list \<Rightarrow> 'd SessionSummary" where
  "summarize D sess ts =
     (case foldl (add_trade D) (dec_zero D, 0) ts of (totalPnl, winCount) \<Rightarrow>
        \<lparr> ss_SessionID = se_SessionID sess, ss_UserID = se_UserID sess, ss_Date = se_StartedAt sess,
          ss_Notes = se_Notes sess, ss_TradeCount = int (length ts),
          ss_WinRate = (if 0 < length ts then f64_div (f64_of_int winCount) (f64_of_int (int (length ts))) else Fin 0),
          ss_TotalPnl = totalPnl, ss_Trades = ts \<rparr>)"

definition GetWithTrades :: "pg_types \<Rightarrow> 'd decimal_ops \<Rightarrow> string \<Rightarrow> 'd SessionSummary stmt" where
  "GetWithTrades T D sessionID s =
     (case GetSession T sessionID s of
        (Inl e, s1) \<Rightarrow> (Inl e, s1)
      | (Inr sess, s1) \<Rightarrow>
          (case ListBySession T D sessionID s1 of
             (Inl e, s2) \<Rightarrow> (Inl e, s2)
           | (Inr ts, s2) \<Rightarrow> (Inr (summarize D sess ts), s2)))"

section \<open>Debriefs\<close>

record Debrief =
  de_DebriefID :: string
  de_SessionID :: string
  de_OverallMood :: string
  de_KeyMistake :: "string option"
  de_KeyLesson :: "string option"
  de_PlanAdherenceRating :: "int option"
  de_WillReviewTomorrow :: bool
  de_SavedAt :: time

definition empty_debrief :: Debrief where
  "empty_debrief = \<lparr>de_DebriefID = '''', de_SessionID = '''', de_OverallMood = '''', de_KeyMistake = None,
     de_KeyLesson = None, de_PlanAdherenceRating = None, de_WillReviewTomorrow = False, de_SavedAt = zero_time\<rparr>"

text \<open>The values \<open>$1\<close> to \<open>$6\<close> converted to the columns of migration 001, with the defaults.\<close>

definition debrief_to_row :: "pg_types \<Rightarrow> string \<Rightarrow> time \<Rightarrow> string \<Rightarrow> Debrief \<Rightarrow> debrief_row option" where
  "debrief_to_row T newid now sessionID d = do {
     sid \<leftarrow> pg_uuid T sessionID;
     if de_OverallMood d \<in> set emotion_enum \<and> \<not> ptr_and (de_KeyMistake d) (\<lambda>x. \<not> pg_text T x)
        \<and> \<not> ptr_and (de_KeyLesson d) (\<lambda>x. \<not> pg_text T x)
        \<and> \<not> ptr_and (de_PlanAdherenceRating d) (\<lambda>p. \<not> smallint_ok p)
     then Some \<lparr> db_DebriefID = newid, db_SessionID = sid, db_OverallMood = de_OverallMood d,
                 db_KeyMistake = de_KeyMistake d, db_KeyLesson = de_KeyLesson d,
                 db_PlanAdherenceRating = de_PlanAdherenceRating d,
                 db_WillReviewTomorrow = de_WillReviewTomorrow d, db_SavedAt = now \<rparr>
     else None }"

definition debrief_check :: "debrief_row \<Rightarrow> bool" where
  "debrief_check r \<longleftrightarrow> \<not> ptr_and (db_PlanAdherenceRating r) (\<lambda>p. \<not> (1 \<le> p \<and> p \<le> 5))"

text \<open>
  The key is the next UUID the server generates; a statement that finds no UUID left in the
  supply is refused. A failed statement inserts nothing.
\<close>

definition insert_debrief_row :: "pg_types \<Rightarrow> string \<Rightarrow> Debrief \<Rightarrow> debrief_row stmt" where
  "insert_debrief_row T sessionID d s =
     (case db_uuid_supply s of
        [] \<Rightarrow> (Inl (pg_error T InvalidInput), s)
      | newid # rest \<Rightarrow>
          (case debrief_to_row T newid (db_now s) sessionID d of
             None \<Rightarrow> (Inl (pg_error T InvalidInput), s)
           | Some row \<Rightarrow>
               if \<not> debrief_check row then (Inl (pg_error T CheckViolation), s\<lparr>db_uuid_supply := rest\<rparr>)
               else if tbl_lookup db_DebriefID newid (debriefs s) \<noteq> None
               then (Inl (pg_error T UniqueViolation), s\<lparr>db_uuid_supply := rest\<rparr>)
               else if tbl_lookup s_SessionID (db_SessionID row) (sessions s) = None
               then (Inl (pg_error T ForeignKeyViolation), s\<lparr>db_uuid_supply := rest\<rparr>)
               else (Inr row, s\<lparr>debriefs := debriefs s @ [row], db_uuid_supply := rest\<rparr>)))"

text \<open>\<open>RETURNING debrief_id, session_id, saved_at\<close> fills three fields of an empty result.\<close>

definition InsertDebrief :: "pg_types \<Rightarrow> string \<Rightarrow> Debrief \<Rightarrow> Debrief stmt" where
  "InsertDebrief T sessionID d s =
     (case pg_send T (insert_debrief_row T sessionID d) s of
        (Inl e, s1) \<Rightarrow> (Inl e, s1)
      | (Inr row, s1) \<Rightarrow>
          (Inr (empty_debrief\<lparr>de_DebriefID := db_DebriefID row, de_SessionID := db_SessionID row,
                              de_SavedAt := db_SavedAt row\<rparr>), s1))"

section \<open>Users\<close>

record User =
  us_UserID :: string
  us_Name :: string
  us_Role :: string
  us_Pathology :: "string option"

definition select_user :: "pg_types \<Rightarrow> string \<Rightarrow> User stmt" where
  "select_user T userID s =
     (case pg_uuid T userID of
        None \<Rightarrow> (Inl (pg_error T InvalidInput), s)
      | Some u \<Rightarrow> (case tbl_lookup u_UserID u (users s) of
                    None \<Rightarrow> (Inl ErrNoRows, s)
                  | Some r \<Rightarrow> (Inr \<lparr>us_UserID = u_UserID r, us_Name = u_Name r, us_Role = u_Role r,
                                  us_Pathology = u_Pathology r\<rparr>, s)))"

definition User_GetByID :: "pg_types \<Rightarrow> string \<Rightarrow> User stmt" where
  "User_GetByID T userID s =
     (case pg_send T (select_user T userID) s of
        (Inr u, s1) \<Rightarrow> (Inr u, s1)
      | (Inl e, s1) \<Rightarrow> if error_is e ErrNoRows then (Inl ErrNotFound, s1) else (Inl e, s1))"

section \<open>What the statements do to the database\<close>

text \<open>A query leaves everything but the fault script.\<close>

lemma select_session_state [simp]: "snd (select_session T x s) = s"
  by (simp add: select_session_def split: option.splits)

lemma select_user_state [simp]: "snd (select_user T x s) = s"
  by (simp add: select_user_def split: option.splits)

lemma session_reads_frame:
  assumes "\<And>s ds. V (s\<lparr>db_deliveries := ds\<rparr>) = V s"
  shows "V (snd (GetSession T x s)) = V s" "V (snd (User_GetByID T x s)) = V s"
    "V (snd (ListBySession T D x s)) = V s" "V (snd (GetWithTrades T D x s)) = V s"
proof -
  have send: "V (snd (pg_send T q s)) = V s" if "\<And>s. snd (q s) = s" for q :: "'x stmt" and s
    using assms that by (intro pg_send_keeps) simp_all
  have sess: "V (snd (GetSession T x s)) = V s" for s
    using send [of "select_session T x" s]
    by (cases "pg_send T (select_session T x) s") (auto simp: GetSession_def split: sum.splits)
  show "V (snd (GetSession T x s)) = V s" by (rule sess)
  show "V (snd (User_GetByID T x s)) = V s"
    using send [of "select_user T x" s]
    by (cases "pg_send T (select_user T x) s") (auto simp: User_GetByID_def split: sum.splits)
  have list: "V (snd (ListBySession T D x s)) = V s" for s
    unfolding ListBySession_def by (rule send) simp
  show "V (snd (ListBySession T D x s)) = V s" by (rule list)
  show "V (snd (GetWithTrades T D x s)) = V s"
  proof (cases "GetSession T x s")
    case (Pair r s1)
    then have v1: "V s1 = V s" using sess [of s] by simp
    show ?thesis
    proof (cases r)
      case (Inr sess)
      obtain r2 s2 where l: "ListBySession T D x s1 = (r2, s2)" by fastforce
      then have "V s2 = V s1" using list [of s1] by simp
      with Pair Inr l v1 show ?thesis by (cases r2) (simp_all add: GetWithTrades_def)
    qed (use Pair v1 in \<open>simp add: GetWithTrades_def\<close>)
  qed
qed

text \<open>What an error of these statements can be.\<close>

lemma select_session_Inl: "fst (select_session T x s) = Inl e \<Longrightarrow> e = ErrNoRows \<or> (\<exists>f. e = pg_error T f)"
  by (auto simp: select_session_def split: option.splits)

text \<open>On a connection that stays up, the answers are those of the tables.\<close>

lemma GetSession_up:
  assumes "db_deliveries s = []"
  shows "GetSession T x s =
    (case pg_uuid T x of None \<Rightarrow> (Inl (pg_error T InvalidInput), s)
     | Some u \<Rightarrow> (case tbl_lookup s_SessionID u (sessions s) of
                   None \<Rightarrow> (Inl ErrNotFound, s) | Some r \<Rightarrow> (Inr (scan_session r), s)))"
  using assms by (simp add: GetSession_def select_session_def split: option.splits)

text \<open>Whatever the connection does, a session that is answered is a row of the table.\<close>

lemma GetSession_Inr:
  assumes "GetSession T x s = (Inr sess, s')"
  shows "\<exists>u r. pg_uuid T x = Some u \<and> tbl_lookup s_SessionID u (sessions s) = Some r \<and> sess = scan_session r
    \<and> (\<exists>ds. s' = s\<lparr>db_deliveries := ds\<rparr>)"
proof -
  from assms have "pg_send T (select_session T x) s = (Inr sess, s')"
    by (auto simp: GetSession_def split: prod.splits sum.splits if_splits)
  then obtain ds where "select_session T x (s\<lparr>db_deliveries := ds\<rparr>) = (Inr sess, s')"
    by (metis pg_send_InrE)
  then show ?thesis by (auto simp: select_session_def split: option.splits)
qed

lemma ListBySession_Inr:
  assumes "ListBySession T D x s = (Inr ts, s')"
  shows "\<exists>u. pg_uuid T x = Some u \<and> ts = scanTradeRows D (sort_key EntryAt
           (filter (\<lambda>r. SessionID r = u) (pg_scan T (trades s))))"
proof -
  obtain ds where
    "select_by_uuid T x (\<lambda>u rows. scanTradeRows D (sort_key EntryAt (filter (\<lambda>r. SessionID r = u) rows)))
       (s\<lparr>db_deliveries := ds\<rparr>) = (Inr ts, s')"
    using pg_send_InrE [OF assms [unfolded ListBySession_def]] .
  then show ?thesis by (auto simp: select_by_uuid_def split: option.splits)
qed

section \<open>The summary\<close>

lemma add_trade_step:
  "add_trade D (p, n) t =
     ((case PnL t of None \<Rightarrow> p | Some x \<Rightarrow> dec_add D p x),
      (if Outcome t = Some ''win'' then n + 1 else n))"
  by (cases "Outcome t") (simp_all add: add_trade_def OutcomeWin_def)

lemma add_trade_fold:
  "foldl (add_trade D) (p, n) ts =
     (foldl (dec_add D) p (List.map_filter PnL ts),
      n + int (length (filter (\<lambda>t. Outcome t = Some ''win'') ts)))"
proof (induction ts arbitrary: p n)
  case (Cons t ts)
  show ?case
    by (cases "PnL t"; cases "Outcome t")
      (simp_all add: add_trade_step Cons.IH List.map_filter_simps)
qed (simp add: List.map_filter_simps)

lemma summarize_fields:
  "ss_Trades (summarize D sess ts) = ts" "ss_TradeCount (summarize D sess ts) = int (length ts)"
  "ss_UserID (summarize D sess ts) = se_UserID sess" "ss_SessionID (summarize D sess ts) = se_SessionID sess"
  "ss_TotalPnl (summarize D sess ts) = foldl (dec_add D) (dec_zero D) (List.map_filter PnL ts)"
  by (simp_all add: summarize_def add_trade_fold)

lemma summarize_win_rate:
  "ss_WinRate (summarize D sess ts) =
     (if ts = [] then Fin 0
      else f64_div (f64_of_int (int (length (filter (\<lambda>t. Outcome t = Some ''win'') ts)))) (f64_of_int (int (length ts))))"
  by (simp add: summarize_def add_trade_fold)

end
