(* ===== verification/Http.thy ===== *)
theory Http
  imports Session_Store
begin

text \<open>
  The HTTP side of the API: requests, the request context, the response writers, the JSON
  payloads the handlers send (\<open>handler/*.go\<close>, the response types), the response helpers of
  \<open>handler/response.go\<close>, and the tasks the handlers start with \<open>go\<close>. A payload is a value:
  its JSON text is a parameter of the handlers that need it.
\<close>

section \<open>Requests and their context (middleware/logger.go)\<close>

text \<open>\<open>Header.Get\<close>, \<open>URL.Query().Get\<close> and \<open>chi.URLParam\<close> give the empty string for a missing name.\<close>

record request =
  rq_method :: string
  rq_path :: string
  rq_authorization :: string
  rq_params :: "string strmap"
  rq_query :: "string strmap"
  rq_body :: string

definition URLParam :: "request \<Rightarrow> string \<Rightarrow> string" where "URLParam r k = opt_else '''' (rq_params r k)"
definition QueryGet :: "request \<Rightarrow> string \<Rightarrow> string" where "QueryGet r k = opt_else '''' (rq_query r k)"

text \<open>The two context values the middlewares set.\<close>

record reqctx =
  cx_traceId :: "string option"
  cx_userId :: "string option"

definition empty_ctx :: reqctx where "empty_ctx = \<lparr>cx_traceId = None, cx_userId = None\<rparr>"

definition TraceIDFromContext :: "reqctx \<Rightarrow> string" where
  "TraceIDFromContext c = (case cx_traceId c of Some v \<Rightarrow> v | None \<Rightarrow> '''')"

definition UserIDFromContext :: "reqctx \<Rightarrow> string" where
  "UserIDFromContext c = (case cx_userId c of Some v \<Rightarrow> v | None \<Rightarrow> '''')"

section \<open>Payloads\<close>

record ErrorResponse =
  err_Error :: string
  err_Message :: string
  err_TraceID :: string

record TimeseriesPoint =
  tp_Bucket :: time
  tp_TradeCount :: int
  tp_WinRate :: float64
  tp_PnL :: float64
  tp_AvgPlanAdherence :: float64

text \<open>The response map of GET metrics.\<close>

record MetricsResponse =
  mr_UserId :: string
  mr_Granularity :: string
  mr_From :: string
  mr_To :: string
  mr_PlanAdherenceScore :: float64
  mr_SessionTiltIndex :: float64
  mr_WinRateByEmotionalState :: "string \<Rightarrow> (int \<times> int \<times> float64) option"
  mr_RevengeTrades :: int
  mr_OvertradingEvents :: int
  mr_Timeseries :: "TimeseriesPoint list"

record Pathology =
  pa_Pathology :: string
  pa_Confidence :: float64
  pa_EvidenceSessions :: "string list"
  pa_EvidenceTrades :: "string list"

record PeakWindow =
  pw_StartHour :: int
  pw_EndHour :: int
  pw_WinRate :: float64

record ProfileResponse =
  pr_UserID :: string
  pr_GeneratedAt :: time
  pr_DominantPathologies :: "Pathology list"
  pr_Strengths :: "string list"
  pr_PeakPerformanceWindow :: PeakWindow

record HealthResponse =
  he_Status :: string
  he_DbConnection :: string
  he_QueueLag :: int
  he_Timestamp :: string

text \<open>The server-sent events of the coaching stream; the quoting of their text is left out.\<close>

datatype sse_event = TokenEvent string nat | DoneEvent string

datatype 'd payload =
    PError ErrorResponse
  | PTrade "'d Trade"
  | PSummary "'d SessionSummary"
  | PDebrief string string time  \<comment> \<open>debriefId, sessionId, savedAt\<close>
  | PMetrics MetricsResponse
  | PProfile ProfileResponse
  | PHealth HealthResponse
  | PBytes string                \<comment> \<open>bytes written as they are\<close>
  | PEvents "sse_event list"
  | PNone

section \<open>Responses (handler/response.go)\<close>

record 'd response =
  rs_status :: int
  rs_contentType :: string
  rs_payload :: "'d payload"

definition StatusOK :: int where "StatusOK = 200"
definition StatusCreated :: int where "StatusCreated = 201"
definition StatusBadRequest :: int where "StatusBadRequest = 400"
definition StatusUnauthorized :: int where "StatusUnauthorized = 401"
definition StatusForbidden :: int where "StatusForbidden = 403"
definition StatusNotFound :: int where "StatusNotFound = 404"
definition StatusInternalServerError :: int where "StatusInternalServerError = 500"

lemmas status_defs = StatusOK_def StatusCreated_def StatusBadRequest_def StatusUnauthorized_def
  StatusForbidden_def StatusNotFound_def StatusInternalServerError_def

definition respondJSON :: "int \<Rightarrow> 'd payload \<Rightarrow> 'd response" where
  "respondJSON status data = \<lparr>rs_status = status, rs_contentType = ''application/json'', rs_payload = data\<rparr>"

definition respondError :: "reqctx \<Rightarrow> int \<Rightarrow> string \<Rightarrow> string \<Rightarrow> 'd response" where
  "respondError c status errorCode message =
     (let traceID = TraceIDFromContext c
      in respondJSON status (PError \<lparr>err_Error = errorCode, err_Message = message, err_TraceID = traceID\<rparr>))"

definition respondForbidden :: "reqctx \<Rightarrow> 'd response" where
  "respondForbidden c = respondError c StatusForbidden ''FORBIDDEN'' ''Cross-tenant access denied.''"

definition respondNotFound :: "reqctx \<Rightarrow> string \<Rightarrow> 'd response" where
  "respondNotFound c message = respondError c StatusNotFound ''NOT_FOUND'' message"

definition respondBadRequest :: "reqctx \<Rightarrow> string \<Rightarrow> 'd response" where
  "respondBadRequest c message = respondError c StatusBadRequest ''BAD_REQUEST'' message"

text \<open>The bytes of a response that is written without a JSON encoder.\<close>

definition respondBytes :: "string \<Rightarrow> 'd response" where
  "respondBytes b = \<lparr>rs_status = StatusOK, rs_contentType = ''application/json'', rs_payload = PBytes b\<rparr>"

lemma respond_status [simp]:
  "rs_status (respondJSON n d) = n" "rs_status (respondError c n code m) = n"
  "rs_status (respondForbidden c) = 403" "rs_status (respondNotFound c m) = 404"
  "rs_status (respondBadRequest c m) = 400" "rs_status (respondBytes b) = 200"
  by (simp_all add: respondJSON_def respondError_def respondForbidden_def respondNotFound_def
      respondBadRequest_def respondBytes_def status_defs Let_def)

text \<open>An error response: it carries an error payload with the code and the trace of the request.\<close>

definition is_error :: "'d response \<Rightarrow> reqctx \<Rightarrow> int \<Rightarrow> string \<Rightarrow> bool" where
  "is_error r c status code \<longleftrightarrow>
     rs_status r = status \<and> rs_contentType r = ''application/json''
     \<and> (\<exists>m. rs_payload r = PError \<lparr>err_Error = code, err_Message = m, err_TraceID = TraceIDFromContext c\<rparr>)"

lemma is_error_respond [simp]:
  "is_error (respondError c status code m) c status code"
  "is_error (respondForbidden c) c 403 ''FORBIDDEN''"
  "is_error (respondNotFound c m) c 404 ''NOT_FOUND''"
  "is_error (respondBadRequest c m) c 400 ''BAD_REQUEST''"
  by (simp_all add: is_error_def respondError_def respondJSON_def respondForbidden_def respondNotFound_def
      respondBadRequest_def status_defs Let_def)

section \<open>The response writer of the logger\<close>

text \<open>
  \<open>responseWriter\<close> records the first status it sees in front of an inner writer, which is the
  list of calls it received.
\<close>

datatype 'd wcall = CallHeader int | CallWrite "'d payload" | CallFlush

record 'd responseWriter =
  statusCode :: int
  written :: bool
  inner :: "'d wcall list"

definition rw_WriteHeader :: "int \<Rightarrow> 'd responseWriter \<Rightarrow> 'd responseWriter" where
  "rw_WriteHeader code rw =
     (let rw1 = (if \<not> written rw then rw\<lparr>statusCode := code, written := True\<rparr> else rw)
      in rw1\<lparr>inner := inner rw1 @ [CallHeader code]\<rparr>)"

definition rw_Write :: "'d payload \<Rightarrow> 'd responseWriter \<Rightarrow> 'd responseWriter" where
  "rw_Write b rw =
     (let rw1 = (if \<not> written rw then rw\<lparr>statusCode := 200, written := True\<rparr> else rw)
      in rw1\<lparr>inner := inner rw1 @ [CallWrite b]\<rparr>)"

definition rw_Flush :: "'d responseWriter \<Rightarrow> 'd responseWriter" where
  "rw_Flush rw = rw\<lparr>inner := inner rw @ [CallFlush]\<rparr>"

fun rw_call :: "'d responseWriter \<Rightarrow> 'd wcall \<Rightarrow> 'd responseWriter" where
  "rw_call rw (CallHeader n) = rw_WriteHeader n rw"
| "rw_call rw (CallWrite b) = rw_Write b rw"
| "rw_call rw CallFlush = rw_Flush rw"

definition new_rw :: "'d responseWriter" where
  "new_rw = \<lparr>statusCode = 200, written = False, inner = []\<rparr>"

text \<open>
  The final status that \<open>net/http\<close> sends for a list of calls. A status from 100 to 199 other than
  101 is informational: it is sent at once and the final one is still to come; a code that is not
  of three digits panics (no status). Bytes or a flush in front of the final status send 200.
\<close>

definition informational :: "int \<Rightarrow> bool" where
  "informational n \<longleftrightarrow> 100 \<le> n \<and> n \<le> 199 \<and> n \<noteq> 101"

fun sent_status :: "'d wcall list \<Rightarrow> int option" where
  "sent_status [] = Some 200"
| "sent_status (CallHeader n # cs) =
     (if n < 100 \<or> 999 < n then None else if informational n then sent_status cs else Some n)"
| "sent_status (CallWrite b # cs) = Some 200"
| "sent_status (CallFlush # cs) = Some 200"

text \<open>The calls that write a response.\<close>

definition response_calls :: "'d response \<Rightarrow> 'd wcall list" where
  "response_calls r =
     CallHeader (rs_status r) # (case rs_payload r of PNone \<Rightarrow> [] | p \<Rightarrow> [CallWrite p])"

lemma rw_calls_inner: "inner (foldl rw_call rw cs) = inner rw @ cs"
proof (induction cs arbitrary: rw)
  case (Cons c cs)
  show ?case by (cases c) (simp_all add: Cons.IH rw_WriteHeader_def rw_Write_def rw_Flush_def Let_def)
qed simp

lemma rw_calls_status: "written rw \<Longrightarrow> statusCode (foldl rw_call rw cs) = statusCode rw"
proof (induction cs arbitrary: rw)
  case (Cons c cs)
  then show ?case by (cases c) (simp_all add: rw_WriteHeader_def rw_Write_def rw_Flush_def Let_def)
qed simp

lemma sent_not_informational: "sent_status cs = Some n \<Longrightarrow> \<not> informational n"
  by (induction cs rule: sent_status.induct) (auto simp: informational_def split: if_splits)

text \<open>The first header or write of a list of calls, by its status.\<close>

fun first_status :: "'d wcall list \<Rightarrow> int" where
  "first_status [] = 200"
| "first_status (CallHeader n # cs) = n"
| "first_status (CallWrite b # cs) = 200"
| "first_status (CallFlush # cs) = first_status cs"

lemma captured_status: "statusCode (foldl rw_call new_rw cs) = first_status cs"
proof -
  have "statusCode (foldl rw_call rw cs) = first_status cs" if "\<not> written rw" "statusCode rw = 200"
    for rw :: "'a responseWriter"
    using that
    by (induction cs arbitrary: rw rule: first_status.induct)
      (simp_all add: rw_calls_status rw_WriteHeader_def rw_Write_def rw_Flush_def Let_def)
  then show ?thesis by (simp add: new_rw_def)
qed

text \<open>
  C28: The logging writer forwards every call unchanged, and the status it captures is the final one
  that the client is sent, for every sequence of header, write and flush calls that does not
  panic and starts with none of the two things it overlooks: a flush in front of the header, which
  sends 200 while the writer goes on to capture a later header, and an informational header (100
  to 199 but 101), which the writer takes for the final status - in that case the captured
  status is wrong whatever follows.
\<close>

theorem responseWriter_captures:
  assumes "sent_status cs = Some n"
  shows "inner (foldl rw_call new_rw cs) = cs
    \<and> (case cs of
         CallHeader k # _ \<Rightarrow> statusCode (foldl rw_call new_rw cs) = k \<and> (k = n \<longleftrightarrow> \<not> informational k)
       | CallFlush # ds \<Rightarrow> n = 200 \<and> statusCode (foldl rw_call new_rw cs) = statusCode (foldl rw_call new_rw ds)
       | _ \<Rightarrow> statusCode (foldl rw_call new_rw cs) = n)"
proof -
  have "inner (foldl rw_call new_rw cs) = cs" by (simp only: rw_calls_inner) (simp add: new_rw_def)
  moreover have "k = n \<longleftrightarrow> \<not> informational k" if "cs = CallHeader k # ds" for k ds
    using that assms sent_not_informational [OF assms] by (auto split: if_splits)
  ultimately show ?thesis
    using assms by (simp only: captured_status) (auto split: list.splits wcall.splits)
qed

theorem responseWriter_captures_witness:
  "statusCode (foldl rw_call new_rw [CallHeader 201, CallWrite (PBytes ''x'' :: dec payload), CallFlush, CallHeader 500]) = 201
   \<and> statusCode (foldl rw_call new_rw [CallHeader 103, CallHeader 200 :: dec payload wcall]) = 103"
  using responseWriter_captures [of "[CallHeader 201, CallWrite (PBytes ''x'' :: dec payload), CallFlush, CallHeader 500]" 201]
    responseWriter_captures [of "[CallHeader 103, CallHeader 200 :: dec payload wcall]" 200]
  by (simp add: informational_def)

section \<open>Tasks started with go\<close>

text \<open>
  The side effects a handler starts in goroutines: they run after the response, in any order,
  with the request's context, which may be cancelled by then (a task may fail or be lost).
\<close>

datatype task =
    SetLastLossTask string int
  | PublishTask string "goval strmap"
  | AddNXTask string float64 string
  | CacheSetTask string string

fun run_task :: "'r redis_ops \<Rightarrow> task \<Rightarrow> 'r world \<Rightarrow> 'r world" where
  "run_task R (SetLastLossTask u n) w = snd (on_redis (SetLastLoss R u n) w)"
| "run_task R (PublishTask st vs) w = snd (on_redis (Stream_Add R st vs) w)"
| "run_task R (AddNXTask k x m) w = snd (on_redis (ZSet_AddNX R k x m) w)"
| "run_task R (CacheSetTask k b) w = snd (on_redis (Cache_Set R k b) w)"

lemma run_task_db [simp]: "w_db (run_task R t w) = w_db w"
  by (cases t) simp_all

text \<open>A handler answers a request with a response and the tasks it started.\<close>

type_synonym ('r, 'd) handler =
  "request \<Rightarrow> reqctx \<Rightarrow> 'r world \<Rightarrow> ('d response \<times> task list) \<times> 'r world"

end
