(* ===== verification/Auth.thy ===== *)
theory Auth
  imports Http "HOL-Library.Countable"
begin

text \<open>
  The middlewares: \<open>middleware/auth.go\<close> (bearer tokens), the logging middleware of
  \<open>middleware/logger.go\<close>, and the token generator \<open>cmd/jwtgen/main.go\<close>. The JWT package
  is outside the repository: its signing and parsing are a record of functions with a locale of
  their documented behaviour.
\<close>

section \<open>The JWT package\<close>

datatype claim = ClaimString string | ClaimInt int

datatype jwt_claims = MapClaims "(string \<times> claim) list" | OtherClaims

text \<open>\<open>token.Method\<close>: an HMAC method with its bits (HS256, HS384, HS512), or another one.\<close>

datatype signing_method = SigningMethodHMAC nat | OtherMethod string

record jwt_token =
  tok_method :: signing_method
  tok_valid :: bool
  tok_claims :: jwt_claims

type_synonym key_func = "signing_method \<Rightarrow> string + string"

record jwt_ops =
  jwt_sign :: "signing_method \<Rightarrow> string \<Rightarrow> (string \<times> claim) list \<Rightarrow> string"  \<comment> \<open>with a method and a key\<close>
  jwt_parse :: "time \<Rightarrow> string \<Rightarrow> key_func \<Rightarrow> string + jwt_token"
  jwt_verifies :: "signing_method \<Rightarrow> string \<Rightarrow> string \<Rightarrow> bool"
    \<comment> \<open>the token is signed with the method, and the key verifies its signature\<close>

text \<open>
  A token is JSON text: the laws of signing are stated for claims that it keeps as they are, which
  are ASCII texts (bytes that are not UTF-8 would be replaced) and integers that a float64 holds.
  An \<open>exp\<close> of 0 counts as none.
\<close>

definition ascii :: "string \<Rightarrow> bool" where
  "ascii s \<longleftrightarrow> list_all (\<lambda>c. (of_char c :: nat) < 128) s"

fun claim_plain :: "string \<times> claim \<Rightarrow> bool" where
  "claim_plain (k, ClaimString v) \<longleftrightarrow> ascii k \<and> ascii v"
| "claim_plain (k, ClaimInt n) \<longleftrightarrow> ascii k \<and> \<bar>n\<bar> \<le> 2 ^ 53"

definition hmac_methods :: "signing_method list" where
  "hmac_methods = map SigningMethodHMAC [256, 384, 512]"

locale jwt_library =
  fixes J :: jwt_ops
  assumes parse_signed: "a \<in> set hmac_methods \<Longrightarrow> kf a = Inr key \<Longrightarrow> list_all claim_plain cl
      \<Longrightarrow> map_of cl ''nbf'' = None
      \<Longrightarrow> (\<And>x. map_of cl ''exp'' = Some x \<Longrightarrow> \<exists>e. x = ClaimInt e \<and> now < time_unix e)
      \<Longrightarrow> jwt_parse J now (jwt_sign J a key cl) kf = Inr \<lparr>tok_method = a, tok_valid = True, tok_claims = MapClaims cl\<rparr>"
    and parse_expired: "a \<in> set hmac_methods \<Longrightarrow> kf a = Inr key \<Longrightarrow> list_all claim_plain cl
      \<Longrightarrow> map_of cl ''nbf'' = None
      \<Longrightarrow> map_of cl ''exp'' = Some (ClaimInt e) \<Longrightarrow> e \<noteq> 0 \<Longrightarrow> time_unix e \<le> now
      \<Longrightarrow> \<exists>m. jwt_parse J now (jwt_sign J a key cl) kf = Inl m \<and> contains m ''expired''"
    and parse_verified: "jwt_parse J now ts kf = Inr tok
      \<Longrightarrow> \<exists>key. kf (tok_method tok) = Inr key \<and> jwt_verifies J (tok_method tok) key ts"

section \<open>AuthMiddleware\<close>

definition respondAuthError :: "int \<Rightarrow> string \<Rightarrow> string \<Rightarrow> string \<Rightarrow> 'd response" where
  "respondAuthError status errorCode message traceID =
     \<lparr> rs_status = status, rs_contentType = ''application/json'',
       rs_payload = PBytes (''{\"error\":\"'' @ errorCode @ ''\",\"message\":\"'' @ message
                             @ ''\",\"traceId\":\"'' @ traceID @ ''\"}'') \<rparr>"

definition keyfunc :: "string \<Rightarrow> key_func" where
  "keyfunc secret a =
     (case a of SigningMethodHMAC _ \<Rightarrow> Inr secret | OtherMethod _ \<Rightarrow> Inl ''signature is invalid'')"

text \<open>Steps 2 and 3: the token is parsed and verified, and its subject extracted.\<close>

definition verify_token :: "jwt_ops \<Rightarrow> time \<Rightarrow> string \<Rightarrow> string \<Rightarrow> (string \<times> string) + string" where
  "verify_token J now secret tokenString =
     (case jwt_parse J now tokenString (keyfunc secret) of
        Inl err \<Rightarrow>
          if contains err ''expired'' then Inl (''TOKEN_EXPIRED'', ''Token has expired'')
          else Inl (''UNAUTHORIZED'', ''Invalid token'')
      | Inr token \<Rightarrow>
          if \<not> tok_valid token then Inl (''UNAUTHORIZED'', ''Invalid token'')
          else (case tok_claims token of
                  OtherClaims \<Rightarrow> Inl (''UNAUTHORIZED'', ''Invalid token claims'')
                | MapClaims claims \<Rightarrow>
                    (case map_of claims ''sub'' of
                       Some (ClaimString sub) \<Rightarrow>
                         if sub = '''' then Inl (''UNAUTHORIZED'', ''Missing sub claim'') else Inr sub
                     | _ \<Rightarrow> Inl (''UNAUTHORIZED'', ''Missing sub claim''))))"

definition AuthMiddleware :: "jwt_ops \<Rightarrow> time \<Rightarrow> string \<Rightarrow> ('r, 'd) handler \<Rightarrow> ('r, 'd) handler" where
  "AuthMiddleware J now secret nxt r c w =
     (let traceID = TraceIDFromContext c;
          authHeader = rq_authorization r;
          unauthorized = (\<lambda>code message. ((respondAuthError StatusUnauthorized code message traceID, []), w));
          parts = splitn2_space authHeader
      in if authHeader = '''' then unauthorized ''UNAUTHORIZED'' ''Missing Authorization header''
         else if length parts \<noteq> 2 \<or> \<not> equal_fold (parts ! 0) ''Bearer''
         then unauthorized ''UNAUTHORIZED'' ''Invalid Authorization header format''
         else (case verify_token J now secret (parts ! 1) of
                 Inl (code, message) \<Rightarrow> unauthorized code message
               | Inr sub \<Rightarrow> nxt r (c\<lparr>cx_userId := Some sub\<rparr>) w))"

text \<open>A header that authenticates a subject under the secret at a time.\<close>

definition authenticates :: "jwt_ops \<Rightarrow> time \<Rightarrow> string \<Rightarrow> string \<Rightarrow> string \<Rightarrow> bool" where
  "authenticates J now secret header sub \<longleftrightarrow>
     (\<exists>scheme ts token claims. splitn2_space header = [scheme, ts] \<and> equal_fold scheme ''Bearer''
        \<and> jwt_parse J now ts (keyfunc secret) = Inr token \<and> tok_valid token
        \<and> tok_claims token = MapClaims claims \<and> map_of claims ''sub'' = Some (ClaimString sub) \<and> sub \<noteq> '''')"

lemma verify_token_Inr:
  "verify_token J now secret ts = Inr sub \<longleftrightarrow>
     (\<exists>token claims. jwt_parse J now ts (keyfunc secret) = Inr token \<and> tok_valid token
        \<and> tok_claims token = MapClaims claims \<and> map_of claims ''sub'' = Some (ClaimString sub) \<and> sub \<noteq> [])"
  by (auto simp: verify_token_def split: sum.splits jwt_claims.splits option.splits claim.splits if_splits)

lemma authenticates_iff:
  "authenticates J now secret header sub \<longleftrightarrow>
     (\<exists>scheme ts. splitn2_space header = [scheme, ts] \<and> equal_fold scheme ''Bearer''
        \<and> verify_token J now secret ts = Inr sub)"
  by (auto simp: authenticates_def verify_token_Inr)

lemma splitn2_space_cases: "length (splitn2_space s) = 2 \<longleftrightarrow> (\<exists>a b. splitn2_space s = [a, b])"
  by (auto simp: splitn2_space_def Let_def)

lemma splitn2_space_join: "splitn2_space s = [a, b] \<Longrightarrow> s = a @ '' '' @ b"
proof -
  let ?a = "takeWhile (\<lambda>c. c \<noteq> CHR '' '') s"
  assume "splitn2_space s = [a, b]"
  then have ab: "length ?a \<noteq> length s" "a = ?a" "b = drop (Suc (length ?a)) s"
    by (auto simp: splitn2_space_def Let_def split: if_splits)
  have "length ?a < length s" using ab(1) length_takeWhile_le [of "\<lambda>c. c \<noteq> CHR '' ''" s] by linarith
  from nth_length_takeWhile [OF this] have "s ! length ?a = CHR '' ''" by simp
  with \<open>length ?a < length s\<close> have "drop (length ?a) s = CHR '' '' # drop (Suc (length ?a)) s"
    by (metis Cons_nth_drop_Suc)
  moreover have "?a @ drop (length ?a) s = s" by (metis takeWhile_eq_take append_take_drop_id)
  ultimately show ?thesis using ab by simp
qed

lemma AuthMiddleware_cases:
  obtains (passed) sub where "authenticates J now secret (rq_authorization r) sub"
      "AuthMiddleware J now secret nxt r c w = nxt r (c\<lparr>cx_userId := Some sub\<rparr>) w"
  | (refused) code m where "\<And>sub. \<not> authenticates J now secret (rq_authorization r) sub"
      "AuthMiddleware J now secret nxt r c w
        = ((respondAuthError 401 code m (TraceIDFromContext c), []), w)"
proof (cases "\<exists>scheme ts. splitn2_space (rq_authorization r) = [scheme, ts] \<and> equal_fold scheme ''Bearer''")
  case False
  then have "rq_authorization r = [] \<or> length (splitn2_space (rq_authorization r)) \<noteq> 2
      \<or> \<not> equal_fold (splitn2_space (rq_authorization r) ! 0) ''Bearer''"
    using splitn2_space_cases [of "rq_authorization r"] by auto
  then obtain code m where "AuthMiddleware J now secret nxt r c w
      = ((respondAuthError 401 code m (TraceIDFromContext c), []), w)"
    unfolding AuthMiddleware_def Let_def StatusUnauthorized_def by metis
  with False show thesis by (intro refused) (auto simp: authenticates_iff)
next
  case True
  then obtain scheme ts where sp: "splitn2_space (rq_authorization r) = [scheme, ts]"
    and b: "equal_fold scheme ''Bearer''" by blast
  then have "rq_authorization r \<noteq> []" by (auto simp: splitn2_space_def)
  with sp b have am: "AuthMiddleware J now secret nxt r c w =
      (case verify_token J now secret ts of
         Inl (code, m) \<Rightarrow> ((respondAuthError 401 code m (TraceIDFromContext c), []), w)
       | Inr sub \<Rightarrow> nxt r (c\<lparr>cx_userId := Some sub\<rparr>) w)"
    by (simp add: AuthMiddleware_def Let_def StatusUnauthorized_def)
  show thesis
  proof (cases "verify_token J now secret ts")
    case (Inl e)
    with am sp show thesis by (cases e) (intro refused, auto simp: authenticates_iff)
  next
    case (Inr sub)
    with am sp b show thesis by (intro passed) (auto simp: authenticates_iff)
  qed
qed

section \<open>The logging middleware\<close>

text \<open>A log line, without its latency.\<close>

record log_entry =
  log_traceId :: string
  log_userId :: string
  log_method :: string
  log_path :: string
  log_statusCode :: int

definition Logger :: "string \<Rightarrow> ('r, 'd) handler \<Rightarrow> request \<Rightarrow> reqctx \<Rightarrow> 'r world
    \<Rightarrow> (('d response \<times> task list) \<times> 'r world) \<times> log_entry" where
  "Logger traceID nxt r c0 w =
     (let ctx = c0\<lparr>cx_traceId := Some traceID\<rparr>;
          result = nxt r ctx w;
          rw = foldl rw_call new_rw (response_calls (fst (fst result)));
          userID = (case cx_userId ctx of Some uid \<Rightarrow> uid | None \<Rightarrow> '''')
      in (result, \<lparr> log_traceId = traceID, log_userId = userID, log_method = rq_method r,
                    log_path = rq_path r, log_statusCode = statusCode rw \<rparr>))"

section \<open>The token generator (cmd/jwtgen/main.go)\<close>

text \<open>The constant the generator signs with, and the API's default for \<open>JWT_SECRET\<close> (\<open>cmd/api/main.go\<close>).\<close>

definition jwtgen_secret :: string where
  "jwtgen_secret = ''97791d4db2aa5f689c3cc39356ce35762f0a73aa70923039d8ef72a2840a1b02''"

definition default_secret :: string where
  "default_secret = ''97791d4db2aa5f689c3cc39356ce35762f0a73aa70923039d8ef72a2840a1b02''"

text \<open>\<open>os.Args[1]\<close> panics without an argument.\<close>

definition jwtgen_main :: "jwt_ops \<Rightarrow> time \<Rightarrow> string list \<Rightarrow> string option" where
  "jwtgen_main J now args =
     (case args of
        prog # sub # rest \<Rightarrow>
          Some (jwt_sign J (SigningMethodHMAC 256) jwtgen_secret
            [(''sub'', ClaimString sub), (''role'', ClaimString ''trader''),
             (''iat'', ClaimInt (unix now)), (''exp'', ClaimInt (unix (now + hour)))])
      | _ \<Rightarrow> None)"

section \<open>A reference JWT package\<close>

text \<open>A token names its key and claims by a number, and is parsed back from it.\<close>

instance claim :: countable by countable_datatype
instance signing_method :: countable by countable_datatype

definition ref_sign :: "signing_method \<Rightarrow> string \<Rightarrow> (string \<times> claim) list \<Rightarrow> string" where
  "ref_sign a key cl = utoa (to_nat (a, key, cl))"

definition ref_parse :: "time \<Rightarrow> string \<Rightarrow> key_func \<Rightarrow> string + jwt_token" where
  "ref_parse now ts kf =
     (let (a, key, cl) = (from_nat (digits_val ts) :: signing_method \<times> string \<times> (string \<times> claim) list);
          tok = \<lparr>tok_method = a, tok_valid = True, tok_claims = MapClaims cl\<rparr>
      in case kf a of
           Inl e \<Rightarrow> Inl ''token is unverifiable''
         | Inr k \<Rightarrow>
             if ts \<noteq> ref_sign a k cl then Inl ''signature is invalid''
             else (case map_of cl ''exp'' of
                     Some (ClaimInt e) \<Rightarrow> if e = 0 \<or> now < time_unix e then Inr tok else Inl ''token is expired''
                   | Some (ClaimString x) \<Rightarrow> Inl ''invalid type for claim''
                   | None \<Rightarrow> Inr tok))"

definition ref_jwt :: jwt_ops where
  "ref_jwt = \<lparr>jwt_sign = ref_sign, jwt_parse = ref_parse, jwt_verifies = (\<lambda>a key ts. \<exists>cl. ts = ref_sign a key cl)\<rparr>"

lemma ref_parse_sign:
  "kf a = Inr key \<Longrightarrow> ref_parse now (ref_sign a key cl) kf =
     (case map_of cl ''exp'' of
        Some (ClaimInt e) \<Rightarrow>
          if e = 0 \<or> now < time_unix e then Inr \<lparr>tok_method = a, tok_valid = True, tok_claims = MapClaims cl\<rparr>
          else Inl ''token is expired''
      | Some (ClaimString x) \<Rightarrow> Inl ''invalid type for claim''
      | None \<Rightarrow> Inr \<lparr>tok_method = a, tok_valid = True, tok_claims = MapClaims cl\<rparr>)"
  by (simp add: ref_parse_def ref_sign_def Let_def split del: if_split)

interpretation ref_jwt: jwt_library ref_jwt
proof
  show "jwt_parse ref_jwt now (jwt_sign ref_jwt a key cl) kf = Inr \<lparr>tok_method = a, tok_valid = True, tok_claims = MapClaims cl\<rparr>"
    if "kf a = Inr key" "\<And>x. map_of cl ''exp'' = Some x \<Longrightarrow> \<exists>e. x = ClaimInt e \<and> now < time_unix e"
    for now a key cl kf
    using that(2) by (auto simp: ref_jwt_def ref_parse_sign [where kf = kf, OF that(1)] split: option.splits claim.splits)
  show "\<exists>m. jwt_parse ref_jwt now (jwt_sign ref_jwt a key cl) kf = Inl m \<and> contains m ''expired''"
    if "kf a = Inr key" "map_of cl ''exp'' = Some (ClaimInt e)" "e \<noteq> 0" "time_unix e \<le> now" for now a key cl kf e
    using that(2-) by (simp add: ref_jwt_def ref_parse_sign [where kf = kf, OF that(1)])
  show "\<exists>key. kf (tok_method tok) = Inr key \<and> jwt_verifies ref_jwt (tok_method tok) key ts"
    if "jwt_parse ref_jwt now ts kf = Inr tok" for now ts kf tok
    using that by (auto simp: ref_jwt_def ref_parse_def Let_def split: prod.splits sum.splits if_splits option.splits claim.splits)
qed

section \<open>Properties\<close>

text \<open>A request with a bearer token that the generator printed.\<close>

definition bearer :: "string \<Rightarrow> request \<Rightarrow> request" where
  "bearer ts r = r\<lparr>rq_authorization := ''Bearer '' @ ts\<rparr>"

definition ex_request :: request where
  "ex_request = \<lparr>rq_method = ''GET'', rq_path = ''/trades/x'', rq_authorization = '''', rq_params = Map.empty,
     rq_query = Map.empty, rq_body = ''''\<rparr>"

text \<open>A handler that always answers 200 with an empty body.\<close>

definition ok_handler :: "('r, 'd) handler" where
  "ok_handler r c w = ((respondJSON 200 PNone, []), w)"

lemma bearer_split: "splitn2_space (''Bearer '' @ ts) = [''Bearer'', ts]"
  by (simp add: splitn2_space_def Let_def)

lemma authenticates_bearer:
  "authenticates J now secret (''Bearer '' @ ts) sub \<longleftrightarrow> verify_token J now secret ts = Inr sub"
  using bearer_split [of ts] by (simp only: authenticates_iff) (auto simp: equal_fold_def)

text \<open>A bearer token is answered as it verifies.\<close>

lemma AuthMiddleware_bearer:
  "AuthMiddleware J now secret nxt (bearer ts r) c w =
     (case verify_token J now secret ts of
        Inl (code, m) \<Rightarrow> ((respondAuthError 401 code m (TraceIDFromContext c), []), w)
      | Inr sub \<Rightarrow> nxt (bearer ts r) (c\<lparr>cx_userId := Some sub\<rparr>) w)"
  unfolding AuthMiddleware_def Let_def StatusUnauthorized_def
  using bearer_split [of ts] by (simp add: bearer_def equal_fold_def)

text \<open>A token that is signed with the secret verifies until it expires.\<close>

lemma verify_signed:
  assumes "jwt_library J" "a \<in> set hmac_methods" "list_all claim_plain cl" "map_of cl ''nbf'' = None"
    and "\<And>x. map_of cl ''exp'' = Some x \<Longrightarrow> \<exists>e. x = ClaimInt e \<and> now < time_unix e"
    and "map_of cl ''sub'' = Some (ClaimString sub)" "sub \<noteq> ''''"
  shows "verify_token J now secret (jwt_sign J a secret cl) = Inr sub"
proof -
  have "keyfunc secret a = Inr secret" using assms(2) by (auto simp: keyfunc_def hmac_methods_def)
  from jwt_library.parse_signed [where kf = "keyfunc secret", OF assms(1,2) this assms(3,4,5)] assms(6,7)
  show ?thesis by (simp add: verify_token_def)
qed

text \<open>
  C8: A protected handler runs only behind a verified token: if the Authorization header is a
  Bearer token that parses under the server's secret and names a non-empty subject, the handler
  runs with that subject in its context, and the token's signature is valid for the secret under
  an HMAC method; otherwise the answer is 401, the handler is not run, no task is started and
  both servers are untouched. Being valid asks less than the documents do (HS256, with \<open>iat\<close>,
  \<open>exp\<close> and \<open>role\<close> required): a token signed with HS384 or HS512 passes, and so does one that
  has nothing but a subject, and so never expires.
\<close>

theorem AuthMiddleware_gate:
  assumes "jwt_library J"
  shows "(if \<exists>sub. authenticates J now secret (rq_authorization r) sub
      then \<exists>sub ts bits. authenticates J now secret (rq_authorization r) sub
        \<and> rq_authorization r \<in> {scheme @ '' '' @ ts |scheme. equal_fold scheme ''Bearer''}
        \<and> jwt_verifies J (SigningMethodHMAC bits) secret ts
        \<and> AuthMiddleware J now secret nxt r c w = nxt r (c\<lparr>cx_userId := Some sub\<rparr>) w
      else \<exists>code m. AuthMiddleware J now secret nxt r c w
          = ((respondAuthError 401 code m (TraceIDFromContext c), []), w))
    \<and> (\<forall>a \<in> set hmac_methods. \<forall>sub. sub \<noteq> '''' \<and> ascii sub
         \<longrightarrow> authenticates J now secret (''Bearer '' @ jwt_sign J a secret [(''sub'', ClaimString sub)]) sub)"
proof (rule conjI)
  show "if \<exists>sub. authenticates J now secret (rq_authorization r) sub
      then \<exists>sub ts bits. authenticates J now secret (rq_authorization r) sub
        \<and> rq_authorization r \<in> {scheme @ '' '' @ ts |scheme. equal_fold scheme ''Bearer''}
        \<and> jwt_verifies J (SigningMethodHMAC bits) secret ts
        \<and> AuthMiddleware J now secret nxt r c w = nxt r (c\<lparr>cx_userId := Some sub\<rparr>) w
      else \<exists>code m. AuthMiddleware J now secret nxt r c w
          = ((respondAuthError 401 code m (TraceIDFromContext c), []), w)"
  proof (rule AuthMiddleware_cases [of J now secret r nxt c w])
    fix sub assume a: "authenticates J now secret (rq_authorization r) sub"
      and run: "AuthMiddleware J now secret nxt r c w = nxt r (c\<lparr>cx_userId := Some sub\<rparr>) w"
    from a obtain scheme ts token where sp: "splitn2_space (rq_authorization r) = [scheme, ts]"
      and b: "equal_fold scheme ''Bearer''" and p: "jwt_parse J now ts (keyfunc secret) = Inr token"
      by (auto simp: authenticates_def)
    have "\<exists>bits. jwt_verifies J (SigningMethodHMAC bits) secret ts"
      using jwt_library.parse_verified [OF assms p] by (auto simp: keyfunc_def split: signing_method.splits)
    moreover have "rq_authorization r = scheme @ '' '' @ ts"
      by (rule splitn2_space_join [OF sp])
    ultimately show ?thesis using a run b by auto
  qed auto
  show "\<forall>a \<in> set hmac_methods. \<forall>sub. sub \<noteq> '''' \<and> ascii sub
      \<longrightarrow> authenticates J now secret (''Bearer '' @ jwt_sign J a secret [(''sub'', ClaimString sub)]) sub"
  proof (intro ballI allI impI)
    fix a sub assume a: "a \<in> set hmac_methods" and sub: "sub \<noteq> '''' \<and> ascii sub"
    have "verify_token J now secret (jwt_sign J a secret [(''sub'', ClaimString sub)]) = Inr sub"
      by (rule verify_signed [OF assms a]) (use sub in \<open>simp_all add: ascii_def\<close>)
    then show "authenticates J now secret (''Bearer '' @ jwt_sign J a secret [(''sub'', ClaimString sub)]) sub"
      by (simp only: authenticates_bearer)
  qed
qed

theorem AuthMiddleware_gate_witness:
  "(\<exists>code m. AuthMiddleware ref_jwt 0 ''key'' ok_handler ex_request empty_ctx ex_world
     = ((respondAuthError 401 code m (TraceIDFromContext empty_ctx) :: dec response, []), ex_world))
   \<and> authenticates ref_jwt 0 ''key''
       (''Bearer '' @ jwt_sign ref_jwt (SigningMethodHMAC 384) ''key'' [(''sub'', ClaimString ''alice'')]) ''alice''"
proof -
  have "\<not> authenticates ref_jwt 0 ''key'' (rq_authorization ex_request) sub" for sub
    by (simp add: authenticates_def ex_request_def splitn2_space_def)
  moreover have "SigningMethodHMAC 384 \<in> set hmac_methods" "ascii ''alice''" by (simp_all add: hmac_methods_def ascii_def)
  ultimately show ?thesis
    using AuthMiddleware_gate [OF ref_jwt.jwt_library_axioms, of 0 "''key''" ex_request ok_handler empty_ctx ex_world]
    by (simp only: ex_simps simp_thms if_False) blast
qed

text \<open>The claims of a generated token, by a clock between 1970 and the end of the integers of a float64.\<close>

definition jwtgen_claims :: "time \<Rightarrow> string \<Rightarrow> (string \<times> claim) list" where
  "jwtgen_claims t0 sub = [(''sub'', ClaimString sub), (''role'', ClaimString ''trader''),
     (''iat'', ClaimInt (unix t0)), (''exp'', ClaimInt (unix (t0 + hour)))]"

definition clock_ok :: "time \<Rightarrow> bool" where "clock_ok t0 \<longleftrightarrow> 0 \<le> t0 \<and> t0 \<le> 2 ^ 62"

lemma jwtgen_claims_plain:
  assumes "ascii sub" "clock_ok t0"
  shows "list_all claim_plain (jwtgen_claims t0 sub)" "unix (t0 + hour) \<noteq> 0"
proof -
  have "unix t0 \<le> unix (t0 + hour)" "0 \<le> unix t0" "unix (t0 + hour) \<le> 2 ^ 53" "0 < unix (t0 + hour)"
    using assms(2) unfolding clock_ok_def unix_def duration_defs by (simp_all, linarith+)
  then show "list_all claim_plain (jwtgen_claims t0 sub)" "unix (t0 + hour) \<noteq> 0"
    using assms(1) by (simp_all add: jwtgen_claims_def ascii_def)
qed

lemma secrets_agree: "jwtgen_secret = default_secret"
  by (simp add: jwtgen_secret_def default_secret_def)

lemma jwtgen_token:
  "jwtgen_main J t0 [prog, sub] = Some ts \<longleftrightarrow> ts = jwt_sign J (SigningMethodHMAC 256) default_secret (jwtgen_claims t0 sub)"
  by (auto simp: jwtgen_main_def jwtgen_claims_def secrets_agree)

lemma jwtgen_verified:
  assumes "jwt_library J" "jwtgen_main J t0 [prog, sub] = Some ts" "sub \<noteq> ''''" "ascii sub" "clock_ok t0"
    and "now < time_unix (unix (t0 + hour))"
  shows "verify_token J now default_secret ts = Inr sub"
  using assms(2) unfolding jwtgen_token
  by (simp only:, intro verify_signed [OF assms(1)])
    (use assms(3,6) jwtgen_claims_plain [OF assms(4,5)] in \<open>auto simp: jwtgen_claims_def hmac_methods_def\<close>)

text \<open>
  C26: The token that \<open>jwtgen\<close> prints for a subject of ASCII text passes the middleware of an API that runs
  with the default secret, as that subject, until its \<open>exp\<close> time one hour later (whole
  seconds); from that time on it is answered with 401 TOKEN_EXPIRED. The documents ask for
  24 hours: a generated token is refused for the 23 hours in which they still accept it.
\<close>

theorem jwtgen_accepted:
  assumes "jwt_library J" and gen: "jwtgen_main J t0 [prog, sub] = Some ts" and "sub \<noteq> ''''" "ascii sub" "clock_ok t0"
  shows "AuthMiddleware J now default_secret nxt (bearer ts r) c w =
    (if now < time_unix (unix (t0 + hour))
     then nxt (bearer ts r) (c\<lparr>cx_userId := Some sub\<rparr>) w
     else ((respondAuthError 401 ''TOKEN_EXPIRED'' ''Token has expired'' (TraceIDFromContext c), []), w))"
proof (cases "now < time_unix (unix (t0 + hour))")
  case True
  with jwtgen_verified [OF assms True] show ?thesis by (simp add: AuthMiddleware_bearer)
next
  case False
  have kf: "SigningMethodHMAC 256 \<in> set hmac_methods" "keyfunc default_secret (SigningMethodHMAC 256) = Inr default_secret"
    by (simp_all add: hmac_methods_def keyfunc_def)
  note plain = jwtgen_claims_plain [OF assms(4,5)]
  obtain m where "jwt_parse J now ts (keyfunc default_secret) = Inl m" "contains m ''expired''"
    using jwt_library.parse_expired [where kf = "keyfunc default_secret", OF assms(1) kf plain(1), of "unix (t0 + hour)" now]
      False gen plain(2)
    by (auto simp: jwtgen_token jwtgen_claims_def)
  with False show ?thesis by (simp add: AuthMiddleware_bearer verify_token_def)
qed

theorem jwtgen_accepted_witness:
  "\<exists>ts. AuthMiddleware ref_jwt (ex_time + 60 * second) default_secret ok_handler (bearer ts ex_request) empty_ctx ex_world
       = ((respondJSON 200 PNone :: dec response, []), ex_world)
     \<and> AuthMiddleware ref_jwt (ex_time + 2 * hour) default_secret ok_handler (bearer ts ex_request) empty_ctx ex_world
       = ((respondAuthError 401 ''TOKEN_EXPIRED'' ''Token has expired'' '''' :: dec response, []), ex_world)"
proof -
  obtain ts where ts: "jwtgen_main ref_jwt ex_time [''jwtgen'', alice] = Some ts" by (simp add: jwtgen_main_def)
  have now: "ex_time + 60 * second < time_unix (unix (ex_time + hour))" "\<not> ex_time + 2 * hour < time_unix (unix (ex_time + hour))"
    by (simp_all add: ex_time_def time_unix_def unix_def duration_defs)
  have pre: "alice \<noteq> ''''" "ascii alice" "clock_ok ex_time"
    by (simp_all add: alice_def ascii_def clock_ok_def ex_time_def)
  note run = jwtgen_accepted [OF ref_jwt.jwt_library_axioms ts pre]
  show ?thesis
    by (intro exI [of _ ts]) (simp add: run now ok_handler_def empty_ctx_def TraceIDFromContext_def)
qed

text \<open>
  The log line of a request names the status that the client was sent and the trace ID that
  the handler saw, but its user ID is the one of the context in front of the middleware, which
  the authentication behind it cannot change: for every request of the server (whose base
  context has no user) it is empty, authenticated or not.
\<close>

lemma Logger_line:
  "fst (Logger traceID (AuthMiddleware J now secret nxt) r empty_ctx w)
     = AuthMiddleware J now secret nxt r (empty_ctx\<lparr>cx_traceId := Some traceID\<rparr>) w
   \<and> log_statusCode (snd (Logger traceID (AuthMiddleware J now secret nxt) r empty_ctx w))
     = rs_status (fst (fst (fst (Logger traceID (AuthMiddleware J now secret nxt) r empty_ctx w))))
   \<and> log_traceId (snd (Logger traceID (AuthMiddleware J now secret nxt) r empty_ctx w)) = traceID
   \<and> log_userId (snd (Logger traceID (AuthMiddleware J now secret nxt) r empty_ctx w)) = ''''"
proof -
  have "statusCode (foldl rw_call new_rw (response_calls resp)) = rs_status resp" for resp :: "'a response"
    by (simp add: response_calls_def rw_calls_status rw_WriteHeader_def new_rw_def Let_def)
  then show ?thesis by (simp add: Logger_def Let_def empty_ctx_def)
qed

end
