(* ===== verification/Coaching.thy ===== *)
theory Coaching
  imports Http
begin

text \<open>
  The coaching message of \<open>handler/session.go\<close>: its text (\<open>generateCoachingMessage\<close>), its
  words (\<open>tokenize\<close>, that is \<open>strings.Fields\<close>), and the loop that streams them as events
  until the client goes away.
\<close>

section \<open>strings.Fields\<close>

text \<open>
  The number of bytes of the white space that a byte sequence starts with, zero when it starts
  with something else: the ASCII spaces and the UTF-8 encodings of the other runes of
  \<open>unicode.IsSpace\<close> (U+0085, U+00A0, U+1680, U+2000 to U+200A, U+2028, U+2029, U+202F,
  U+205F, U+3000). The lead bytes do not occur inside other UTF-8 sequences.
\<close>

definition space1 :: "nat \<Rightarrow> bool" where "space1 a \<longleftrightarrow> a = 32 \<or> (9 \<le> a \<and> a \<le> 13)"
definition space2 :: "nat \<Rightarrow> nat \<Rightarrow> bool" where "space2 a b \<longleftrightarrow> a = 0xC2 \<and> (b = 0x85 \<or> b = 0xA0)"
definition space3 :: "nat \<Rightarrow> nat \<Rightarrow> nat \<Rightarrow> bool" where
  "space3 a b c \<longleftrightarrow> (a = 0xE1 \<and> b = 0x9A \<and> c = 0x80)
     \<or> (a = 0xE2 \<and> b = 0x80 \<and> (0x80 \<le> c \<and> c \<le> 0x8A \<or> c = 0xA8 \<or> c = 0xA9 \<or> c = 0xAF))
     \<or> (a = 0xE2 \<and> b = 0x81 \<and> c = 0x9F) \<or> (a = 0xE3 \<and> b = 0x80 \<and> c = 0x80)"

fun space_len :: "string \<Rightarrow> nat" where
  "space_len [] = 0"
| "space_len [a] = (if space1 (of_char a) then 1 else 0)"
| "space_len [a, b] = (if space1 (of_char a) then 1 else if space2 (of_char a) (of_char b) then 2 else 0)"
| "space_len (a # b # c # s) =
     (if space1 (of_char a) then 1 else if space2 (of_char a) (of_char b) then 2
      else if space3 (of_char a) (of_char b) (of_char c) then 3 else 0)"

lemma space_len_le: "space_len s \<le> length s"
  by (cases s rule: space_len.cases) simp_all

text \<open>The word in progress is closed at a white space and at the end.\<close>

definition word_end :: "string \<Rightarrow> string list" where "word_end acc = (if acc = [] then [] else [acc])"

function fields :: "string \<Rightarrow> string \<Rightarrow> string list" where
  "fields acc s =
     (case s of [] \<Rightarrow> word_end acc
      | c # cs \<Rightarrow> if space_len s = 0 then fields (acc @ [c]) cs
                  else word_end acc @ fields [] (drop (space_len s) s))"
  by pat_completeness auto
termination
  by (relation "measure (\<lambda>(acc, s). length s)") (auto simp: less_Suc_eq_le)

declare fields.simps [simp del]

lemma fields_simps [simp]:
  "fields acc [] = word_end acc"
  "space_len (c # cs) = 0 \<Longrightarrow> fields acc (c # cs) = fields (acc @ [c]) cs"
  "space_len (c # cs) \<noteq> 0 \<Longrightarrow> fields acc (c # cs) = word_end acc @ fields [] (drop (space_len (c # cs)) (c # cs))"
  by (subst fields.simps, simp)+

definition tokenize :: "string \<Rightarrow> string list" where
  "tokenize message = fields [] message"

text \<open>A byte sequence in which no white space starts.\<close>

fun no_space :: "string \<Rightarrow> bool" where
  "no_space [] \<longleftrightarrow> True"
| "no_space (c # cs) \<longleftrightarrow> space_len (c # cs) = 0 \<and> no_space cs"

text \<open>The text without its white space.\<close>

function strip_space :: "string \<Rightarrow> string" where
  "strip_space s =
     (case s of [] \<Rightarrow> [] | c # cs \<Rightarrow> if space_len s = 0 then c # strip_space cs else strip_space (drop (space_len s) s))"
  by pat_completeness auto
termination by (relation "measure length") (auto simp: less_Suc_eq_le)

declare strip_space.simps [simp del]

lemma strip_space_simps [simp]:
  "strip_space [] = []"
  "space_len (c # cs) = 0 \<Longrightarrow> strip_space (c # cs) = c # strip_space cs"
  "space_len (c # cs) \<noteq> 0 \<Longrightarrow> strip_space (c # cs) = strip_space (drop (space_len (c # cs)) (c # cs))"
  by (subst strip_space.simps, simp)+

text \<open>White space is found in front of more text where it is found in front of less.\<close>

lemma space_len_prefix: "space_len (s @ t) = 0 \<Longrightarrow> space_len s = 0"
  by (cases s rule: space_len.cases; cases t; cases "tl t") (auto split: if_splits)

lemma no_space_prefix: "no_space (s @ t) \<Longrightarrow> no_space s"
proof (induction s)
  case (Cons c s)
  then show ?case using space_len_prefix [of "c # s" t] by simp
qed simp

lemma concat_fields: "concat (fields acc s) = acc @ strip_space s"
proof (induction acc s rule: fields.induct)
  case (1 acc s)
  show ?case
  proof (cases s)
    case (Cons c cs)
    then show ?thesis using 1 by (cases "space_len (c # cs) = 0") (simp_all add: word_end_def)
  qed (simp add: word_end_def)
qed

lemma fields_nonempty: "[] \<notin> set (fields acc s)"
proof (induction acc s rule: fields.induct)
  case (1 acc s)
  show ?case
  proof (cases s)
    case (Cons c cs)
    then show ?thesis using 1 by (cases "space_len (c # cs) = 0") (simp_all add: word_end_def)
  qed (simp add: word_end_def)
qed

lemma fields_no_space:
  assumes "\<And>a b. acc = a @ b \<Longrightarrow> b \<noteq> [] \<Longrightarrow> space_len (b @ s) = 0"
  shows "list_all no_space (fields acc s)"
  using assms
proof (induction acc s rule: fields.induct)
  case (1 acc s)
  have acc: "no_space acc"
  proof -
    have "no_space b" if "acc = a @ b" for a b
      using that
    proof (induction b arbitrary: a)
      case (Cons x b)
      then show ?case using 1(3) [of a "x # b"] space_len_prefix [of "x # b" s] Cons.IH [of "a @ [x]"] by simp
    qed simp
    then show ?thesis by blast
  qed
  show ?case
  proof (cases s)
    case Nil
    with acc show ?thesis by (simp add: word_end_def)
  next
    case (Cons c cs)
    show ?thesis
    proof (cases "space_len (c # cs) = 0")
      case True
      have "space_len (b @ cs) = 0" if ab: "acc @ [c] = a @ b" "b \<noteq> []" for a b
      proof -
        obtain b' where b: "b = b' @ [c]" "acc = a @ b'"
          using ab that by (cases b rule: rev_cases) auto
        show ?thesis
        proof (cases "b' = []")
          case False
          with 1(3) [of a b'] b Cons show ?thesis by simp
        qed (use b True in simp)
      qed
      with 1(1) [OF Cons] True Cons show ?thesis by simp
    next
      case False
      with 1(2) [OF Cons] Cons acc show ?thesis by (simp add: word_end_def)
    qed
  qed
qed

lemma space_len_word_space:
  "no_space (x # xs) \<Longrightarrow> space_len (x # xs @ CHR '' '' # r) = 0"
  by (cases xs; cases r; cases "tl xs"; cases "tl (tl xs)") (auto simp: space2_def space3_def split: if_splits)

lemma fields_word: "no_space w \<Longrightarrow> fields acc (w @ CHR '' '' # r) = fields (acc @ w) (CHR '' '' # r)"
proof (induction w arbitrary: acc)
  case (Cons x w)
  then show ?case using space_len_word_space [of x w r] by simp
qed simp

lemma fields_last_word: "no_space w \<Longrightarrow> fields acc w = word_end (acc @ w)"
  by (induction w arbitrary: acc) auto

lemma space_len_space [simp]: "space_len (CHR '' '' # r) = 1"
  by (cases r; cases "tl r") (simp_all add: space1_def)

text \<open>Words separated by single spaces.\<close>

fun join_space :: "string list \<Rightarrow> string" where
  "join_space [] = []"
| "join_space [w] = w"
| "join_space (w # ws) = w @ '' '' @ join_space ws"

text \<open>
  The tokens of a message are its words: none is empty, no white space starts inside a token
  (ASCII or any other Unicode space), and put together they are the message without its white
  space, nothing lost and nothing reordered.
\<close>

lemma tokenize_words:
  "[] \<notin> set (tokenize m) \<and> list_all no_space (tokenize m) \<and> concat (tokenize m) = strip_space m"
  unfolding tokenize_def by (intro conjI fields_no_space) (simp_all add: fields_nonempty concat_fields)

text \<open>
  Splitting a message inverts joining: words that are not empty and contain no white space,
  joined with single spaces, are split into exactly these words in their order.
\<close>

lemma tokenize_join:
  assumes "\<And>w. w \<in> set ws \<Longrightarrow> w \<noteq> [] \<and> no_space w"
  shows "tokenize (join_space ws) = ws"
  using assms unfolding tokenize_def
proof (induction ws rule: join_space.induct)
  case (2 w)
  then show ?case by (simp add: fields_last_word word_end_def)
next
  case (3 w v ws)
  have "fields [] (join_space (w # v # ws)) = fields w (CHR '' '' # join_space (v # ws))"
    using 3(2) [of w] fields_word [of w "[]"] by simp
  also have "\<dots> = w # fields [] (join_space (v # ws))"
    using 3(2) [of w] by (simp add: word_end_def)
  finally show ?case using 3 by simp
qed (simp add: word_end_def)

section \<open>The message\<close>

definition month_name :: "nat \<Rightarrow> string" where
  "month_name m =
     [''January'', ''February'', ''March'', ''April'', ''May'', ''June'', ''July'', ''August'', ''September'',
      ''October'', ''November'', ''December''] ! (m - 1)"

text \<open>A year is padded with zeros to four digits.\<close>

definition year_string :: "int \<Rightarrow> string" where
  "year_string y =
     (let ds = utoa (nat \<bar>y\<bar>) in (if y < 0 then ''-'' else []) @ replicate (4 - length ds) CHR ''0'' @ ds)"

text \<open>\<open>Format("January 2, 2006")\<close> of a time in UTC.\<close>

definition format_long_date :: "time \<Rightarrow> string" where
  "format_long_date t =
     (case date_of_days ((t div second + unix_epoch_days_secs) div 86400) of
        (y, m, d) \<Rightarrow> month_name m @ '' '' @ utoa d @ '', '' @ year_string y)"

definition generateCoachingMessage :: "Session \<Rightarrow> string" where
  "generateCoachingMessage session =
     (let notes = (case se_Notes session of None \<Rightarrow> '''' | Some n \<Rightarrow> n)
      in ''Great session review! Your trading session on '' @ format_long_date (se_StartedAt session)
         @ '' showed commitment to self-improvement. '' @ notes
         @ '' Keep tracking your emotional state and plan adherence '' @ [CHR 0xE2, CHR 0x80, CHR 0x94]
         @ '' consistency is the key to long-term profitability. Remember to review your trades tomorrow ''
         @ ''and identify any patterns in your decision-making process.'')"

section \<open>The stream\<close>

text \<open>
  The loop over the tokens polls the request's context in front of each one; the poll that finds
  it done ends the stream. The result is the events written and whether the loop ran to its end.
\<close>

fun send_tokens :: "(nat \<Rightarrow> bool) \<Rightarrow> nat \<Rightarrow> string list \<Rightarrow> sse_event list \<times> bool" where
  "send_tokens cancelled i [] = ([], True)"
| "send_tokens cancelled i (token # tokens) =
     (if cancelled i then ([], False)
      else (case send_tokens cancelled (Suc i) tokens of (es, finished) \<Rightarrow> (TokenEvent token i # es, finished)))"

definition coaching_events :: "(nat \<Rightarrow> bool) \<Rightarrow> Session \<Rightarrow> sse_event list" where
  "coaching_events cancelled session =
     (let message = generateCoachingMessage session
      in case send_tokens cancelled 0 (tokenize message) of
           (es, finished) \<Rightarrow> es @ (if finished then [DoneEvent message] else []))"

lemma send_tokens_all:
  "(\<And>j. i \<le> j \<Longrightarrow> j < i + length ts \<Longrightarrow> \<not> cancelled j) \<Longrightarrow>
   send_tokens cancelled i ts = (map (\<lambda>(k, t). TokenEvent t k) (enumerate i ts), True)"
proof (induction ts arbitrary: i)
  case (Cons t ts)
  then show ?case by simp
qed simp

lemma send_tokens_stop:
  "i \<le> n \<Longrightarrow> n < i + length ts \<Longrightarrow> cancelled n \<Longrightarrow> (\<And>j. i \<le> j \<Longrightarrow> j < n \<Longrightarrow> \<not> cancelled j) \<Longrightarrow>
   send_tokens cancelled i ts = (map (\<lambda>(k, t). TokenEvent t k) (enumerate i (take (n - i) ts)), False)"
proof (induction ts arbitrary: i)
  case (Cons t ts)
  show ?case
  proof (cases "i = n")
    case False
    with Cons have "send_tokens cancelled (Suc i) ts
        = (map (\<lambda>(k, t). TokenEvent t k) (enumerate (Suc i) (take (n - Suc i) ts)), False)"
      by (intro Cons.IH) auto
    moreover have "\<not> cancelled i" using False Cons.prems(1) Cons.prems(4) [of i] by simp
    moreover have "take (n - i) (t # ts) = t # take (n - Suc i) ts"
      using False Cons.prems(1) by (metis Suc_diff_Suc le_neq_implies_less take_Suc_Cons)
    ultimately show ?thesis by simp
  qed (use Cons in simp)
qed simp

text \<open>The events of a list of tokens, numbered from zero.\<close>

definition token_events :: "string list \<Rightarrow> sse_event list" where
  "token_events ts = map (\<lambda>(k, t). TokenEvent t k) (enumerate 0 ts)"

text \<open>The first poll that finds the context done, among the polls of the tokens.\<close>

lemma coaching_events_cases:
  obtains (complete) "\<And>j. j < length (tokenize (generateCoachingMessage se)) \<Longrightarrow> \<not> cancelled j"
      "coaching_events cancelled se = token_events (tokenize (generateCoachingMessage se))
        @ [DoneEvent (generateCoachingMessage se)]"
  | (stopped) n where "n < length (tokenize (generateCoachingMessage se))" "cancelled n"
      "\<And>j. j < n \<Longrightarrow> \<not> cancelled j"
      "coaching_events cancelled se = token_events (take n (tokenize (generateCoachingMessage se)))"
proof (cases "\<exists>n < length (tokenize (generateCoachingMessage se)). cancelled n")
  case False
  then show thesis
    by (intro complete) (auto simp: coaching_events_def Let_def token_events_def send_tokens_all)
next
  case True
  let ?ts = "tokenize (generateCoachingMessage se)"
  define n where "n = (LEAST n. n < length ?ts \<and> cancelled n)"
  have n: "n < length ?ts" "cancelled n" using True LeastI_ex [of "\<lambda>n. n < length ?ts \<and> cancelled n"] by (auto simp: n_def)
  have below: "\<not> cancelled j" if "j < n" for j
    using that n not_less_Least [of j "\<lambda>n. n < length ?ts \<and> cancelled n"] by (auto simp: n_def)
  show thesis
    using n below by (intro stopped [of n])
      (auto simp: coaching_events_def Let_def token_events_def send_tokens_stop [where n = n])
qed

end
