(* ===== verification/Trade_Handler.thy ===== *)
theory Trade_Handler
  imports Auth
begin

text \<open>
  \<open>handler/trade.go\<close>: POST and GET of trades. The JSON decoder of the request body is an
  argument: it gives an error message or the decoded input.
\<close>

section \<open>Building the trade\<close>

definition build_trade :: "'d TradeInput \<Rightarrow> 'd Trade" where
  "build_trade input =
     \<lparr> TradeID = TradeID input, UserID = UserID input, SessionID = SessionID input, Asset = Asset input,
       AssetClass = AssetClass input, Direction = Direction input, EntryPrice = EntryPrice input,
       ExitPrice = ExitPrice input, Quantity = Quantity input, EntryAt = EntryAt input,
       ExitAt = ExitAt input, Status = Status input, PlanAdherence = PlanAdherence input,
       EmotionalState = EmotionalState input, EntryRationale = EntryRationale input,
       Outcome = None, PnL = None, RevengeFlag = False, CreatedAt = zero_time, UpdatedAt = zero_time \<rparr>"

definition close_trade :: "'d decimal_ops \<Rightarrow> 'd Trade \<Rightarrow> 'd Trade" where
  "close_trade D t =
     (case ExitPrice t of
        Some exitPrice \<Rightarrow>
          if Status t = StatusClosed
          then (case ComputePnL D (Direction t) (EntryPrice t) exitPrice (Quantity t) of
                  (pnl, outcome) \<Rightarrow> t\<lparr>PnL := Some pnl, Outcome := Some outcome\<rparr>)
          else t
      | None \<Rightarrow> t)"

text \<open>The revenge check reads the last loss of the user; a failed read is ignored.\<close>

definition check_revenge :: "'r redis_ops \<Rightarrow> 'd Trade \<Rightarrow> 'r world \<Rightarrow> 'd Trade \<times> 'r world" where
  "check_revenge R t w =
     (case EmotionalState t of
        None \<Rightarrow> (t, w)
      | Some emotionalState \<Rightarrow>
          (case on_redis (GetLastLoss R (UserID t)) w of
             (Inr lastLossUnix, w1) \<Rightarrow>
               if 0 < lastLossUnix \<and> IsRevenge (time_unix lastLossUnix) (EntryAt t) emotionalState
               then (t\<lparr>RevengeFlag := True\<rparr>, w1) else (t, w1)
           | (Inl _, w1) \<Rightarrow> (t, w1)))"

section \<open>The tasks of a stored trade\<close>

definition event_data :: "'d decimal_ops \<Rightarrow> 'd Trade \<Rightarrow> goval strmap" where
  "event_data D t =
     [''tradeId'' \<mapsto> GStr (TradeID t), ''userId'' \<mapsto> GStr (UserID t), ''sessionId'' \<mapsto> GStr (SessionID t),
      ''status'' \<mapsto> GStr (Status t), ''direction'' \<mapsto> GStr (Direction t),
      ''entryAt'' \<mapsto> GStr (format_rfc3339 (EntryAt t))]
     ++ (\<lambda>k. if k = ''outcome'' then map_option GStr (Outcome t)
            else if k = ''pnl'' then map_option (\<lambda>p. GStr (dec_string D p)) (PnL t)
            else if k = ''emotionalState'' then map_option GStr (EmotionalState t)
            else if k = ''planAdherence'' then map_option GInt (PlanAdherence t)
            else if k = ''exitAt'' then map_option (\<lambda>x. GStr (format_rfc3339 x)) (ExitAt t)
            else if k = ''revengeFlag'' then Some (GBool (RevengeFlag t))
            else None)"

definition last_loss_task :: "'d Trade \<Rightarrow> task list" where
  "last_loss_task t =
     (case ExitAt t of
        Some exitAt \<Rightarrow>
          if Status t = StatusClosed \<and> ptr_and (Outcome t) (\<lambda>x. x = OutcomeLoss)
          then [SetLastLossTask (UserID t) (unix exitAt)] else []
      | None \<Rightarrow> [])"

definition publish_task :: "'d decimal_ops \<Rightarrow> 'd Trade \<Rightarrow> task" where
  "publish_task D t = PublishTask ''trades:events'' (event_data D t)"

definition window_task :: "'d Trade \<Rightarrow> task" where
  "window_task t = AddNXTask (trades_ts_key (UserID t)) (f64_of_int (unix_milli (EntryAt t))) (TradeID t)"

section \<open>Create\<close>

text \<open>From the build of the trade to the response.\<close>

definition save_trade ::
  "pg_types \<Rightarrow> 'd decimal_ops \<Rightarrow> 'r redis_ops \<Rightarrow> 'd TradeInput \<Rightarrow> reqctx \<Rightarrow> 'r world
   \<Rightarrow> ('d response \<times> task list) \<times> 'r world" where
  "save_trade T D R input c w =
     (case check_revenge R (close_trade D (build_trade input)) w of (trade, w1) \<Rightarrow>
        (case on_db (Upsert T D trade) w1 of
           (Inl err, w2) \<Rightarrow>
             ((respondError c StatusInternalServerError ''INTERNAL_ERROR''
                 (''Failed to save trade: '' @ error_string err), []), w2)
         | (Inr result, w2) \<Rightarrow>
             ((respondJSON StatusOK (PTrade result),
               last_loss_task result @ [publish_task D result, window_task result]), w2)))"

definition Trade_Create ::
  "pg_types \<Rightarrow> 'd decimal_ops \<Rightarrow> 'r redis_ops \<Rightarrow> (string \<Rightarrow> string + 'd TradeInput) \<Rightarrow> ('r, 'd) handler" where
  "Trade_Create T D R decode r c w =
     (let jwtSub = UserIDFromContext c
      in case decode (rq_body r) of
           Inl err \<Rightarrow> ((respondBadRequest c (''Invalid request body: '' @ err), []), w)
         | Inr input \<Rightarrow>
             (case Validate D input of
                Some err \<Rightarrow> ((respondBadRequest c (error_string err), []), w)
              | None \<Rightarrow>
                  if UserID input \<noteq> jwtSub then ((respondForbidden c, []), w)
                  else save_trade T D R input c w))"

section \<open>Get\<close>

definition Trade_Get :: "pg_types \<Rightarrow> 'd decimal_ops \<Rightarrow> ('r, 'd) handler" where
  "Trade_Get T D r c w =
     (let tradeID = URLParam r ''tradeId''; jwtSub = UserIDFromContext c
      in case on_db (GetByID T D tradeID) w of
           (Inl err, w1) \<Rightarrow>
             if error_is err ErrNotFound
             then ((respondNotFound c ''Trade with the given tradeId does not exist.'', []), w1)
             else ((respondError c StatusInternalServerError ''INTERNAL_ERROR'' ''Failed to fetch trade'', []), w1)
         | (Inr trade, w1) \<Rightarrow>
             if UserID trade \<noteq> jwtSub then ((respondForbidden c, []), w1)
             else ((respondJSON StatusOK (PTrade trade), []), w1))"

section \<open>What Create does\<close>

text \<open>An input that passes the checks in front of the store.\<close>

definition accepted :: "'d decimal_ops \<Rightarrow> (string \<Rightarrow> string + 'd TradeInput) \<Rightarrow> request \<Rightarrow> reqctx \<Rightarrow> 'd TradeInput \<Rightarrow> bool" where
  "accepted D decode r c input \<longleftrightarrow>
     decode (rq_body r) = Inr input \<and> Validate D input = None \<and> UserID input = UserIDFromContext c"

lemma Create_cases:
  obtains (rejected) status code resp where
      "Trade_Create T D R decode r c w = ((resp, []), w)" "is_error resp c status code"
      "(status, code) \<in> {(400, ''BAD_REQUEST''), (403, ''FORBIDDEN'')}"
      "\<And>input. \<not> accepted D decode r c input"
  | (stored) input where "accepted D decode r c input"
      "Trade_Create T D R decode r c w = save_trade T D R input c w"
proof (cases "decode (rq_body r)")
  case (Inl err)
  then show thesis
    by (intro rejected [of "respondBadRequest c (''Invalid request body: '' @ err)" 400 "''BAD_REQUEST''"])
      (auto simp: Trade_Create_def accepted_def)
next
  case (Inr input)
  show thesis
  proof (cases "Validate D input")
    case (Some err)
    with Inr show thesis
      by (intro rejected [of "respondBadRequest c (error_string err)" 400 "''BAD_REQUEST''"])
        (auto simp: Trade_Create_def accepted_def)
  next
    case None
    show thesis
    proof (cases "UserID input = UserIDFromContext c")
      case False
      with Inr None show thesis
        by (intro rejected [of "respondForbidden c" 403 "''FORBIDDEN''"]) (auto simp: Trade_Create_def accepted_def)
    next
      case True
      with Inr None show thesis
        by (intro stored [of input]) (simp_all add: Trade_Create_def accepted_def)
    qed
  qed
qed

text \<open>The trade that is offered to the store keeps the input's fields.\<close>

lemma close_trade_fields [simp]:
  "TradeID (close_trade D t) = TradeID t" "UserID (close_trade D t) = UserID t"
  "SessionID (close_trade D t) = SessionID t" "EntryAt (close_trade D t) = EntryAt t"
  "EmotionalState (close_trade D t) = EmotionalState t" "RevengeFlag (close_trade D t) = RevengeFlag t"
  "Status (close_trade D t) = Status t" "PlanAdherence (close_trade D t) = PlanAdherence t"
  by (simp_all add: close_trade_def split: option.splits prod.splits)

lemma build_trade_fields [simp]:
  "TradeID (build_trade i) = TradeID i" "UserID (build_trade i) = UserID i"
  "SessionID (build_trade i) = SessionID i" "EntryAt (build_trade i) = EntryAt i"
  "EmotionalState (build_trade i) = EmotionalState i" "RevengeFlag (build_trade i) = False"
  "Status (build_trade i) = Status i" "PlanAdherence (build_trade i) = PlanAdherence i"
  by (simp_all add: build_trade_def)

lemma check_revenge_cases:
  "\<exists>b w1. check_revenge R t w = (t\<lparr>RevengeFlag := b\<rparr>, w1) \<and> w_db w1 = w_db w"
proof (cases "EmotionalState t")
  case None
  moreover have "t\<lparr>RevengeFlag := RevengeFlag t\<rparr> = t" by (cases t) simp
  ultimately show ?thesis by (intro exI [of _ "RevengeFlag t"]) (simp add: check_revenge_def)
next
  case (Some e)
  obtain x w1 where l: "on_redis (GetLastLoss R (UserID t)) w = (x, w1)" by fastforce
  have "t\<lparr>RevengeFlag := RevengeFlag t\<rparr> = t" by (cases t) simp
  then have same: "\<exists>b. t = t\<lparr>RevengeFlag := b\<rparr>" by metis
  show ?thesis
    using Some l on_redis_eqD [OF l] same by (cases x) (auto simp: check_revenge_def)
qed

text \<open>The row of a trade with another revenge flag.\<close>

lemma trade_to_row_flag:
  "trade_to_row T D now t = Some row \<Longrightarrow>
   trade_to_row T D now (t\<lparr>RevengeFlag := b\<rparr>) = Some (row\<lparr>RevengeFlag := b\<rparr>)"
  by (auto simp: trade_to_row_def bind_eq_Some_conv split: if_splits)

lemma save_trade_db:
  "\<exists>b. w_db (snd (save_trade T D R input c w))
     = snd (Upsert T D ((close_trade D (build_trade input))\<lparr>RevengeFlag := b\<rparr>) (w_db w))"
proof -
  let ?t = "close_trade D (build_trade input)"
  obtain b w1 where rev: "check_revenge R ?t w = (?t\<lparr>RevengeFlag := b\<rparr>, w1)" "w_db w1 = w_db w"
    using check_revenge_cases by blast
  obtain x w2 where up: "on_db (Upsert T D (?t\<lparr>RevengeFlag := b\<rparr>)) w1 = (x, w2)" by fastforce
  then have "w_db w2 = snd (Upsert T D (?t\<lparr>RevengeFlag := b\<rparr>) (w_db w))"
    using on_db_eqD [OF up] rev by simp
  then show ?thesis using rev up by (intro exI [of _ b]) (cases x; simp add: save_trade_def)
qed

section \<open>A request\<close>

text \<open>Alice posts a closed losing trade.\<close>

definition ex_input :: "dec TradeInput" where
  "ex_input =
     \<lparr> TradeID = ex_trade_id, UserID = alice, SessionID = alice_session, Asset = ''AAPL'',
       AssetClass = ''equity'', Direction = ''long'', EntryPrice = (100, 0), ExitPrice = Some (90, 0),
       Quantity = (2, 0), EntryAt = ex_time, ExitAt = Some (ex_time + 600 * second), Status = ''closed'',
       PlanAdherence = Some 2, EmotionalState = Some ''anxious'', EntryRationale = None \<rparr>"

definition ex_decode :: "string \<Rightarrow> string + dec TradeInput" where "ex_decode b = Inr ex_input"

definition as_user :: "string \<Rightarrow> reqctx" where
  "as_user u = \<lparr>cx_traceId = Some ''trace-1'', cx_userId = Some u\<rparr>"

lemma ex_accepted: "accepted ref_decimal ex_decode ex_request (as_user alice) ex_input"
proof -
  have "Validate ref_decimal ex_input = None" by code_simp
  then show ?thesis by (simp add: accepted_def ex_decode_def as_user_def UserIDFromContext_def ex_input_def)
qed

lemma ex_row:
  obtains row where "trade_to_row ref_pg ref_decimal ex_time (close_trade ref_decimal (build_trade ex_input)) = Some row"
    "TradeID row = ex_trade_id" "UserID row = alice" "SessionID row = alice_session" "trade_check row"
proof -
  have "map_option (\<lambda>row. (TradeID row, UserID row, SessionID row, trade_check row))
      (trade_to_row ref_pg ref_decimal ex_time (close_trade ref_decimal (build_trade ex_input)))
    = Some (ex_trade_id, alice, alice_session, True)"
    by code_simp
  with that show thesis by auto
qed

section \<open>Properties of POST\<close>

text \<open>
  Whatever the body, the tokens and the failures of the servers, POST leaves every table but
  the trades alone; the trades are unchanged, or exactly one row has been appended, only after
  the input decoded, passed validation and named the authenticated subject as its user: the row
  belongs to that subject, carries the input's identifiers in canonical form and respects the
  primary key, the foreign keys and the check constraint (\<open>inserts_row\<close>).
\<close>

lemma Create_effect:
  fixes T and D :: "'d decimal_ops" and R :: "'r redis_ops" and decode and r and c and w :: "'r world"
  defines "s \<equiv> w_db w" and "s' \<equiv> w_db (snd (Trade_Create T D R decode r c w))"
  shows "\<exists>ds. s' = s\<lparr>db_deliveries := ds\<rparr>
    \<or> (\<exists>input row. accepted D decode r c input
         \<and> s' = s\<lparr>trades := trades s @ [row], db_deliveries := ds\<rparr>
         \<and> pg_uuid T (UserIDFromContext c) = Some (UserID row)
         \<and> pg_uuid T (TradeID input) = Some (TradeID row) \<and> pg_uuid T (SessionID input) = Some (SessionID row)
         \<and> (\<exists>t. inserts_row T D t s row))"
proof (rule Create_cases [of T D R decode r c w])
  fix status code resp assume "Trade_Create T D R decode r c w = ((resp, []), w)"
  then have "s' = s\<lparr>db_deliveries := db_deliveries s\<rparr>" by (simp add: s'_def s_def)
  then show ?thesis by blast
next
  fix input assume acc: "accepted D decode r c input"
    and run: "Trade_Create T D R decode r c w = save_trade T D R input c w"
  let ?t = "\<lambda>b. (close_trade D (build_trade input))\<lparr>RevengeFlag := b\<rparr>"
  obtain b where s': "s' = snd (Upsert T D (?t b) s)"
    using save_trade_db [of T D R input c w] by (auto simp: s'_def s_def run)
  from Upsert_effect [of T D "?t b" s] obtain ds where
    "s' = s\<lparr>db_deliveries := ds\<rparr> \<or> (\<exists>row. inserts_row T D (?t b) s row
       \<and> s' = s\<lparr>trades := trades s @ [row], db_deliveries := ds\<rparr>)"
    unfolding s' by blast
  then show ?thesis
  proof (elim disjE exE conjE)
    fix row assume ins: "inserts_row T D (?t b) s row"
      and eq: "s' = s\<lparr>trades := trades s @ [row], db_deliveries := ds\<rparr>"
    then have row: "trade_to_row T D (db_now s) (?t b) = Some row" by (simp add: inserts_row_def)
    have "pg_uuid T (UserIDFromContext c) = Some (UserID row)" "pg_uuid T (SessionID input) = Some (SessionID row)"
      "pg_uuid T (TradeID input) = Some (TradeID row)"
      using trade_to_row_fields(6,7) [OF row] trade_to_row_key [OF row] acc by (simp_all add: accepted_def)
    with acc ins eq show ?thesis by auto
  qed blast
qed

text \<open>The tasks that follow a stored trade.\<close>

definition trade_tasks :: "'d decimal_ops \<Rightarrow> 'd Trade \<Rightarrow> task list" where
  "trade_tasks D t = last_loss_task t @ [publish_task D t, window_task t]"

text \<open>With the connection up, the two successful outcomes of saving.\<close>

lemma save_trade_fresh:
  assumes up: "db_up w" and rev: "check_revenge R (close_trade D (build_trade input)) w = (trade, w1)"
    and ins: "inserts_row T D trade (w_db w) row"
  shows "save_trade T D R input c w
    = ((respondJSON 200 (PTrade (scanTrade D row)), trade_tasks D (scanTrade D row)),
       w1\<lparr>w_db := (w_db w)\<lparr>trades := trades (w_db w) @ [row]\<rparr>\<rparr>)"
proof -
  have "w_db w1 = w_db w" using check_revenge_cases [of R "close_trade D (build_trade input)" w] rev by auto
  then have "on_db (Upsert T D trade) w1
      = (Inr (scanTrade D row), w1\<lparr>w_db := (w_db w)\<lparr>trades := trades (w_db w) @ [row]\<rparr>\<rparr>)"
    using Upsert_fresh [OF up ins] by (simp add: on_db_def)
  then show ?thesis by (simp add: save_trade_def rev trade_tasks_def StatusOK_def)
qed

lemma save_trade_existing:
  assumes up: "db_up w" and rev: "check_revenge R (close_trade D (build_trade input)) w = (trade, w1)"
    and row: "trade_to_row T D (db_now (w_db w)) trade = Some row" "trade_check row"
    and old: "tbl_lookup TradeID (TradeID row) (trades (w_db w)) = Some old"
  shows "save_trade T D R input c w = ((respondJSON 200 (PTrade (scanTrade D old)), trade_tasks D (scanTrade D old)), w1)"
proof -
  have "w_db w1 = w_db w" using check_revenge_cases [of R "close_trade D (build_trade input)" w] rev by auto
  moreover from this have "w1\<lparr>w_db := w_db w\<rparr> = w1" by (cases w1) simp
  ultimately have "on_db (Upsert T D trade) w1 = (Inr (scanTrade D old), w1)"
    using Upsert_existing [OF up row old] by (simp add: on_db_def)
  then show ?thesis by (simp add: save_trade_def rev trade_tasks_def StatusOK_def)
qed

text \<open>What a POST that was answered with 200 leaves behind, on any connection.\<close>

lemma Upsert_ok_row:
  assumes ok: "Upsert T D t s = (Inr x, s')"
  shows "\<exists>row r. trade_to_row T D (db_now s) t = Some row \<and> trade_check row \<and> x = scanTrade D r
    \<and> tbl_lookup TradeID (TradeID row) (trades s') = Some r"
  by (rule Upsert_cases [of T D t s]) (use ok in \<open>auto simp: inserts_row_def tbl_lookup_append\<close>)

lemma save_trade_ok:
  assumes run: "save_trade T D R input c w = ((resp, tasks), w1)" and ok: "rs_status resp = 200"
  shows "\<exists>row r. trade_to_row T D (db_now (w_db w)) (close_trade D (build_trade input)) = Some row
    \<and> trade_check row \<and> resp = respondJSON 200 (PTrade (scanTrade D r)) \<and> tasks = trade_tasks D (scanTrade D r)
    \<and> tbl_lookup TradeID (TradeID row) (trades (w_db w1)) = Some r"
proof -
  let ?t = "close_trade D (build_trade input)"
  obtain b w2 where rev: "check_revenge R ?t w = (?t\<lparr>RevengeFlag := b\<rparr>, w2)" "w_db w2 = w_db w"
    using check_revenge_cases by blast
  obtain x w3 where up2: "on_db (Upsert T D (?t\<lparr>RevengeFlag := b\<rparr>)) w2 = (x, w3)" by fastforce
  with run rev ok have x: "\<exists>res. x = Inr res \<and> resp = respondJSON 200 (PTrade res) \<and> tasks = trade_tasks D res \<and> w1 = w3"
    by (cases x) (auto simp: save_trade_def trade_tasks_def StatusOK_def StatusInternalServerError_def)
  then obtain res where res: "x = Inr res" "resp = respondJSON 200 (PTrade res)" "tasks = trade_tasks D res" "w1 = w3"
    by blast
  have "Upsert T D (?t\<lparr>RevengeFlag := b\<rparr>) (w_db w) = (Inr res, w_db w1)"
    using on_db_eqD [OF up2] rev res by simp
  from Upsert_ok_row [OF this] obtain row r where r: "trade_to_row T D (db_now (w_db w)) (?t\<lparr>RevengeFlag := b\<rparr>) = Some row"
    "trade_check row" "res = scanTrade D r" "tbl_lookup TradeID (TradeID row) (trades (w_db w1)) = Some r"
    by blast
  have "(?t\<lparr>RevengeFlag := b\<rparr>)\<lparr>RevengeFlag := RevengeFlag ?t\<rparr> = ?t" by simp
  with trade_to_row_flag [OF r(1), of "RevengeFlag ?t"]
  have "trade_to_row T D (db_now (w_db w)) ?t = Some (row\<lparr>RevengeFlag := RevengeFlag ?t\<rparr>)" by metis
  moreover have "trade_check (row\<lparr>RevengeFlag := RevengeFlag ?t\<rparr>)" using r(2) by (simp add: trade_check_def)
  moreover have "tbl_lookup TradeID (TradeID (row\<lparr>RevengeFlag := RevengeFlag ?t\<rparr>)) (trades (w_db w1)) = Some r"
    using r(4) by simp
  ultimately show ?thesis using r(3) res(2,3) by blast
qed

text \<open>A trade whose ID is taken is answered with the row that has it, or with an error, and writes nothing.\<close>

lemma save_trade_again:
  assumes row: "trade_to_row T D now (close_trade D (build_trade input)) = Some row" "trade_check row"
    and old: "tbl_lookup TradeID (TradeID row) (trades (w_db w)) = Some r"
  shows "(\<exists>ds. w_db (snd (save_trade T D R input c w)) = (w_db w)\<lparr>db_deliveries := ds\<rparr>)
    \<and> (fst (save_trade T D R input c w) = (respondJSON 200 (PTrade (scanTrade D r)), trade_tasks D (scanTrade D r))
       \<or> is_error (fst (fst (save_trade T D R input c w))) c 500 ''INTERNAL_ERROR''
         \<and> snd (fst (save_trade T D R input c w)) = [])
    \<and> (db_up w \<longrightarrow> fst (save_trade T D R input c w) = (respondJSON 200 (PTrade (scanTrade D r)), trade_tasks D (scanTrade D r))
         \<and> w_db (snd (save_trade T D R input c w)) = w_db w)"
proof -
  let ?t = "close_trade D (build_trade input)" and ?now = "db_now (w_db w)"
  obtain b w1 where rev: "check_revenge R ?t w = (?t\<lparr>RevengeFlag := b\<rparr>, w1)" "w_db w1 = w_db w"
    using check_revenge_cases by blast
  let ?row = "row\<lparr>CreatedAt := ?now, UpdatedAt := ?now, RevengeFlag := b\<rparr>"
  have row': "trade_to_row T D ?now (?t\<lparr>RevengeFlag := b\<rparr>) = Some ?row"
    using trade_to_row_flag [OF trade_to_row_now [OF row(1)]] by simp
  obtain x w2 where up: "on_db (Upsert T D (?t\<lparr>RevengeFlag := b\<rparr>)) w1 = (x, w2)" by fastforce
  have u: "Upsert T D (?t\<lparr>RevengeFlag := b\<rparr>) (w_db w) = (x, w_db w2)" using on_db_eqD [OF up] rev(2) by simp
  have "(\<exists>ds. w_db w2 = (w_db w)\<lparr>db_deliveries := ds\<rparr>) \<and> (x = Inr (scanTrade D r) \<or> (\<exists>f. x = Inl (pg_error T f)))"
    by (rule Upsert_cases [of T D "?t\<lparr>RevengeFlag := b\<rparr>" "w_db w"]) (use u row' old in \<open>auto simp: inserts_row_def\<close>)
  moreover have "save_trade T D R input c w =
      (case x of Inl err \<Rightarrow> ((respondError c 500 ''INTERNAL_ERROR'' (''Failed to save trade: '' @ error_string err), []), w2)
       | Inr result \<Rightarrow> ((respondJSON 200 (PTrade result), trade_tasks D result), w2))"
    by (cases x) (simp_all add: save_trade_def rev up trade_tasks_def status_defs)
  moreover have "fst (save_trade T D R input c w) = (respondJSON 200 (PTrade (scanTrade D r)), trade_tasks D (scanTrade D r))
      \<and> w_db (snd (save_trade T D R input c w)) = w_db w" if "db_up w"
    using save_trade_existing [OF that rev(1) row', of r c] row(2) old rev(2) by (simp add: trade_check_def)
  ultimately show ?thesis by auto
qed

lemma Create_accepted: "accepted D decode r c input \<Longrightarrow> Trade_Create T D R decode r c w = save_trade T D R input c w"
  by (simp add: accepted_def Trade_Create_def)

lemma Create_ok_accepted:
  "Trade_Create T D R decode r c w = ((resp, tasks), w1) \<Longrightarrow> rs_status resp = 200 \<Longrightarrow>
   \<exists>input. accepted D decode r c input"
  by (rule Create_cases [of T D R decode r c w]) (auto simp: is_error_def)

text \<open>The concrete request is answered with 200.\<close>

lemma ex_created:
  "rs_status (fst (fst (Trade_Create ref_pg ref_decimal mem_ops ex_decode ex_request (as_user alice) ex_world))) = 200"
  "db_up (snd (Trade_Create ref_pg ref_decimal mem_ops ex_decode ex_request (as_user alice) ex_world))"
proof -
  let ?t = "close_trade ref_decimal (build_trade ex_input)"
  have up: "db_up ex_world" by (simp add: ex_defs)
  obtain b w1 where rev: "check_revenge mem_ops ?t ex_world = (?t\<lparr>RevengeFlag := b\<rparr>, w1)" using check_revenge_cases by blast
  obtain row where row: "trade_to_row ref_pg ref_decimal ex_time ?t = Some row" "TradeID row = ex_trade_id"
    "UserID row = alice" "SessionID row = alice_session" "trade_check row"
    by (rule ex_row)
  have "inserts_row ref_pg ref_decimal (?t\<lparr>RevengeFlag := b\<rparr>) (w_db ex_world) (row\<lparr>RevengeFlag := b\<rparr>)"
    using trade_to_row_flag [OF row(1), of b] row
    by (simp add: inserts_row_def trade_check_def trade_fk_def ex_world_def ex_db_def)
  from save_trade_fresh [OF up rev this, of "as_user alice"] up
  show "rs_status (fst (fst (Trade_Create ref_pg ref_decimal mem_ops ex_decode ex_request (as_user alice) ex_world))) = 200"
    "db_up (snd (Trade_Create ref_pg ref_decimal mem_ops ex_decode ex_request (as_user alice) ex_world))"
    by (simp_all add: Create_accepted [OF ex_accepted])
qed

text \<open>
  C9: POST is idempotent: when a POST was answered with 200, posting the same body again as the
  same subject, at any later time - whatever trades, of whomever, were stored in between,
  whatever happened to the other tables and to Redis, and on whatever connection - writes nothing
  and is answered with the same response, or with 500 when a statement is lost; while the
  connection is up it is the same response, and the same tasks are started again, so that the
  event is published a second time. (Rows of the table are only ever appended.)
\<close>

theorem Create_idempotent:
  assumes first: "Trade_Create T D R decode r c w = ((resp, tasks), w1)" and ok: "rs_status resp = 200"
    and later: "trades (w_db w2) = trades (w_db w1) @ added" and c': "cx_userId c' = cx_userId c"
  shows "(\<exists>ds. w_db (snd (Trade_Create T D R decode r c' w2)) = (w_db w2)\<lparr>db_deliveries := ds\<rparr>)
    \<and> (fst (Trade_Create T D R decode r c' w2) = (resp, tasks)
       \<or> is_error (fst (fst (Trade_Create T D R decode r c' w2))) c' 500 ''INTERNAL_ERROR''
         \<and> snd (fst (Trade_Create T D R decode r c' w2)) = [])
    \<and> (db_up w2 \<longrightarrow> fst (Trade_Create T D R decode r c' w2) = (resp, tasks)
         \<and> w_db (snd (Trade_Create T D R decode r c' w2)) = w_db w2)"
proof -
  obtain input where acc: "accepted D decode r c input" using Create_ok_accepted [OF first ok] by blast
  then have acc': "accepted D decode r c' input" using c' by (simp add: accepted_def UserIDFromContext_def)
  from save_trade_ok [OF _ ok] first obtain row r0 where
    r: "trade_to_row T D (db_now (w_db w)) (close_trade D (build_trade input)) = Some row" "trade_check row"
      "resp = respondJSON 200 (PTrade (scanTrade D r0))" "tasks = trade_tasks D (scanTrade D r0)"
      "tbl_lookup TradeID (TradeID row) (trades (w_db w1)) = Some r0"
    unfolding Create_accepted [OF acc] by blast
  have "tbl_lookup TradeID (TradeID row) (trades (w_db w2)) = Some r0"
    using r(5) later by (simp add: tbl_lookup_append)
  from save_trade_again [OF r(1,2) this] show ?thesis by (simp add: Create_accepted [OF acc'] r(3,4))
qed

text \<open>The same POST again, after somebody else's trade was stored.\<close>

definition ex_later :: "mem_redis world" where
  "ex_later = (let w = snd (Trade_Create ref_pg ref_decimal mem_ops ex_decode ex_request (as_user alice) ex_world)
     in w\<lparr>w_db := (w_db w)\<lparr>trades := trades (w_db w) @ [ex_trade\<lparr>TradeID := bob, UserID := bob, SessionID := bob_session\<rparr>]\<rparr>\<rparr>)"

theorem Create_idempotent_witness:
  "fst (Trade_Create ref_pg ref_decimal mem_ops ex_decode ex_request (as_user alice) ex_later)
     = fst (Trade_Create ref_pg ref_decimal mem_ops ex_decode ex_request (as_user alice) ex_world)"
proof -
  let ?post = "\<lambda>w. Trade_Create ref_pg ref_decimal mem_ops ex_decode ex_request (as_user alice) w"
  have run: "?post ex_world = ((fst (fst (?post ex_world)), snd (fst (?post ex_world))), snd (?post ex_world))"
    by simp
  have later: "trades (w_db ex_later) = trades (w_db (snd (?post ex_world))) @ [ex_trade\<lparr>TradeID := bob, UserID := bob, SessionID := bob_session\<rparr>]"
    by (simp add: ex_later_def Let_def)
  have "db_up ex_later" using ex_created(2) by (simp add: ex_later_def Let_def)
  with Create_idempotent [OF run ex_created(1) later refl] show ?thesis by simp
qed

text \<open>
  C27: On a connection that stays up, an accepted POST whose trade ID is already stored returns
  the stored trade with status 200 and starts its tasks, whoever owns that trade: the tenancy
  check compares the subject with the body, not with the row that is returned. A subject that
  knows a trade ID can so read another user's trade and have its event published again.
\<close>

theorem Create_returns_stored:
  assumes "db_up w" and "accepted D decode r c input"
    and "trade_to_row T D (db_now (w_db w)) (close_trade D (build_trade input)) = Some row" and "trade_check row"
    and "tbl_lookup TradeID (TradeID row) (trades (w_db w)) = Some old"
  shows "fst (Trade_Create T D R decode r c w)
      = (respondJSON 200 (PTrade (scanTrade D old)), trade_tasks D (scanTrade D old))
    \<and> w_db (snd (Trade_Create T D R decode r c w)) = w_db w"
proof -
  let ?t = "close_trade D (build_trade input)"
  obtain b w1 where rev: "check_revenge R ?t w = (?t\<lparr>RevengeFlag := b\<rparr>, w1)" "w_db w1 = w_db w"
    using check_revenge_cases by blast
  from save_trade_existing [OF assms(1) rev(1) trade_to_row_flag [OF assms(3)], of old c] assms(4,5) rev(2)
  show ?thesis by (simp add: Create_accepted [OF assms(2)] trade_check_def)
qed

text \<open>The stored trade with this ID is Bob's.\<close>

definition ex_bobs :: "mem_redis world" where
  "ex_bobs = ex_world\<lparr>w_db := ex_db\<lparr>trades := [ex_trade\<lparr>UserID := bob, SessionID := bob_session\<rparr>]\<rparr>\<rparr>"

theorem Create_returns_stored_witness:
  "fst (fst (Trade_Create ref_pg ref_decimal mem_ops ex_decode ex_request (as_user alice) ex_bobs))
     = respondJSON 200 (PTrade (scanTrade ref_decimal (ex_trade\<lparr>UserID := bob, SessionID := bob_session\<rparr>)))
   \<and> bob \<noteq> alice"
proof -
  let ?t = "close_trade ref_decimal (build_trade ex_input)"
  obtain row where row: "trade_to_row ref_pg ref_decimal ex_time ?t = Some row" "TradeID row = ex_trade_id" "trade_check row"
    by (rule ex_row)
  have now: "db_now (w_db ex_bobs) = ex_time" by (simp add: ex_bobs_def ex_db_def)
  have "tbl_lookup TradeID (TradeID row) (trades (w_db ex_bobs)) = Some (ex_trade\<lparr>UserID := bob, SessionID := bob_session\<rparr>)"
    by (simp add: ex_bobs_def row(2) ex_trade_def)
  moreover have "db_up ex_bobs" by (simp add: ex_bobs_def ex_defs)
  moreover have "bob \<noteq> alice" by (simp add: alice_def bob_def)
  ultimately show ?thesis
    using Create_returns_stored [where w = ex_bobs and R = mem_ops, OF _ ex_accepted row(1) [folded now] row(3)] by simp
qed

section \<open>Properties of GET\<close>

text \<open>
  C13: GET never returns another user's trade: on a connection that stays up the answer is 500 for
  an ID that is not a UUID, 404 when no trade has it, 403 when the trade belongs to another
  subject, and 200 with the trade only for its owner; the request changes nothing.
\<close>

theorem Trade_Get_answers:
  fixes T and D :: "'d decimal_ops" and r and c and w :: "'r world"
  assumes "db_up w"
  defines "resp \<equiv> fst (fst (Trade_Get T D r c w))"
  shows "snd (Trade_Get T D r c w) = w \<and> snd (fst (Trade_Get T D r c w)) = []
    \<and> (case pg_uuid T (URLParam r ''tradeId'') of
         None \<Rightarrow> is_error resp c 500 ''INTERNAL_ERROR''
       | Some u \<Rightarrow>
           (case tbl_lookup TradeID u (trades (w_db w)) of
              None \<Rightarrow> is_error resp c 404 ''NOT_FOUND''
            | Some row \<Rightarrow>
                if UserID row \<noteq> UserIDFromContext c then is_error resp c 403 ''FORBIDDEN''
                else resp = respondJSON 200 (PTrade (scanTrade D row))))"
proof -
  have "w\<lparr>w_db := w_db w\<rparr> = w" by (cases w) simp
  then show ?thesis
    using assms(1)
    by (auto simp: resp_def Trade_Get_def on_db_def GetByID_def select_trade_def StatusOK_def
        StatusInternalServerError_def split: option.splits)
qed

theorem Trade_Get_answers_witness:
  "is_error (fst (fst (Trade_Get ref_pg ref_decimal (ex_request\<lparr>rq_params := [''tradeId'' \<mapsto> ex_trade_id]\<rparr>)
      (as_user bob) ex_traded))) (as_user bob) 403 ''FORBIDDEN''"
proof -
  let ?r = "ex_request\<lparr>rq_params := [''tradeId'' \<mapsto> ex_trade_id]\<rparr>"
  have "pg_uuid ref_pg (URLParam ?r ''tradeId'') = Some ex_trade_id" by code_simp
  moreover have "tbl_lookup TradeID ex_trade_id (trades (w_db ex_traded)) = Some ex_trade"
    by (simp add: ex_traded_def ex_trade_def)
  moreover have "UserID ex_trade \<noteq> UserIDFromContext (as_user bob)"
    by (simp add: ex_trade_def as_user_def UserIDFromContext_def alice_def bob_def)
  moreover have "db_up ex_traded" by (simp add: ex_traded_def ex_defs)
  ultimately show ?thesis using Trade_Get_answers [of ex_traded ref_pg ref_decimal ?r "as_user bob"] by simp
qed

end
