(* ===== verification/Session_Handler.thy ===== *)
theory Session_Handler
  imports Coaching Trade_Handler
begin

text \<open>
  \<open>handler/session.go\<close>: the session summary, the debrief and the coaching stream. The decoder
  of the debrief's body is an argument.
\<close>

section \<open>The handlers\<close>

text \<open>The answer to a failed read of a session.\<close>

definition session_error :: "reqctx \<Rightarrow> go_error \<Rightarrow> 'd response" where
  "session_error c err =
     (if error_is err ErrNotFound then respondNotFound c ''Session not found.''
      else respondError c StatusInternalServerError ''INTERNAL_ERROR'' ''Failed to fetch session'')"

definition Session_Get :: "pg_types \<Rightarrow> 'd decimal_ops \<Rightarrow> ('r, 'd) handler" where
  "Session_Get T D r c w =
     (let sessionID = URLParam r ''sessionId''; jwtSub = UserIDFromContext c
      in case on_db (GetWithTrades T D sessionID) w of
           (Inl err, w1) \<Rightarrow> ((session_error c err, []), w1)
         | (Inr summary, w1) \<Rightarrow>
             if ss_UserID summary \<noteq> jwtSub then ((respondForbidden c, []), w1)
             else ((respondJSON StatusOK (PSummary summary), []), w1))"

record DebriefInput =
  di_OverallMood :: string
  di_KeyMistake :: "string option"
  di_KeyLesson :: "string option"
  di_PlanAdherenceRating :: "int option"
  di_WillReviewTomorrow :: bool

definition debrief_of_input :: "DebriefInput \<Rightarrow> Debrief" where
  "debrief_of_input input = empty_debrief\<lparr>de_OverallMood := di_OverallMood input,
     de_KeyMistake := di_KeyMistake input, de_KeyLesson := di_KeyLesson input,
     de_PlanAdherenceRating := di_PlanAdherenceRating input,
     de_WillReviewTomorrow := di_WillReviewTomorrow input\<rparr>"

text \<open>From the decoding of the body on, for a session the subject owns.\<close>

definition save_debrief :: "pg_types \<Rightarrow> (string \<Rightarrow> string + DebriefInput) \<Rightarrow> string \<Rightarrow> ('r, 'd) handler" where
  "save_debrief T decode sessionID r c w =
     (case decode (rq_body r) of
        Inl err \<Rightarrow> ((respondBadRequest c ''Invalid request body'', []), w)
      | Inr input \<Rightarrow>
          if \<not> IsValidEmotionalState (di_OverallMood input)
          then ((respondBadRequest c ''Invalid overallMood'', []), w)
          else (case on_db (InsertDebrief T sessionID (debrief_of_input input)) w of
                  (Inl err, w1) \<Rightarrow>
                    ((respondError c StatusInternalServerError ''INTERNAL_ERROR'' ''Failed to save debrief'', []), w1)
                | (Inr result, w1) \<Rightarrow>
                    ((respondJSON StatusCreated
                        (PDebrief (de_DebriefID result) (de_SessionID result) (de_SavedAt result)), []), w1)))"

definition Session_Debrief :: "pg_types \<Rightarrow> (string \<Rightarrow> string + DebriefInput) \<Rightarrow> ('r, 'd) handler" where
  "Session_Debrief T decode r c w =
     (let sessionID = URLParam r ''sessionId''; jwtSub = UserIDFromContext c
      in case on_db (GetSession T sessionID) w of
           (Inl err, w1) \<Rightarrow> ((session_error c err, []), w1)
         | (Inr sess, w1) \<Rightarrow>
             if se_UserID sess \<noteq> jwtSub then ((respondForbidden c, []), w1)
             else save_debrief T decode sessionID r c w1)"

text \<open>
  The stream takes what the polls of the request's context find and whether the response writer
  can flush.
\<close>

definition Session_Coaching :: "pg_types \<Rightarrow> (nat \<Rightarrow> bool) \<Rightarrow> bool \<Rightarrow> ('r, 'd) handler" where
  "Session_Coaching T cancelled flusher r c w =
     (let sessionID = URLParam r ''sessionId''; jwtSub = UserIDFromContext c
      in case on_db (GetSession T sessionID) w of
           (Inl err, w1) \<Rightarrow> ((session_error c err, []), w1)
         | (Inr session, w1) \<Rightarrow>
             if se_UserID session \<noteq> jwtSub then ((respondForbidden c, []), w1)
             else ((\<lparr>rs_status = StatusOK, rs_contentType = ''text/event-stream'',
                     rs_payload = PEvents (if \<not> flusher then [] else coaching_events cancelled session)\<rparr>, []), w1))"

section \<open>What the handlers read and write\<close>

lemma session_error_is [simp]:
  "is_error (session_error c ErrNotFound) c 404 ''NOT_FOUND''"
  "is_error (session_error c (pg_error T f)) c 500 ''INTERNAL_ERROR''"
  by (simp_all add: session_error_def StatusInternalServerError_def)

lemma session_error_status: "rs_status (session_error c e) \<in> {404, 500}"
  by (simp add: session_error_def StatusInternalServerError_def)

text \<open>A session that is answered is the subject's row of the table, and reading it changes only the script.\<close>

lemma GetSession_state: "\<exists>ds. snd (GetSession T x s) = s\<lparr>db_deliveries := ds\<rparr>"
proof -
  obtain ds where "snd (pg_send T (select_session T x) s) = s\<lparr>db_deliveries := ds\<rparr>"
    using pg_send_read [of "select_session T x" T s] by auto
  then show ?thesis by (auto simp: GetSession_def split: prod.splits sum.splits)
qed

lemma insert_debrief_cases:
  obtains (inserted) newid rest row where "db_uuid_supply s = newid # rest"
      "debrief_to_row T newid (db_now s) x d = Some row" "debrief_check row"
      "tbl_lookup db_DebriefID newid (debriefs s) = None"
      "tbl_lookup s_SessionID (db_SessionID row) (sessions s) \<noteq> None"
      "insert_debrief_row T x d s = (Inr row, s\<lparr>debriefs := debriefs s @ [row], db_uuid_supply := rest\<rparr>)"
  | (refused) f us where "insert_debrief_row T x d s = (Inl (pg_error T f), s\<lparr>db_uuid_supply := us\<rparr>)"
proof (cases "db_uuid_supply s")
  case Nil
  then have "s\<lparr>db_uuid_supply := []\<rparr> = s" by (cases s) simp
  with Nil show thesis using refused [of InvalidInput "[]"] by (simp add: insert_debrief_row_def)
next
  case (Cons newid rest)
  have keep: "s\<lparr>db_uuid_supply := newid # rest\<rparr> = s" using Cons by (cases s) simp
  show thesis
  proof (cases "debrief_to_row T newid (db_now s) x d")
    case None
    then show thesis using refused [of InvalidInput "newid # rest"] Cons keep by (simp add: insert_debrief_row_def)
  next
    case (Some row)
    note defs = insert_debrief_row_def Cons Some
    show thesis
    proof (cases "debrief_check row")
      case False
      then show thesis using refused [of CheckViolation rest] by (simp add: defs)
    next
      case check: True
      show thesis
      proof (cases "tbl_lookup db_DebriefID newid (debriefs s)")
        case (Some old)
        then show thesis using refused [of UniqueViolation rest] check by (simp add: defs)
      next
        case new: None
        show thesis
        proof (cases "tbl_lookup s_SessionID (db_SessionID row) (sessions s)")
          case None
          then show thesis using refused [of ForeignKeyViolation rest] check new by (simp add: defs)
        next
          case (Some r)
          have "insert_debrief_row T x d s = (Inr row, s\<lparr>debriefs := debriefs s @ [row], db_uuid_supply := rest\<rparr>)"
            using check new Some by (simp add: defs)
          then show thesis using inserted [of newid rest row] Cons \<open>debrief_to_row T newid (db_now s) x d = Some row\<close> check new Some by simp
        qed
      qed
    qed
  qed
qed

lemma debrief_to_row_fields:
  assumes "debrief_to_row T newid now x (debrief_of_input input) = Some row"
  shows "pg_uuid T x = Some (db_SessionID row)" "db_DebriefID row = newid" "db_SavedAt row = now"
    "db_OverallMood row = di_OverallMood input" "db_KeyMistake row = di_KeyMistake input"
    "db_KeyLesson row = di_KeyLesson input" "db_PlanAdherenceRating row = di_PlanAdherenceRating input"
    "db_WillReviewTomorrow row = di_WillReviewTomorrow input"
  using assms by (auto simp: debrief_to_row_def debrief_of_input_def bind_eq_Some_conv split: if_splits)

text \<open>What a debrief of an input for a session adds to the table.\<close>

definition records_debrief :: "pg_types \<Rightarrow> string \<Rightarrow> DebriefInput \<Rightarrow> db \<Rightarrow> debrief_row \<Rightarrow> bool" where
  "records_debrief T sessionID input s row \<longleftrightarrow>
     pg_uuid T sessionID = Some (db_SessionID row) \<and> debrief_check row \<and> db_SavedAt row = db_now s
     \<and> db_OverallMood row = di_OverallMood input \<and> db_KeyMistake row = di_KeyMistake input
     \<and> db_KeyLesson row = di_KeyLesson input \<and> db_PlanAdherenceRating row = di_PlanAdherenceRating input
     \<and> db_WillReviewTomorrow row = di_WillReviewTomorrow input
     \<and> tbl_lookup db_DebriefID (db_DebriefID row) (debriefs s) = None"

text \<open>Sending the insertion over a connection that may fail.\<close>

lemma InsertDebrief_effect:
  assumes "InsertDebrief T x (debrief_of_input input) s = (r, s')"
  shows "(\<exists>ds us e. r = Inl e \<and> s' = s\<lparr>db_deliveries := ds, db_uuid_supply := us\<rparr>)
    \<or> (\<exists>ds us row. records_debrief T x input s row
         \<and> s' = s\<lparr>db_deliveries := ds, debriefs := debriefs s @ [row], db_uuid_supply := us\<rparr>
         \<and> r \<in> {Inl (pg_error T ConnectionLost),
                Inr (empty_debrief\<lparr>de_DebriefID := db_DebriefID row, de_SessionID := db_SessionID row,
                                   de_SavedAt := db_SavedAt row\<rparr>)})"
proof -
  let ?d = "debrief_of_input input"
  have ins: "(\<exists>us f. insert_debrief_row T x ?d (s\<lparr>db_deliveries := ds\<rparr>)
          = (Inl (pg_error T f), s\<lparr>db_deliveries := ds, db_uuid_supply := us\<rparr>))
      \<or> (\<exists>us row. records_debrief T x input s row \<and> insert_debrief_row T x ?d (s\<lparr>db_deliveries := ds\<rparr>)
          = (Inr row, s\<lparr>db_deliveries := ds, debriefs := debriefs s @ [row], db_uuid_supply := us\<rparr>))" for ds
    by (rule insert_debrief_cases [of "s\<lparr>db_deliveries := ds\<rparr>" T x ?d])
      (auto simp: records_debrief_def debrief_to_row_fields)
  let ?refused = "\<lambda>s'. \<exists>ds us. s' = s\<lparr>db_deliveries := ds, db_uuid_supply := us\<rparr>"
    and ?stored = "\<lambda>s' row. records_debrief T x input s row
      \<and> (\<exists>ds us. s' = s\<lparr>db_deliveries := ds, debriefs := debriefs s @ [row], db_uuid_supply := us\<rparr>)"
  have one: "case insert_debrief_row T x ?d (s\<lparr>db_deliveries := ds\<rparr>) of
      (Inl e, s') \<Rightarrow> ?refused s' | (Inr row, s') \<Rightarrow> ?stored s' row" for ds
    using ins [of ds] by (elim disjE exE conjE) auto
  let ?E = "\<lambda>(r, s'). case r of Inr row \<Rightarrow> ?stored s' row
    | Inl e \<Rightarrow> ?refused s' \<or> e = pg_error T ConnectionLost \<and> (\<exists>row. ?stored s' row)"
  have "?E (pg_send T (insert_debrief_row T x ?d) s)"
  proof (rule pg_send_rule [where E = ?E])
    show "?E (insert_debrief_row T x ?d (s\<lparr>db_deliveries := ds\<rparr>))"
      "?E (Inl (pg_error T ConnectionLost), snd (insert_debrief_row T x ?d (s\<lparr>db_deliveries := ds\<rparr>)))" for ds
    proof -
      obtain r1 s1 where q: "insert_debrief_row T x ?d (s\<lparr>db_deliveries := ds\<rparr>) = (r1, s1)" by fastforce
      with one [of ds] have "case r1 of Inl e \<Rightarrow> ?refused s1 | Inr row \<Rightarrow> ?stored s1 row" by simp
      then show "?E (insert_debrief_row T x ?d (s\<lparr>db_deliveries := ds\<rparr>))"
        "?E (Inl (pg_error T ConnectionLost), snd (insert_debrief_row T x ?d (s\<lparr>db_deliveries := ds\<rparr>)))"
        unfolding q by (cases r1; simp; blast)+
    qed
    have "?refused (s\<lparr>db_deliveries := ds\<rparr>)" for ds
      by (intro exI [of _ ds] exI [of _ "db_uuid_supply s"]) simp
    then show "?E (Inl (pg_error T ConnectionLost), s\<lparr>db_deliveries := ds\<rparr>)" for ds by simp
  qed
  moreover obtain r1 s1 where q: "pg_send T (insert_debrief_row T x ?d) s = (r1, s1)" by fastforce
  ultimately have "?E (r1, s1)" by (simp only:)
  then show ?thesis using assms
    unfolding InsertDebrief_def q by (cases r1; simp; blast)
qed

section \<open>The summary of a session\<close>

text \<open>The rows of a session, in the order the query returns them.\<close>

definition session_rows :: "pg_types \<Rightarrow> string \<Rightarrow> db \<Rightarrow> rat Trade list" where
  "session_rows T u s = sort_key EntryAt (filter (\<lambda>t. SessionID t = u) (pg_scan T (trades s)))"

lemma ListBySession_up:
  "db_deliveries s = [] \<Longrightarrow> pg_uuid T x = Some u \<Longrightarrow>
   ListBySession T D x s = (Inr (map (scanTrade D) (session_rows T u s)), s)"
  by (simp add: ListBySession_def select_by_uuid_def session_rows_def scanTradeRows_def)

lemma GetWithTrades_up:
  assumes "db_deliveries s = []"
  shows "GetWithTrades T D x s =
    (case pg_uuid T x of None \<Rightarrow> (Inl (pg_error T InvalidInput), s)
     | Some u \<Rightarrow> (case tbl_lookup s_SessionID u (sessions s) of
                   None \<Rightarrow> (Inl ErrNotFound, s)
                 | Some r \<Rightarrow> (Inr (summarize D (scan_session r) (map (scanTrade D) (session_rows T u s))), s)))"
  using assms by (simp add: GetWithTrades_def GetSession_up ListBySession_up split: option.splits)

context postgres
begin

lemma mset_session_rows: "mset (session_rows T u s) = mset (filter (\<lambda>t. SessionID t = u) (trades s))"
  by (simp add: session_rows_def scan_permutes mset_filter)

lemma session_rows_props:
  "set (session_rows T u s) = {t \<in> set (trades s). SessionID t = u}"
  "length (session_rows T u s) = length (filter (\<lambda>t. SessionID t = u) (trades s))"
  "sorted (map EntryAt (session_rows T u s))"
  "sum_list (map f (session_rows T u s) :: rat list) = sum_list (map f (filter (\<lambda>t. SessionID t = u) (trades s)))"
proof -
  show "set (session_rows T u s) = {t \<in> set (trades s). SessionID t = u}"
    by (auto simp: session_rows_def)
  show "length (session_rows T u s) = length (filter (\<lambda>t. SessionID t = u) (trades s))"
    using mset_session_rows [of u s] by (metis size_mset)
  show "sorted (map EntryAt (session_rows T u s))" by (simp add: session_rows_def)
  show "sum_list (map f (session_rows T u s)) = sum_list (map f (filter (\<lambda>t. SessionID t = u) (trades s)))"
    by (simp only: sum_mset_sum_list [symmetric] mset_map mset_session_rows)
qed

end

context decimal
begin

text \<open>The total is the sum of the stored values, which the decimals represent exactly.\<close>

lemma summary_total:
  assumes "\<And>r. r \<in> set rs \<Longrightarrow> \<not> ptr_and (PnL r) (\<lambda>x. \<not> scale8 x)"
  shows "dec_value D (ss_TotalPnl (summarize D se (map (scanTrade D) rs))) = sum_list (map (\<lambda>r. opt_else 0 (PnL r)) rs)"
proof -
  have "sum_list (map (dec_value D) (List.map_filter PnL (map (scanTrade D) rs))) = sum_list (map (\<lambda>r. opt_else 0 (PnL r)) rs)"
    using assms
  proof (induction rs)
    case (Cons r rs)
    then have r: "\<not> ptr_and (PnL r) (\<lambda>x. \<not> scale8 x)" by simp
    from Cons show ?case
      using value_scan r by (cases "PnL r") (simp_all add: List.map_filter_simps)
  qed (simp add: List.map_filter_simps)
  then show ?thesis by (simp add: summarize_fields value_foldl value_zero)
qed

end

lemma win_rate_between:
  assumes "int (length ts) \<le> 2 ^ 53"
  shows "f64_between 0 1 (ss_WinRate (summarize D se ts))"
proof (cases "ts = []")
  case True
  then show ?thesis by (simp add: summarize_win_rate f64_between_def)
next
  case False
  let ?k = "length (filter (\<lambda>t. Outcome t = Some ''win'') ts)"
  have "?k \<le> length ts" "0 < length ts" using False by simp_all
  then show ?thesis
    using assms f64_ratio_between(1) [of "int (length ts)" "int ?k" 0 1] False
    by (simp add: summarize_win_rate)
qed

section \<open>Properties\<close>

text \<open>
  C14: GET of a session answers only its owner: on a connection that stays up, an ID that is not a
  UUID gives 500, an unknown session 404, another user's session 403; the owner gets 200 with
  every trade of the session (and no other), sorted by entry time, their number, the exact sum of
  their stored P\&L and a win rate between 0 and 1. The trades are those whose rows name the
  session, whoever posted them. Nothing is changed.
\<close>

theorem Session_Get_answers:
  fixes T and D :: "'d decimal_ops" and r and c and w :: "'r world"
  assumes "postgres T" "decimal D" "trades_ok T (w_db w)" "db_up w" "int (length (trades (w_db w))) \<le> 2 ^ 53"
  defines "resp \<equiv> fst (fst (Session_Get T D r c w))"
    and "rows \<equiv> \<lambda>u. filter (\<lambda>t. SessionID t = u) (trades (w_db w))"
  shows "snd (Session_Get T D r c w) = w \<and> snd (fst (Session_Get T D r c w)) = []
    \<and> (case pg_uuid T (URLParam r ''sessionId'') of
         None \<Rightarrow> is_error resp c 500 ''INTERNAL_ERROR''
       | Some u \<Rightarrow>
           (case tbl_lookup s_SessionID u (sessions (w_db w)) of
              None \<Rightarrow> is_error resp c 404 ''NOT_FOUND''
            | Some se \<Rightarrow>
                if s_UserID se \<noteq> UserIDFromContext c then is_error resp c 403 ''FORBIDDEN''
                else \<exists>sm. resp = respondJSON 200 (PSummary sm) \<and> ss_UserID sm = UserIDFromContext c
                  \<and> mset (ss_Trades sm) = image_mset (scanTrade D) (mset (rows u))
                  \<and> sorted (map EntryAt (ss_Trades sm)) \<and> ss_TradeCount sm = int (length (rows u))
                  \<and> dec_value D (ss_TotalPnl sm) = sum_list (map (\<lambda>t. opt_else 0 (PnL t)) (rows u))
                  \<and> f64_between 0 1 (ss_WinRate sm)))"
proof -
  have w: "w\<lparr>w_db := w_db w\<rparr> = w" by (cases w) simp
  note run = resp_def Session_Get_def on_db_def GetWithTrades_up [OF assms(4)] w StatusOK_def
  show ?thesis
  proof (cases "pg_uuid T (URLParam r ''sessionId'')")
    case None
    then show ?thesis by (simp add: run)
  next
    case (Some u)
    show ?thesis
    proof (cases "tbl_lookup s_SessionID u (sessions (w_db w))")
      case None
      with Some show ?thesis by (simp add: run)
    next
      case row: (Some se)
      let ?rs = "session_rows T u (w_db w)"
      let ?sm = "summarize D (scan_session se) (map (scanTrade D) ?rs)"
      note props = postgres.session_rows_props [OF assms(1), where u = u and s = "w_db w"]
      have "length ?rs \<le> length (trades (w_db w))" by (simp add: props)
      then have "f64_between 0 1 (ss_WinRate ?sm)" using assms(5) by (intro win_rate_between) simp
      moreover have "dec_value D (ss_TotalPnl ?sm) = sum_list (map (\<lambda>t. opt_else 0 (PnL t)) (rows u))"
        using decimal.summary_total [OF assms(2), of ?rs] assms(3) props
        by (auto simp: trades_ok_def trade_row_ok_def rows_def)
      moreover have "mset (ss_Trades ?sm) = image_mset (scanTrade D) (mset (rows u))"
        by (simp add: summarize_fields postgres.mset_session_rows [OF assms(1)] rows_def)
      moreover have "sorted (map EntryAt (ss_Trades ?sm))" using props(3) by (simp add: summarize_fields comp_def)
      ultimately show ?thesis
        using Some row by (auto simp: run summarize_fields scan_session_def props rows_def)
    qed
  qed
qed

lemma ex_traded_ok: "trades_ok ref_pg (w_db ex_traded)"
  unfolding ex_traded_def ex_world_def ex_db_def ex_trade_def alice_def alice_session_def ex_trade_id_def
    trades_ok_def trade_row_ok_def trade_fk_def trade_check_def
  by code_simp

theorem Session_Get_answers_witness:
  "\<exists>sm. fst (fst (Session_Get ref_pg ref_decimal (ex_request\<lparr>rq_params := [''sessionId'' \<mapsto> alice_session]\<rparr>)
        (as_user alice) ex_traded)) = respondJSON 200 (PSummary sm)
     \<and> ss_TradeCount sm = 1 \<and> dec_value ref_decimal (ss_TotalPnl sm) = - 20"
proof -
  let ?r = "ex_request\<lparr>rq_params := [''sessionId'' \<mapsto> alice_session]\<rparr>"
  have u: "pg_uuid ref_pg (URLParam ?r ''sessionId'') = Some alice_session" by code_simp
  have w: "w_db ex_traded = ex_db\<lparr>trades := [ex_trade]\<rparr>" by (simp add: ex_traded_def)
  have s: "tbl_lookup s_SessionID alice_session (sessions (w_db ex_traded)) = Some \<lparr>s_SessionID = alice_session,
      s_UserID = alice, s_StartedAt = ex_time, s_Notes = None\<rparr>"
    by (simp add: w ex_db_def)
  have "db_up ex_traded" by (simp add: w ex_db_def)
  moreover have "int (length (trades (w_db ex_traded))) \<le> 2 ^ 53" by (simp add: w)
  ultimately show ?thesis
    using Session_Get_answers [OF ref_pg.postgres_axioms ref.decimal_axioms ex_traded_ok, of ?r "as_user alice"] u s
    by (auto simp: as_user_def UserIDFromContext_def w ex_trade_def)
qed

text \<open>Once the session is found to be the caller's, the tail of the handler answers for the body or saves it.\<close>

lemma save_debrief_effect:
  fixes w :: "'r world"
  assumes run: "save_debrief T decode x r c w = ((resp :: 'd response, ts), w')"
  shows "(\<exists>ds us. w_db w' = (w_db w)\<lparr>db_deliveries := ds, db_uuid_supply := us\<rparr> \<and> rs_status resp \<in> {400, 500})
    \<or> (\<exists>input row ds us. decode (rq_body r) = Inr input \<and> IsValidEmotionalState (di_OverallMood input)
         \<and> records_debrief T x input (w_db w) row
         \<and> w_db w' = (w_db w)\<lparr>db_deliveries := ds, debriefs := debriefs (w_db w) @ [row], db_uuid_supply := us\<rparr>
         \<and> (resp = respondJSON 201 (PDebrief (db_DebriefID row) (db_SessionID row) (db_SavedAt row))
            \<or> is_error resp c 500 ''INTERNAL_ERROR''))"
proof (cases "\<exists>input. decode (rq_body r) = Inr input \<and> IsValidEmotionalState (di_OverallMood input)")
  case False
  then have "w' = w" "rs_status resp = 400"
    using run by (auto simp: save_debrief_def split: sum.splits if_splits)
  then show ?thesis by (intro disjI1 exI [of _ "db_deliveries (w_db w)"] exI [of _ "db_uuid_supply (w_db w)"]) simp
next
  case True
  then obtain input where input: "decode (rq_body r) = Inr input" "IsValidEmotionalState (di_OverallMood input)"
    by blast
  obtain y w2 where y: "on_db (InsertDebrief T x (debrief_of_input input)) w = (y, w2)" by fastforce
  then have w2: "w' = w2" and inl: "\<And>e. y = Inl e \<Longrightarrow> is_error resp c 500 ''INTERNAL_ERROR'' \<and> rs_status resp = 500"
    and inr: "\<And>d. y = Inr d \<Longrightarrow> resp = respondJSON 201 (PDebrief (de_DebriefID d) (de_SessionID d) (de_SavedAt d))"
    using run input
    by (auto simp: save_debrief_def StatusInternalServerError_def StatusCreated_def split: sum.splits)
  from InsertDebrief_effect [OF conjunct1 [OF on_db_eqD [OF y]]] consider
      (refused) ds us e where "y = Inl e" "w_db w2 = (w_db w)\<lparr>db_deliveries := ds, db_uuid_supply := us\<rparr>"
    | (saved) ds us row where "records_debrief T x input (w_db w) row"
        "w_db w2 = (w_db w)\<lparr>db_deliveries := ds, debriefs := debriefs (w_db w) @ [row], db_uuid_supply := us\<rparr>"
        "y \<in> {Inl (pg_error T ConnectionLost), Inr (empty_debrief\<lparr>de_DebriefID := db_DebriefID row,
              de_SessionID := db_SessionID row, de_SavedAt := db_SavedAt row\<rparr>)}"
    by blast
  then show ?thesis
  proof cases
    case refused
    then show ?thesis using inl w2 by blast
  next
    case saved
    then have "resp = respondJSON 201 (PDebrief (db_DebriefID row) (db_SessionID row) (db_SavedAt row))
        \<or> is_error resp c 500 ''INTERNAL_ERROR''"
      using inl inr by auto
    then show ?thesis using saved input w2 by blast
  qed
qed

text \<open>
  Whatever the body and the failures of the connection, a debrief request changes no table but
  the debriefs; it appends at most one row, and only for a body that decodes with a valid mood and
  a session that exists and belongs to the subject: the row carries the input's fields, the
  session, the server's time and a fresh key, and its rating, if any, is between 1 and 5. An
  answer of 201 names that row.
\<close>

lemma Debrief_effect:
  fixes T and decode and r and c and w :: "'r world"
  defines "s \<equiv> w_db w"
    and "s' \<equiv> w_db (snd (Session_Debrief T decode r c w :: ('d response \<times> task list) \<times> 'r world))"
    and "resp \<equiv> fst (fst (Session_Debrief T decode r c w :: ('d response \<times> task list) \<times> 'r world))"
  shows "(\<exists>ds us. s' = s\<lparr>db_deliveries := ds, db_uuid_supply := us\<rparr> \<and> rs_status resp \<in> {400, 403, 404, 500})
    \<or> (\<exists>input se row ds us. decode (rq_body r) = Inr input \<and> IsValidEmotionalState (di_OverallMood input)
         \<and> tbl_lookup s_SessionID (db_SessionID row) (sessions s) = Some se \<and> s_UserID se = UserIDFromContext c
         \<and> records_debrief T (URLParam r ''sessionId'') input s row
         \<and> s' = s\<lparr>db_deliveries := ds, debriefs := debriefs s @ [row], db_uuid_supply := us\<rparr>
         \<and> (resp = respondJSON 201 (PDebrief (db_DebriefID row) (db_SessionID row) (db_SavedAt row))
            \<or> is_error resp c 500 ''INTERNAL_ERROR''))"
proof -
  let ?sid = "URLParam r ''sessionId''"
  obtain resp0 ts w' where run: "Session_Debrief T decode r c w = ((resp0 :: 'd response, ts), w')" by (metis prod.exhaust)
  then have outs: "s' = w_db w'" "resp = resp0" by (simp_all add: s'_def resp_def)
  obtain x w1 where g: "on_db (GetSession T ?sid) w = (x, w1)" by fastforce
  then obtain ds0 where w1: "w_db w1 = s\<lparr>db_deliveries := ds0\<rparr>" and get: "GetSession T ?sid s = (x, w_db w1)"
    using on_db_eqD [OF g] GetSession_state [of T ?sid s] by (auto simp: s_def)
  have same: ?thesis if "w' = w1" "rs_status resp0 \<in> {400, 403, 404, 500}"
    using that w1 outs by (intro disjI1 exI [of _ ds0] exI [of _ "db_uuid_supply s"]) simp
  show ?thesis
  proof (cases x)
    case (Inl e)
    then show ?thesis using run g session_error_status [of c e] by (intro same) (auto simp: Session_Debrief_def)
  next
    case (Inr sess)
    then obtain u se where se: "pg_uuid T ?sid = Some u" "tbl_lookup s_SessionID u (sessions s) = Some se"
      "sess = scan_session se"
      using GetSession_Inr get by blast
    show ?thesis
    proof (cases "se_UserID sess = UserIDFromContext c")
      case False
      then show ?thesis using run g Inr by (intro same) (auto simp: Session_Debrief_def)
    next
      case True
      then have "save_debrief T decode ?sid r c w1 = ((resp0, ts), w')"
        using run g Inr by (simp add: Session_Debrief_def)
      from save_debrief_effect [OF this] consider
          (answered) ds us where "w_db w' = (w_db w1)\<lparr>db_deliveries := ds, db_uuid_supply := us\<rparr>"
            "rs_status resp0 \<in> {400, 500}"
        | (saved) input row ds us where "decode (rq_body r) = Inr input" "IsValidEmotionalState (di_OverallMood input)"
            "records_debrief T ?sid input (w_db w1) row"
            "w_db w' = (w_db w1)\<lparr>db_deliveries := ds, debriefs := debriefs (w_db w1) @ [row], db_uuid_supply := us\<rparr>"
            "resp0 = respondJSON 201 (PDebrief (db_DebriefID row) (db_SessionID row) (db_SavedAt row))
              \<or> is_error resp0 c 500 ''INTERNAL_ERROR''"
        by blast
      then show ?thesis
      proof cases
        case answered
        then show ?thesis using w1 outs by (intro disjI1 exI [of _ ds] exI [of _ us]) auto
      next
        case saved
        then have "u = db_SessionID row" "records_debrief T ?sid input s row"
          using se(1) w1 by (simp_all add: records_debrief_def)
        then show ?thesis using saved se True w1 outs
          by (intro disjI2 exI [of _ input] exI [of _ se] exI [of _ row] exI [of _ ds] exI [of _ us])
            (simp add: scan_session_def)
      qed
    qed
  qed
qed

text \<open>
  C29: The coaching stream is sent to the owner of the session only (500 for an ID that is not a
  UUID, 404, 403 otherwise, and nothing is changed): as long as no poll of the request's context
  finds it done, the events are the words of the coaching message, numbered from zero, and then one
  \<open>done\<close> event with the whole message; when a poll finds the client gone, the events are
  exactly the words in front of that poll and no \<open>done\<close> event follows.
\<close>

theorem Coaching_stream:
  fixes T and cancelled and r and c and w :: "'r world"
  assumes "db_up w"
  defines "resp \<equiv> fst (fst (Session_Coaching T cancelled True r c w :: ('d response \<times> task list) \<times> 'r world))"
    and "words \<equiv> \<lambda>se. tokenize (generateCoachingMessage (scan_session se))"
  shows "w_db (snd (Session_Coaching T cancelled True r c w :: ('d response \<times> task list) \<times> 'r world)) = w_db w
    \<and> (case pg_uuid T (URLParam r ''sessionId'') of
         None \<Rightarrow> is_error resp c 500 ''INTERNAL_ERROR''
       | Some u \<Rightarrow>
           (case tbl_lookup s_SessionID u (sessions (w_db w)) of
              None \<Rightarrow> is_error resp c 404 ''NOT_FOUND''
            | Some se \<Rightarrow>
                if s_UserID se \<noteq> UserIDFromContext c then is_error resp c 403 ''FORBIDDEN''
                else rs_status resp = 200 \<and> rs_contentType resp = ''text/event-stream''
                  \<and> ((\<forall>j \<in> {0..<length (words se)}. \<not> cancelled j)
                       \<and> rs_payload resp = PEvents (token_events (words se)
                            @ [DoneEvent (generateCoachingMessage (scan_session se))])
                     \<or> (\<exists>n < length (words se). cancelled n \<and> (\<forall>j \<in> {0..<n}. \<not> cancelled j)
                          \<and> rs_payload resp = PEvents (token_events (take n (words se)))))))"
proof -
  note run = resp_def Session_Coaching_def on_db_def GetSession_up [OF assms(1)] StatusOK_def
  show ?thesis
  proof (cases "pg_uuid T (URLParam r ''sessionId'')")
    case None
    then show ?thesis by (simp add: run)
  next
    case (Some u)
    show ?thesis
    proof (cases "tbl_lookup s_SessionID u (sessions (w_db w))")
      case None
      with Some show ?thesis by (simp add: run)
    next
      case row: (Some se)
      show ?thesis
      proof (cases "s_UserID se = UserIDFromContext c")
        case False
        with Some row show ?thesis by (simp add: run scan_session_def)
      next
        case True
        then have ev: "rs_status resp = 200 \<and> rs_contentType resp = ''text/event-stream''
            \<and> rs_payload resp = PEvents (coaching_events cancelled (scan_session se))"
          using Some row by (simp add: run) (simp add: scan_session_def)
        have db: "w_db (snd (Session_Coaching T cancelled True r c w :: ('d response \<times> task list) \<times> 'r world)) = w_db w"
          using True Some row by (simp add: run scan_session_def)
        have "(\<forall>j \<in> {0..<length (words se)}. \<not> cancelled j)
              \<and> coaching_events cancelled (scan_session se) = token_events (words se)
                   @ [DoneEvent (generateCoachingMessage (scan_session se))]
            \<or> (\<exists>n < length (words se). cancelled n \<and> (\<forall>j \<in> {0..<n}. \<not> cancelled j)
                 \<and> coaching_events cancelled (scan_session se) = token_events (take n (words se)))"
          by (rule coaching_events_cases [of "scan_session se" cancelled]) (auto simp: words_def)
        then show ?thesis using Some row True ev db by auto
      qed
    qed
  qed
qed

theorem Coaching_stream_witness:
  "rs_payload (fst (fst (Session_Coaching ref_pg (\<lambda>n. n = 2) True
      (ex_request\<lparr>rq_params := [''sessionId'' \<mapsto> alice_session]\<rparr>) (as_user alice) ex_world)) :: dec response)
     = PEvents [TokenEvent ''Great'' 0, TokenEvent ''session'' 1]"
proof -
  let ?r = "ex_request\<lparr>rq_params := [''sessionId'' \<mapsto> alice_session]\<rparr>"
  let ?se = "\<lparr>s_SessionID = alice_session, s_UserID = alice, s_StartedAt = ex_time, s_Notes = None\<rparr>"
  let ?ts = "tokenize (generateCoachingMessage (scan_session ?se))"
  have u: "pg_uuid ref_pg (URLParam ?r ''sessionId'') = Some alice_session" by code_simp
  have s: "tbl_lookup s_SessionID alice_session (sessions (w_db ex_world)) = Some ?se"
    by (simp add: ex_world_def ex_db_def)
  have ts: "take 2 ?ts = [''Great'', ''session'']" "2 < length ?ts" by code_simp+
  have up: "db_up ex_world" by (simp add: ex_world_def ex_db_def)
  have owner: "alice = UserIDFromContext (as_user alice)" by (simp add: as_user_def UserIDFromContext_def)
  from Coaching_stream [OF up, of ref_pg "\<lambda>n. n = 2" ?r "as_user alice", where 'd = dec] u s owner ts
  show ?thesis by (auto simp: token_events_def)
qed

end
