(* ===== verification/Worker.thy ===== *)
theory Worker
  imports World
begin

text \<open>
  \<open>internal/pipeline/worker.go\<close>: the consumer of the event stream. Every message of a closed
  trade updates the hourly bucket, the rolling plan adherence, the session tilt, the daily win
  rate of its emotion and the overtrading window; every message is acknowledged, whatever the
  updates answered. Log output is left out.
\<close>

definition StreamName :: string where "StreamName = ''trades:events''"
definition GroupName :: string where "GroupName = ''nevup-analytics''"
definition ConsumerName :: string where "ConsumerName = ''worker-1''"

section \<open>processMessage\<close>

definition str :: "string strmap \<Rightarrow> string \<Rightarrow> string" where
  "str m key = (case m key of Some v \<Rightarrow> v | None \<Rightarrow> '''')"

definition parseInt :: "string \<Rightarrow> int" where "parseInt s = fst (parse_int64 s)"

text \<open>\<open>entryAt, _ = time.Parse(...)\<close>: the zero time when the text does not parse.\<close>

definition message_entry_at :: "string strmap \<Rightarrow> time" where
  "message_entry_at values = opt_else zero_time (parse_rfc3339 (str values ''entryAt''))"

definition message_pnl :: "'d decimal_ops \<Rightarrow> string strmap \<Rightarrow> 'd" where
  "message_pnl D values =
     (let pnlStr = str values ''pnl''
      in if pnlStr \<noteq> '''' then opt_else (dec_zero D) (dec_of_string D pnlStr) else dec_zero D)"

definition message_revenge :: "string strmap \<Rightarrow> int" where
  "message_revenge values =
     (let revengeFlagStr = str values ''revengeFlag''
      in if revengeFlagStr = ''true'' \<or> revengeFlagStr = ''1'' then 1 else 0)"

definition message_bucket :: "string strmap \<Rightarrow> time" where
  "message_bucket values = time_truncate (message_entry_at values) hour"

text \<open>1. The counts of the bucket.\<close>

definition update_bucket :: "pg_types \<Rightarrow> 'd decimal_ops \<Rightarrow> string strmap \<Rightarrow> 'r world \<Rightarrow> 'r world" where
  "update_bucket T D values w =
     (let outcome = str values ''outcome'';
          winCount = (if outcome = OutcomeWin then 1 else 0);
          lossCount = (if outcome = OutcomeWin then 0 else 1)
      in snd (on_db (UpsertBucket T D (str values ''userId'') (message_bucket values)
                1 winCount lossCount (message_pnl D values) None None (message_revenge values) 0) w))"

text \<open>2. The rolling plan adherence.\<close>

definition update_adherence :: "pg_types \<Rightarrow> 'd decimal_ops \<Rightarrow> string strmap \<Rightarrow> 'r world \<Rightarrow> 'r world" where
  "update_adherence T D values w =
     (if str values ''planAdherence'' = '''' then w
      else (case on_db (GetLastPlanAdherenceRatings T (str values ''userId'') 10) w of
              (Inl _, w1) \<Rightarrow> w1
            | (Inr ratings, w1) \<Rightarrow>
                if 0 < length ratings
                then snd (on_db (UpsertBucket T D (str values ''userId'') (message_bucket values)
                            0 0 0 (dec_zero D) (Some (RollingAvg ratings)) None 0 0) w1)
                else w1))"

text \<open>3. The session tilt index.\<close>

definition update_tilt :: "pg_types \<Rightarrow> 'd decimal_ops \<Rightarrow> string strmap \<Rightarrow> 'r world \<Rightarrow> 'r world" where
  "update_tilt T D values w =
     (if str values ''sessionId'' = '''' then w
      else (case on_db (GetSessionTiltData T (str values ''sessionId'')) w of
              (Inl _, w1) \<Rightarrow> w1
            | (Inr (lossFollow, totalCount), w1) \<Rightarrow>
                snd (on_db (UpsertBucket T D (str values ''userId'') (message_bucket values)
                       0 0 0 (dec_zero D) None (Some (SessionTiltIndex lossFollow totalCount)) 0 0) w1)))"

text \<open>4. The win rate of the emotional state.\<close>

definition update_emotion :: "pg_types \<Rightarrow> string strmap \<Rightarrow> 'r world \<Rightarrow> 'r world" where
  "update_emotion T values w =
     (let emotionalState = str values ''emotionalState'';
          outcome = str values ''outcome'';
          wins = (if outcome = OutcomeWin then 1 else 0);
          losses = (if outcome = OutcomeWin then 0 else 1);
          dateBucket = time_truncate (message_entry_at values) (24 * hour)
      in if emotionalState = '''' then w
         else snd (on_db (UpsertEmotionWinRate T (str values ''userId'') emotionalState dateBucket wins losses) w))"

text \<open>5. The overtrading window.\<close>

definition detect_overtrading ::
  "pg_types \<Rightarrow> 'r redis_ops \<Rightarrow> string strmap \<Rightarrow> 'r world \<Rightarrow> 'r world" where
  "detect_overtrading T R values w =
     (let nowMs = unix_milli (message_entry_at values);
          key = trades_ts_key (str values ''userId'')
      in case on_redis (OvertradingCheck R key nowMs (str values ''tradeId'') WindowDurationMs) w of
           (Inl _, w1) \<Rightarrow> w1
         | (Inr n, w1) \<Rightarrow>
             if MaxTradesPerWindow < n
             then snd (on_db (InsertOvertradingEvent T (str values ''userId'')
                         (time_unix_milli (nowMs - WindowDurationMs)) n) w1)
             else w1)"

text \<open>The error result is always nil.\<close>

definition processMessage ::
  "pg_types \<Rightarrow> 'd decimal_ops \<Rightarrow> 'r redis_ops \<Rightarrow> string strmap \<Rightarrow> 'r world \<Rightarrow> go_error option \<times> 'r world" where
  "processMessage T D R values w =
     (if str values ''status'' \<noteq> ''closed'' then (None, w)
      else (let w1 = update_bucket T D values w;
                w2 = update_adherence T D values w1;
                w3 = update_tilt T D values w2;
                w4 = update_emotion T values w3;
                w5 = detect_overtrading T R values w4
            in (None, w5)))"

section \<open>Run\<close>

text \<open>One message: the error of the processing is only logged, then the message is acknowledged.\<close>

definition handle_message :: "pg_types \<Rightarrow> 'd decimal_ops \<Rightarrow> 'r redis_ops \<Rightarrow> 'r world \<Rightarrow> entry \<Rightarrow> 'r world" where
  "handle_message T D R w msg =
     (case processMessage T D R (snd msg) w of
        (_, w1) \<Rightarrow> snd (on_redis (Stream_Ack R StreamName GroupName [fst msg]) w1))"

definition handle_streams ::
  "pg_types \<Rightarrow> 'd decimal_ops \<Rightarrow> 'r redis_ops \<Rightarrow> (string \<times> entry list) list \<Rightarrow> 'r world \<Rightarrow> 'r world" where
  "handle_streams T D R streams w =
     foldl (\<lambda>w stream. foldl (handle_message T D R) w (snd stream)) w streams"

text \<open>
  The loop. Its first number counts how many more times the context is found alive when it is
  polled (\<open>ctx.Done()\<close> before a read, \<open>ctx.Err()\<close> after a failed one); \<open>env\<close> is what the other
  processes do to the servers before each read. The one-second pause after a failed read is not
  modelled.
\<close>

fun Run_loop ::
  "pg_types \<Rightarrow> 'd decimal_ops \<Rightarrow> 'r redis_ops \<Rightarrow> ('r world \<Rightarrow> 'r world) \<Rightarrow> nat \<Rightarrow> 'r world
   \<Rightarrow> string option \<times> 'r world" where
  "Run_loop T D R env 0 w = (None, w)"
| "Run_loop T D R env (Suc n) w =
     (case on_redis (Stream_ReadGroup R GroupName ConsumerName StreamName 10 (5 * second)) (env w) of
        (Inl _, w1) \<Rightarrow> (case n of 0 \<Rightarrow> (None, w1) | Suc m \<Rightarrow> Run_loop T D R env m w1)
      | (Inr streams, w1) \<Rightarrow> Run_loop T D R env n (handle_streams T D R streams w1))"

definition Run ::
  "pg_types \<Rightarrow> 'd decimal_ops \<Rightarrow> 'r redis_ops \<Rightarrow> ('r world \<Rightarrow> 'r world) \<Rightarrow> nat \<Rightarrow> 'r world
   \<Rightarrow> string option \<times> 'r world" where
  "Run T D R env polls w =
     (case on_redis (Stream_CreateGroup R StreamName GroupName ''0'') w of
        (Inl err, w1) \<Rightarrow> (Some (''failed to create consumer group: '' @ err), w1)
      | (Inr _, w1) \<Rightarrow> Run_loop T D R env polls w1)"


section \<open>Each step as a sequence of statements\<close>

text \<open>
  A property of the database that the statements of the worker keep is kept by a message: the
  induction principle of the invariants below. The steps after the first one only write rows of
  zero counts to the buckets.
\<close>

lemma message_tail_keeps:
  fixes R :: "'r redis_ops" and w :: "'r world"
  assumes up: "\<And>s a t. P s \<Longrightarrow> P (snd (UpsertBucket T D (str v ''userId'') (message_bucket v) 0 0 0 (dec_zero D) a t 0 0 s))"
    and em: "\<And>s e d wn ls. P s \<Longrightarrow> P (snd (UpsertEmotionWinRate T (str v ''userId'') e d wn ls s))"
    and ov: "\<And>s ws n. P s \<Longrightarrow> P (snd (InsertOvertradingEvent T (str v ''userId'') ws n s))"
    and ra: "\<And>s u n. P s \<Longrightarrow> P (snd (GetLastPlanAdherenceRatings T u n s))"
    and ti: "\<And>s x. P s \<Longrightarrow> P (snd (GetSessionTiltData T x s))"
    and P: "P (w_db w)"
  shows "P (w_db (detect_overtrading T R v (update_emotion T v (update_tilt T D v (update_adherence T D v w)))))"
proof -
  have 2: "P (w_db (update_adherence T D v w))" if "P (w_db w)" for w :: "'r world"
  proof (cases "on_db (GetLastPlanAdherenceRatings T (str v ''userId'') 10) w")
    case (Pair r w1)
    then have "P (w_db w1)" using that ra [of "w_db w" "str v ''userId''" 10] by (auto dest: on_db_eqD)
    with Pair that show ?thesis by (simp add: update_adherence_def up split: sum.splits)
  qed
  have 3: "P (w_db (update_tilt T D v w))" if "P (w_db w)" for w :: "'r world"
  proof (cases "on_db (GetSessionTiltData T (str v ''sessionId'')) w")
    case (Pair r w1)
    then have "P (w_db w1)" using that ti [of "w_db w" "str v ''sessionId''"] by (auto dest: on_db_eqD)
    with Pair that show ?thesis by (simp add: update_tilt_def up split: sum.splits prod.splits)
  qed
  have 4: "P (w_db (update_emotion T v w))" if "P (w_db w)" for w :: "'r world"
    using that by (simp add: update_emotion_def Let_def em)
  have 5: "P (w_db (detect_overtrading T R v w))" if "P (w_db w)" for w :: "'r world"
  proof (cases "on_redis (OvertradingCheck R (trades_ts_key (str v ''userId''))
      (unix_milli (message_entry_at v)) (str v ''tradeId'') WindowDurationMs) w")
    case (Pair r w1)
    then have "P (w_db w1)" using that by (auto dest: on_redis_eqD)
    with Pair show ?thesis by (simp add: detect_overtrading_def Let_def ov split: sum.splits)
  qed
  show ?thesis using P by (simp add: 2 3 4 5)
qed

lemma processMessage_eq:
  "processMessage T D R v w =
     (None, if str v ''status'' \<noteq> ''closed'' then w
            else detect_overtrading T R v (update_emotion T v (update_tilt T D v
                   (update_adherence T D v (update_bucket T D v w)))))"
  by (simp add: processMessage_def Let_def)

lemma processMessage_keeps:
  fixes R :: "'r redis_ops" and w :: "'r world"
  assumes up: "\<And>s tc wc lc p a t rc. \<lbrakk>P s; tc = wc + lc; 0 \<le> wc; 0 \<le> lc; 0 \<le> rc; rc \<le> tc\<rbrakk>
      \<Longrightarrow> P (snd (UpsertBucket T D (str v ''userId'') (message_bucket v) tc wc lc p a t rc 0 s))"
    and em: "\<And>s e d wn ls. P s \<Longrightarrow> P (snd (UpsertEmotionWinRate T (str v ''userId'') e d wn ls s))"
    and ov: "\<And>s ws n. P s \<Longrightarrow> P (snd (InsertOvertradingEvent T (str v ''userId'') ws n s))"
    and ra: "\<And>s u n. P s \<Longrightarrow> P (snd (GetLastPlanAdherenceRatings T u n s))"
    and ti: "\<And>s x. P s \<Longrightarrow> P (snd (GetSessionTiltData T x s))"
    and P: "P (w_db w)"
  shows "P (w_db (snd (processMessage T D R v w)))"
proof -
  have w1: "P (w_db (update_bucket T D v w))"
    using P by (simp add: update_bucket_def Let_def up message_revenge_def)
  have "P (w_db (detect_overtrading T R v (update_emotion T v (update_tilt T D v
      (update_adherence T D v (update_bucket T D v w))))))"
    by (rule message_tail_keeps [where P = P]) (simp_all add: up em ov ra ti w1)
  with P show ?thesis by (simp add: processMessage_eq)
qed

lemma handle_message_db:
  "w_db (handle_message T D R w msg) = w_db (snd (processMessage T D R (snd msg) w))"
  by (simp add: handle_message_def split: prod.splits)

text \<open>What every message and every step of the environment keeps, the whole run keeps.\<close>

lemma foldl_keeps: "(\<And>w x. P w \<Longrightarrow> P (f w x)) \<Longrightarrow> P w \<Longrightarrow> P (foldl f w xs)"
  by (induction xs arbitrary: w) auto

lemma Run_loop_keeps:
  assumes msg: "\<And>w m. P (w_db w) \<Longrightarrow> P (w_db (handle_message T D R w m))"
    and env: "\<And>w. P (w_db w) \<Longrightarrow> P (w_db (env w))" and P: "P (w_db w)"
  shows "P (w_db (snd (Run_loop T D R env n w)))"
proof -
  have inner: "P (w_db (foldl (handle_message T D R) w es))" if "P (w_db w)" for es w
    by (rule foldl_keeps [where P = "\<lambda>w. P (w_db w)"]) (simp_all add: msg that)
  have st: "P (w_db (handle_streams T D R streams w))" if "P (w_db w)" for streams w
    unfolding handle_streams_def
    by (rule foldl_keeps [where P = "\<lambda>w. P (w_db w)"]) (simp_all add: inner that)
  show ?thesis using P
  proof (induction n arbitrary: w rule: less_induct)
    case (less n)
    show ?case
    proof (cases n)
      case (Suc m)
      obtain r w1 where rd: "on_redis (Stream_ReadGroup R GroupName ConsumerName StreamName 10 (5 * second)) (env w) = (r, w1)"
        by fastforce
      have w1: "P (w_db w1)" using on_redis_eqD [OF rd] env [OF less.prems] by simp
      show ?thesis
      proof (cases r)
        case (Inl e)
        show ?thesis
        proof (cases m)
          case (Suc k)
          with \<open>n = Suc m\<close> Inl rd less.IH [of k w1] w1 show ?thesis by simp
        qed (use Suc Inl rd w1 in simp)
      next
        case (Inr sts)
        with Suc rd less.IH [of m] st [OF w1] show ?thesis by simp
      qed
    qed (use less.prems in simp)
  qed
qed

lemma Run_keeps:
  assumes msg: "\<And>w m. P (w_db w) \<Longrightarrow> P (w_db (handle_message T D R w m))"
    and env: "\<And>w. P (w_db w) \<Longrightarrow> P (w_db (env w))" and P: "P (w_db w)"
  shows "P (w_db (snd (Run T D R env polls w)))"
proof (cases "on_redis (Stream_CreateGroup R StreamName GroupName ''0'') w")
  case (Pair r w1)
  then have "P (w_db w1)" using P by (auto dest: on_redis_eqD)
  with Pair show ?thesis
    by (auto simp: Run_def Run_loop_keeps [where P = P, OF msg env] split: sum.splits)
qed


section \<open>What a sequence of messages adds to a bucket\<close>

text \<open>The row that the first step of a closed trade's message is merged with its bucket.\<close>

definition event_row :: "pg_types \<Rightarrow> 'd decimal_ops \<Rightarrow> string strmap \<Rightarrow> metrics_row option" where
  "event_row T D v =
     (if str v ''status'' = ''closed''
      then metrics_to_row T D (str v ''userId'') (message_bucket v) 1
             (if str v ''outcome'' = ''win'' then 1 else 0) (if str v ''outcome'' = ''win'' then 0 else 1)
             (message_pnl D v) None None (message_revenge v) 0
      else None)"

text \<open>A bucket has room for the messages: its INT and NUMERIC(18,8) columns cannot overflow.\<close>

definition bucket_room :: "pg_types \<Rightarrow> 'd decimal_ops \<Rightarrow> db \<Rightarrow> time \<times> string \<Rightarrow> string strmap list \<Rightarrow> bool" where
  "bucket_room T D s k vs \<longleftrightarrow>
     bucket_sum m_TradeCount s k + int (length vs) < 2 ^ 31
     \<and> \<bar>bucket_sum m_TotalPnl s k\<bar> + sum_list (map (\<lambda>v. \<bar>row_sum m_TotalPnl (event_row T D v) k\<bar>) vs) < 10 ^ 10"

lemma bucket_room_Cons:
  "bucket_room T D s k (v # vs) \<longleftrightarrow>
     bucket_sum m_TradeCount s k + (int (length vs) + 1) < 2 ^ 31
     \<and> \<bar>bucket_sum m_TotalPnl s k\<bar> + (\<bar>row_sum m_TotalPnl (event_row T D v) k\<bar>
         + sum_list (map (\<lambda>v. \<bar>row_sum m_TotalPnl (event_row T D v) k\<bar>) vs)) < 10 ^ 10"
  by (simp only: bucket_room_def list.map sum_list.Cons list.size of_nat_add of_nat_1 One_nat_def [symmetric])
    (simp only: Suc_eq_plus1 of_nat_add of_nat_1)?

definition process_all ::
  "pg_types \<Rightarrow> 'd decimal_ops \<Rightarrow> 'r redis_ops \<Rightarrow> 'r world \<Rightarrow> string strmap list \<Rightarrow> 'r world" where
  "process_all T D R w vs = foldl (\<lambda>w v. snd (processMessage T D R v w)) w vs"

lemma UpsertBucket_up: "db_deliveries s = [] \<Longrightarrow>
    UpsertBucket T D u b tc wc lc p a t rc oc s = upsert_bucket_row T (metrics_to_row T D u b tc wc lc p a t rc oc) s"
  by (simp add: UpsertBucket_def)

lemma event_row_ok:
  assumes "event_row T D v = Some r"
  shows "metrics_row_ok r" "m_TradeCount r = 1"
    "pg_numeric18_8 T (dec_value D (message_pnl D v)) = Some (m_TotalPnl r)"
  using assms
  by (auto simp: event_row_def metrics_to_row_def metrics_row_ok_def message_revenge_def Let_def
      bind_eq_Some_conv split: if_splits)

lemma row_sum_event_count: "0 \<le> row_sum m_TradeCount (event_row T D v) k" "row_sum m_TradeCount (event_row T D v) k \<le> 1"
  by (auto simp: row_sum_def event_row_ok(2) split: option.splits)

lemma processMessage_metrics_inv:
  "metrics_inv T (w_db w) \<Longrightarrow> metrics_inv T (w_db (snd (processMessage T D R v w)))"
  by (rule processMessage_keeps [where P = "metrics_inv T"])
    (simp_all add: UpsertBucket_metrics_inv metrics_inv_cong [OF UpsertEmotionWinRate_frame(2)]
      metrics_inv_cong [OF InsertOvertradingEvent_frame(2)] pipeline_reads_frame [where V = "metrics_inv T"])

lemma processMessage_up: "db_up w \<Longrightarrow> db_up (snd (processMessage T D R v w))"
  by (rule processMessage_keeps [where P = "\<lambda>s. db_deliveries s = []"]) (simp_all add: statements_up)

lemma processMessage_ledger: "ledger (w_db (snd (processMessage T D R v w))) = ledger (w_db w)"
  by (rule processMessage_keeps [where P = "\<lambda>s. ledger s = ledger (w_db w)"])
    (simp_all add: frame_simps pipeline_reads_frame [where V = ledger])

context backend
begin

lemma processMessage_sum:
  fixes f :: "metrics_row \<Rightarrow> 'n::comm_monoid_add" and R :: "'r redis_ops"
  assumes up: "db_up w" and inv: "metrics_inv T (w_db w)"
    and add: "\<And>x r. f (metrics_merge x r) = f x + f r"
    and z: "\<And>r. \<lbrakk>m_TradeCount r = 0; m_WinCount r = 0; m_LossCount r = 0; m_RevengeCount r = 0; m_TotalPnl r = 0\<rbrakk> \<Longrightarrow> f r = 0"
    and room: "bucket_room T D (w_db w) k (v # vs)"
  shows "bucket_sum f (w_db (snd (processMessage T D R v w))) k
      = bucket_sum f (w_db w) k + row_sum f (event_row T D v) k"
proof (cases "str v ''status'' = ''closed''")
  case False
  then show ?thesis by (simp add: processMessage_def event_row_def row_sum_def)
next
  case True
  let ?w1 = "update_bucket T D v w"
  have r: "metrics_row_ok r \<and> pg_numeric18_8 T (m_TotalPnl r) = Some (m_TotalPnl r)"
    if "event_row T D v = Some r" for r
    using event_row_ok(1) [OF that] numeric_idem [OF event_row_ok(3) [OF that]] by simp
  let ?c = "row_sum m_TradeCount (event_row T D v) k" and ?p = "row_sum m_TotalPnl (event_row T D v) k"
  have nn: "0 \<le> sum_list (map (\<lambda>v. \<bar>row_sum m_TotalPnl (event_row T D v) k\<bar>) vs)"
    by (rule sum_list_nonneg) auto
  have cnt: "bucket_sum m_TradeCount (w_db w) k + (int (length vs) + 1) < 2 ^ 31"
    and pnl: "\<bar>bucket_sum m_TotalPnl (w_db w) k\<bar> + (\<bar>?p\<bar> + sum_list (map (\<lambda>v. \<bar>row_sum m_TotalPnl (event_row T D v) k\<bar>) vs)) < 10 ^ 10"
    using room by (simp_all only: bucket_room_Cons)
  have rm: "bucket_sum m_TradeCount (w_db w) k + ?c < 2 ^ 31" "\<bar>bucket_sum m_TotalPnl (w_db w) k + ?p\<bar> < 10 ^ 10"
    using cnt row_sum_event_count(2) [of T D v k] pnl nn
      abs_triangle_ineq [of "bucket_sum m_TotalPnl (w_db w) k" ?p] by linarith+
  have w1: "w_db ?w1 = snd (upsert_bucket_row T (event_row T D v) (w_db w))"
    using True up by (simp add: update_bucket_def Let_def UpsertBucket_up event_row_def OutcomeWin_def)
  have s1: "bucket_sum f (w_db ?w1) k = bucket_sum f (w_db w) k + row_sum f (event_row T D v) k"
    unfolding w1 by (rule upsert_bucket_sum_at [OF inv add r rm])
  let ?P = "\<lambda>s. db_deliveries s = [] \<and> bucket_sum f s k = bucket_sum f (w_db ?w1) k"
  have "?P (w_db (detect_overtrading T R v (update_emotion T v (update_tilt T D v (update_adherence T D v ?w1)))))"
  proof (rule message_tail_keeps [where P = ?P])
    have same: "behavioral_metrics s' = behavioral_metrics s \<Longrightarrow> bucket_sum f s' k = bucket_sum f s k" for s s'
      by (simp add: bucket_sum_def)
    show "?P (snd (UpsertEmotionWinRate T (str v ''userId'') e d wn ls s))" if "?P s" for s e d wn ls
      using that by (simp add: statements_up same [OF UpsertEmotionWinRate_frame(2)])
    show "?P (snd (InsertOvertradingEvent T (str v ''userId'') ws n s))" if "?P s" for s ws n
      using that by (simp add: statements_up same [OF InsertOvertradingEvent_frame(2)])
    show "?P (w_db ?w1)" using up w1 by simp
  qed (simp_all add: statements_up UpsertBucket_zero_sum [OF _ add z]
        pipeline_reads_frame [where V = "\<lambda>s. bucket_sum f s k"])
  with True s1 show ?thesis by (simp add: processMessage_eq)
qed

lemma bucket_room_step:
  assumes up: "db_up w" and inv: "metrics_inv T (w_db w)" and room: "bucket_room T D (w_db w) k (v # vs)"
  shows "bucket_room T D (w_db (snd (processMessage T D R v w))) k vs"
proof -
  let ?s = "w_db (snd (processMessage T D R v w))"
  have c: "bucket_sum m_TradeCount ?s k = bucket_sum m_TradeCount (w_db w) k + row_sum m_TradeCount (event_row T D v) k"
    by (rule processMessage_sum [OF up inv _ _ room]) simp_all
  have p: "bucket_sum m_TotalPnl ?s k = bucket_sum m_TotalPnl (w_db w) k + row_sum m_TotalPnl (event_row T D v) k"
    by (rule processMessage_sum [OF up inv _ _ room]) simp_all
  have cnt: "bucket_sum m_TradeCount (w_db w) k + (int (length vs) + 1) < 2 ^ 31"
    and pnl: "\<bar>bucket_sum m_TotalPnl (w_db w) k\<bar> + (\<bar>row_sum m_TotalPnl (event_row T D v) k\<bar>
        + sum_list (map (\<lambda>v. \<bar>row_sum m_TotalPnl (event_row T D v) k\<bar>) vs)) < 10 ^ 10"
    using room by (simp_all only: bucket_room_Cons)
  have "bucket_sum m_TradeCount ?s k + int (length vs) < 2 ^ 31"
    using c cnt row_sum_event_count(2) [of T D v k] by linarith
  moreover have "\<bar>bucket_sum m_TotalPnl ?s k\<bar> + sum_list (map (\<lambda>v. \<bar>row_sum m_TotalPnl (event_row T D v) k\<bar>) vs) < 10 ^ 10"
    using p pnl abs_triangle_ineq [of "bucket_sum m_TotalPnl (w_db w) k" "row_sum m_TotalPnl (event_row T D v) k"]
    by linarith
  ultimately show ?thesis by (simp only: bucket_room_def)
qed

lemma process_all_sum:
  fixes f :: "metrics_row \<Rightarrow> 'n::comm_monoid_add"
  assumes "db_up w" "metrics_inv T (w_db w)" and add: "\<And>x r. f (metrics_merge x r) = f x + f r"
    and z: "\<And>r. \<lbrakk>m_TradeCount r = 0; m_WinCount r = 0; m_LossCount r = 0; m_RevengeCount r = 0; m_TotalPnl r = 0\<rbrakk> \<Longrightarrow> f r = 0"
    and "bucket_room T D (w_db w) k vs"
  shows "bucket_sum f (w_db (process_all T D R w vs)) k
      = bucket_sum f (w_db w) k + sum_list (map (\<lambda>v. row_sum f (event_row T D v) k) vs)"
  using assms(1,2,5)
proof (induction vs arbitrary: w)
  case (Cons v vs)
  let ?w = "snd (processMessage T D R v w)"
  have "bucket_sum f (w_db (process_all T D R ?w vs)) k
      = bucket_sum f (w_db ?w) k + sum_list (map (\<lambda>v. row_sum f (event_row T D v) k) vs)"
    by (rule Cons.IH) (simp_all add: Cons.prems processMessage_up processMessage_metrics_inv bucket_room_step)
  moreover have "process_all T D R w (v # vs) = process_all T D R ?w vs" by (simp add: process_all_def)
  moreover have "bucket_sum f (w_db ?w) k = bucket_sum f (w_db w) k + row_sum f (event_row T D v) k"
    by (rule processMessage_sum [OF Cons.prems(1,2) add z Cons.prems(3)])
  ultimately show ?case by (simp only: list.map sum_list.Cons add.assoc)
qed (simp add: process_all_def)

end


section \<open>Properties of the pipeline\<close>

text \<open>
  C17: On a connection that stays up, the hourly bucket of a user counts exactly the closed-trade
  messages of that hour: after any sequence of messages its trade, win, loss and revenge counts
  and its P\&L are the ones before plus one contribution of every message, in any order of
  arrival and whatever the other steps wrote, as long as the columns have room. (A message that
  is delivered twice is therefore counted twice.)
\<close>

theorem process_all_counts:
  assumes "postgres T" "decimal D" "db_up w" "metrics_inv T (w_db w)" "bucket_room T D (w_db w) k vs"
  shows "bucket_sum m_TradeCount (w_db (process_all T D R w vs)) k
        = bucket_sum m_TradeCount (w_db w) k + sum_list (map (\<lambda>v. row_sum m_TradeCount (event_row T D v) k) vs)
    \<and> bucket_sum m_WinCount (w_db (process_all T D R w vs)) k
        = bucket_sum m_WinCount (w_db w) k + sum_list (map (\<lambda>v. row_sum m_WinCount (event_row T D v) k) vs)
    \<and> bucket_sum m_LossCount (w_db (process_all T D R w vs)) k
        = bucket_sum m_LossCount (w_db w) k + sum_list (map (\<lambda>v. row_sum m_LossCount (event_row T D v) k) vs)
    \<and> bucket_sum m_RevengeCount (w_db (process_all T D R w vs)) k
        = bucket_sum m_RevengeCount (w_db w) k + sum_list (map (\<lambda>v. row_sum m_RevengeCount (event_row T D v) k) vs)
    \<and> bucket_sum m_TotalPnl (w_db (process_all T D R w vs)) k
        = bucket_sum m_TotalPnl (w_db w) k + sum_list (map (\<lambda>v. row_sum m_TotalPnl (event_row T D v) k) vs)"
  by (intro conjI backend.process_all_sum backend.intro assms) simp_all

definition ex_loss :: "string strmap" where
  "ex_loss = [''tradeId'' \<mapsto> ex_trade_id, ''userId'' \<mapsto> alice, ''sessionId'' \<mapsto> alice_session,
     ''status'' \<mapsto> ''closed'', ''outcome'' \<mapsto> ''loss'', ''pnl'' \<mapsto> ''-12.5'', ''emotionalState'' \<mapsto> ''anxious'',
     ''planAdherence'' \<mapsto> ''2'', ''entryAt'' \<mapsto> ''2025-01-06T10:15:00Z'', ''revengeFlag'' \<mapsto> ''1'']"

theorem process_all_counts_witness:
  "bucket_sum m_TradeCount (w_db (process_all ref_pg ref_decimal mem_ops ex_world [ex_loss, ex_loss]))
     (ex_time - 900 * second, alice) = 2"
proof -
  have "metrics_inv ref_pg (w_db ex_world)" by (simp add: ex_defs metrics_inv_def metrics_ok_def)
  moreover have "bucket_room ref_pg ref_decimal (w_db ex_world) (ex_time - 900 * second, alice) [ex_loss, ex_loss]"
    by code_simp
  moreover have "bucket_sum m_TradeCount (w_db ex_world) (ex_time - 900 * second, alice)
      + sum_list (map (\<lambda>v. row_sum m_TradeCount (event_row ref_pg ref_decimal v) (ex_time - 900 * second, alice)) [ex_loss, ex_loss]) = 2"
    by code_simp
  moreover have "db_up ex_world" by (simp add: ex_defs)
  ultimately show ?thesis
    using process_all_counts [of ref_pg ref_decimal ex_world "(ex_time - 900 * second, alice)" "[ex_loss, ex_loss]" mem_ops]
    by (simp only: ref_pg.postgres_axioms ref.decimal_axioms simp_thms)
qed


text \<open>
  Whatever the messages say, whichever statements fail and whatever the other processes do
  between reads (as long as they keep it too), a whole run of the worker keeps the bucket
  invariant: one row per user and hour, every counted trade a win or a loss, no negative count,
  no more revenge trades than trades, every column in its range.
\<close>

lemma Run_metrics_inv:
  assumes "metrics_inv T (w_db w)"
    and "\<And>w'. metrics_inv T (w_db w') \<Longrightarrow> metrics_inv T (w_db (env w'))"
  shows "metrics_inv T (w_db (snd (Run T D R env polls w)))"
  by (rule Run_keeps [where P = "metrics_inv T"])
    (simp_all add: assms handle_message_db processMessage_metrics_inv)

definition ex_busy :: "mem_redis world" where
  "ex_busy = ex_world\<lparr>w_redis := (mem_init ex_time)\<lparr>mr_entries := (\<lambda>_. [(''1-0'', ex_loss), (''2-0'', ex_loss)])\<rparr>\<rparr>"

text \<open>
  The worker only writes the analytics tables: processing and acknowledging a message
  leaves the users, sessions, trades and debriefs exactly as they were.
\<close>

lemma handle_message_ledger: "ledger (w_db (handle_message T D R w msg)) = ledger (w_db w)"
  by (simp only: handle_message_db processMessage_ledger)

text \<open>
  The run ends with an error only when the consumer group cannot be created for another
  reason than that it exists; then it has read nothing. Otherwise it returns nil, after any
  number of polls, failed reads included.
\<close>

lemma Run_result:
  "fst (Run T D R env polls w) =
     (case fst (rd_xgroup_create_mkstream R StreamName GroupName ''0'' (w_redis w)) of
        Inr _ \<Rightarrow> None
      | Inl e \<Rightarrow> if e = ''BUSYGROUP Consumer Group name already exists'' then None
                else Some (''failed to create consumer group: '' @ e))"
proof -
  have loop: "fst (Run_loop T D R env n w) = None" for n w
    by (induction T D R env n w rule: Run_loop.induct) (auto split: sum.splits prod.splits nat.splits)
  show ?thesis
    by (auto simp: Run_def Stream_CreateGroup_def on_redis_def loop split: sum.splits prod.splits if_splits)
qed

section \<open>Delivery and acknowledgement\<close>

context redis_stream
begin

lemma OvertradingCheck_streams:
  assumes "OvertradingCheck R k n m ms s = (r, s')"
  shows "entries s' = entries s" "delivered s' = delivered s" "pending s' = pending s"
  using assms zaddnx_streams zrem_streams zcount_streams
  by (auto simp: OvertradingCheck_def split: prod.splits sum.splits) (metis snd_conv)+

lemma processMessage_redis:
  "w_redis (snd (processMessage T D R v w)) = w_redis w
   \<or> (\<exists>r. OvertradingCheck R (trades_ts_key (str v ''userId'')) (unix_milli (message_entry_at v))
            (str v ''tradeId'') WindowDurationMs (w_redis w) = (r, w_redis (snd (processMessage T D R v w))))"
proof -
  have b: "w_redis (update_bucket T D v w) = w_redis w" for w by (simp add: update_bucket_def Let_def)
  have a: "w_redis (update_adherence T D v w) = w_redis w" for w
    by (auto simp: update_adherence_def dest!: on_db_eqD split: prod.splits sum.splits)
  have t: "w_redis (update_tilt T D v w) = w_redis w" for w
    by (auto simp: update_tilt_def dest!: on_db_eqD split: prod.splits sum.splits)
  have e: "w_redis (update_emotion T v w) = w_redis w" for w by (simp add: update_emotion_def Let_def)
  let ?chk = "OvertradingCheck R (trades_ts_key (str v ''userId'')) (unix_milli (message_entry_at v))
      (str v ''tradeId'') WindowDurationMs"
  have d: "\<exists>r. ?chk (w_redis w) = (r, w_redis (detect_overtrading T R v w))" for w
    by (auto simp: detect_overtrading_def Let_def dest!: on_redis_eqD split: prod.splits sum.splits)
  show ?thesis
    using d [of "update_emotion T v (update_tilt T D v (update_adherence T D v (update_bucket T D v w)))"]
    by (simp add: processMessage_eq b a t e)
qed

lemma processMessage_streams:
  "entries (w_redis (snd (processMessage T D R v w))) = entries (w_redis w)"
  "delivered (w_redis (snd (processMessage T D R v w))) = delivered (w_redis w)"
  "pending (w_redis (snd (processMessage T D R v w))) = pending (w_redis w)"
  using processMessage_redis [of T D v w] OvertradingCheck_streams by (metis, metis, metis)

end

text \<open>
  C23: The worker acknowledges every message, also when its processing failed: handling a message
  reports no error, leaves the entries and the read position of the group alone, and once the
  XACK is answered the message is no longer pending, whatever happened to the five updates.
\<close>

theorem handle_message_acks:
  assumes "redis_stream R entries delivered pending"
    and acked: "on_redis (Stream_Ack R StreamName GroupName [fst msg]) (snd (processMessage T D R (snd msg) w))
        = (Inr u, w')"
  shows "fst (processMessage T D R (snd msg) w) = None \<and> handle_message T D R w msg = w'
    \<and> entries (w_redis w') = entries (w_redis w) \<and> delivered (w_redis w') = delivered (w_redis w)
    \<and> pending (w_redis w') StreamName GroupName = pending (w_redis w) StreamName GroupName - {fst msg}"
proof -
  let ?w1 = "snd (processMessage T D R (snd msg) w)"
  have "rd_xack R StreamName GroupName [fst msg] (w_redis ?w1) = (Inr u, w_redis w')"
    using on_redis_eqD [OF acked] by (simp add: Stream_Ack_def)
  from redis_stream.xack_ok [OF assms(1) this] redis_stream.processMessage_streams [OF assms(1), of T D "snd msg" w]
  have "entries (w_redis w') = entries (w_redis w) \<and> delivered (w_redis w') = delivered (w_redis w)
    \<and> pending (w_redis w') StreamName GroupName = pending (w_redis w) StreamName GroupName - {fst msg}"
    by simp
  moreover have "handle_message T D R w msg = w'"
    using acked by (simp add: handle_message_def processMessage_eq)
  ultimately show ?thesis by (simp add: processMessage_eq)
qed

text \<open>A database that refuses everything: the reply of every statement is lost.\<close>

definition ex_broken :: "mem_redis world" where
  "ex_broken = ex_world\<lparr>w_db := ex_db\<lparr>db_deliveries := replicate 12 RequestLost\<rparr>,
     w_redis := (mem_init ex_time)\<lparr>mr_entries := (\<lambda>_. [(''1-0'', ex_loss)]), mr_delivered := (\<lambda>_ _. 1),
                  mr_pending := (\<lambda>_ _. [''1-0''])\<rparr>\<rparr>"

theorem handle_message_acks_witness:
  "set (mr_pending (w_redis (handle_message ref_pg ref_decimal mem_ops ex_broken (''1-0'', ex_loss))) StreamName GroupName) = {}
   \<and> behavioral_metrics (w_db (handle_message ref_pg ref_decimal mem_ops ex_broken (''1-0'', ex_loss))) = []"
proof -
  let ?m = "(''1-0'', ex_loss)" and ?w1 = "snd (processMessage ref_pg ref_decimal mem_ops ex_loss ex_broken)"
  let ?w2 = "snd (on_redis (Stream_Ack mem_ops StreamName GroupName [''1-0'']) ?w1)"
  have "mr_up (w_redis ?w1) = []" by code_simp
  then have "on_redis (Stream_Ack mem_ops StreamName GroupName [fst ?m])
      (snd (processMessage ref_pg ref_decimal mem_ops (snd ?m) ex_broken)) = (Inr (), ?w2)"
    by (simp add: on_redis_def Stream_Ack_def mem_ops_def mr_send_def)
  note acks = handle_message_acks [OF mem.redis_stream_axioms this]
  have "behavioral_metrics (w_db (handle_message ref_pg ref_decimal mem_ops ex_broken ?m)) = []" by code_simp
  moreover have "set (mr_pending (w_redis ex_broken) StreamName GroupName) = {''1-0''}"
    by (simp add: ex_broken_def)
  moreover have "set (mr_pending (w_redis (handle_message ref_pg ref_decimal mem_ops ex_broken ?m)) StreamName GroupName)
      = set (mr_pending (w_redis ex_broken) StreamName GroupName) - {''1-0''}"
    using acks by (simp only: fst_conv)
  ultimately show ?thesis by simp
qed

text \<open>
  C22: A successful read is handled completely and in order: the next iteration processes and
  acknowledges, one after the other, exactly the at most ten entries that follow the group's
  read position in the stream, and the read position has moved behind them.
\<close>

theorem Run_loop_batch:
  assumes "redis_stream R entries delivered pending"
    and read: "on_redis (Stream_ReadGroup R GroupName ConsumerName StreamName 10 (5 * second)) (env w) = (Inr streams, w1)"
  defines "batch \<equiv> take 10 (drop (delivered (w_redis (env w)) StreamName GroupName) (entries (w_redis (env w)) StreamName))"
  shows "Run_loop T D R env (Suc n) w = Run_loop T D R env n (foldl (handle_message T D R) w1 batch)
    \<and> delivered (w_redis w1) StreamName GroupName
        = delivered (w_redis (env w)) StreamName GroupName + length batch"
proof -
  have "rd_xreadgroup R GroupName ConsumerName StreamName 10 (5 * second) (w_redis (env w)) = (Inr streams, w_redis w1)"
    using on_redis_eqD [OF read] by (simp add: Stream_ReadGroup_def)
  from redis_stream.xread_ok [OF assms(1) this]
  have msgs: "concat (map snd streams) = batch"
    and pos: "delivered (w_redis w1) StreamName GroupName = delivered (w_redis (env w)) StreamName GroupName + length batch"
    by (simp_all add: batch_def)
  have "handle_streams T D R sts w' = foldl (handle_message T D R) w' (concat (map snd sts))" for sts w'
    unfolding handle_streams_def by (induction sts arbitrary: w') simp_all
  with read msgs pos show ?thesis by simp
qed

theorem Run_loop_batch_witness:
  "Run_loop ref_pg ref_decimal mem_ops (\<lambda>w. w) 1 ex_busy
     = (None, foldl (handle_message ref_pg ref_decimal mem_ops)
         (snd (on_redis (Stream_ReadGroup mem_ops GroupName ConsumerName StreamName 10 (5 * second)) ex_busy))
         [(''1-0'', ex_loss), (''2-0'', ex_loss)])"
proof -
  let ?read = "on_redis (Stream_ReadGroup mem_ops GroupName ConsumerName StreamName 10 (5 * second)) ex_busy"
  have "?read = (Inr [(StreamName, [(''1-0'', ex_loss), (''2-0'', ex_loss)])], snd ?read)"
    by (simp add: on_redis_def Stream_ReadGroup_def mem_ops_def mr_send_def mem_xread_def ex_busy_def ex_defs Let_def)
  note batch = Run_loop_batch [OF mem.redis_stream_axioms, where env = "\<lambda>w. w" and n = 0, OF this]
  have "take 10 (drop (mr_delivered (w_redis ex_busy) StreamName GroupName) (mr_entries (w_redis ex_busy) StreamName))
      = [(''1-0'', ex_loss), (''2-0'', ex_loss)]"
    by (simp add: ex_busy_def ex_defs)
  with batch [of ref_pg ref_decimal] show ?thesis by simp
qed

section \<open>The overtrading detector\<close>

text \<open>
  C24: When the window of a closed trade's user is checked, the counted trades are exactly those
  of the user's window that opened less than 30 minutes before this one or after it (a trade
  that is already in the window is not added again), the older ones since 1970 are evicted, and an
  overtrading event carrying that count is recorded if and only if there are more than ten. The
  trades after the checked one count too, so that the count is not that of one window of 30
  minutes. (Stated for Redis commands that succeed, a connection that stays up, a user that exists
  and a count and times that their columns hold.)
\<close>

theorem detect_overtrading_spec:
  fixes w :: "'r world"
  assumes "redis_zset R zs" and "db_up w"
    and ms: "WindowDurationMs \<le> unix_milli (message_entry_at v)" "unix_milli (message_entry_at v) \<le> 2 ^ 53"
    and chk: "OvertradingCheck R (trades_ts_key (str v ''userId'')) (unix_milli (message_entry_at v))
        (str v ''tradeId'') WindowDurationMs (w_redis w) = (Inr n, r')"
    and user: "pg_uuid T (str v ''userId'') = Some u" "tbl_lookup u_UserID u (users (w_db w)) \<noteq> None"
    and start: "pg_timestamptz T (time_unix_milli (unix_milli (message_entry_at v) - WindowDurationMs)) = Some ws"
    and small: "int4_ok n"
  defines "key \<equiv> trades_ts_key (str v ''userId'')" and "now \<equiv> unix_milli (message_entry_at v)"
  defines "z \<equiv> add_nx (str v ''tradeId'') (of_int now) (zs (w_redis w) key)"
  defines "inside \<equiv> opened_after (of_int (now - 1800000)) z"
  defines "w' \<equiv> detect_overtrading T R v w"
  shows "n = int (card inside)
    \<and> zs (w_redis w') key = evict_until (of_int (now - 1800000)) z
    \<and> overtrading_events (w_db w') = overtrading_events (w_db w) @
        (if 10 < card inside
         then [\<lparr>o_UserID = u, o_WindowStart = ws, o_TradeCount = int (card inside), o_EmittedAt = db_now (w_db w)\<rparr>]
         else [])"
proof -
  have rng: "0 \<le> WindowDurationMs" "WindowDurationMs \<le> now" "now \<le> 2 ^ 53"
    using ms by (simp_all add: now_def WindowDurationMs_def)
  note spec = redis_zset.OvertradingCheck_spec [OF assms(1) chk [folded key_def now_def] rng]
  have n: "n = int (card inside)" and zr: "zs r' key = evict_until (of_int (now - 1800000)) z"
    using spec(1,2) by (simp_all add: inside_def z_def WindowDurationMs_def)
  have "on_redis (OvertradingCheck R key now (str v ''tradeId'') WindowDurationMs) w = (Inr n, w\<lparr>w_redis := r'\<rparr>)"
    using chk by (simp add: on_redis_def key_def now_def)
  then have w': "w' = (if 10 < n then snd (on_db (InsertOvertradingEvent T (str v ''userId'')
      (time_unix_milli (now - WindowDurationMs)) n) (w\<lparr>w_redis := r'\<rparr>)) else w\<lparr>w_redis := r'\<rparr>)"
    by (simp add: w'_def detect_overtrading_def Let_def key_def now_def MaxTradesPerWindow_def)
  have "snd (InsertOvertradingEvent T (str v ''userId'') (time_unix_milli (now - WindowDurationMs)) n (w_db w))
      = (w_db w)\<lparr>overtrading_events := overtrading_events (w_db w) @
          [\<lparr>o_UserID = u, o_WindowStart = ws, o_TradeCount = n, o_EmittedAt = db_now (w_db w)\<rparr>]\<rparr>"
    using assms(2) user start small by (simp add: InsertOvertradingEvent_def now_def)
  then show ?thesis using zr n by (simp add: w')
qed

definition ex_crowded :: "mem_redis world" where
  "ex_crowded = ex_world\<lparr>w_redis := (mem_init ex_time)\<lparr>mr_zset := (\<lambda>_. map (\<lambda>i. (itoa i, 1736158000000 + of_int i))
     [1, 2, 3, 4, 5, 6, 7, 8, 9, 10])\<rparr>\<rparr>"

theorem detect_overtrading_spec_witness:
  "\<exists>e. overtrading_events (w_db (detect_overtrading ref_pg mem_ops ex_loss ex_crowded)) = [e] \<and> o_TradeCount e = 11"
proof -
  let ?now = "unix_milli (message_entry_at ex_loss)"
  let ?chk = "OvertradingCheck mem_ops (trades_ts_key (str ex_loss ''userId'')) ?now (str ex_loss ''tradeId'')
      WindowDurationMs (w_redis ex_crowded)"
  have now: "?now = 1736158500000" by code_simp
  have "fst ?chk = Inr 11" by code_simp
  then have "?chk = (Inr 11, snd ?chk)" by (simp add: prod_eq_iff)
  moreover have "pg_uuid ref_pg (str ex_loss ''userId'') = Some alice" by code_simp
  moreover have "tbl_lookup u_UserID alice (users (w_db ex_crowded)) \<noteq> None" by (simp add: ex_crowded_def ex_defs)
  moreover have "db_up ex_crowded" "overtrading_events (w_db ex_crowded) = []" by (simp_all add: ex_crowded_def ex_defs)
  moreover have "pg_timestamptz ref_pg (time_unix_milli (?now - WindowDurationMs))
      = Some (time_unix_milli (?now - WindowDurationMs) - time_unix_milli (?now - WindowDurationMs) mod 1000)"
    by (simp add: ref_pg_def)
  ultimately show ?thesis
    using detect_overtrading_spec [OF mem.redis_zset_axioms, of ex_crowded ex_loss 11 "snd ?chk" ref_pg alice]
    by (simp add: now WindowDurationMs_def int4_ok_def)
qed

end
