(* ===== verification/Metrics_Handler.thy ===== *)
theory Metrics_Handler
  imports Session_Handler Worker
begin

text \<open>
  \<open>handler/metrics.go\<close>: GET of a user's metrics, with its cache in front of the range
  queries. The JSON text of the response map (\<open>json.Marshal\<close>) is an argument.
\<close>

section \<open>The parameters\<close>

definition granularity_interval :: "string \<Rightarrow> string option" where
  "granularity_interval granularity =
     (if granularity = ''hourly'' then Some ''1 hour''
      else if granularity = ''daily'' then Some ''1 day''
      else if granularity = ''rolling30d'' then Some ''30 days''
      else None)"

record metrics_params =
  mp_fromStr :: string
  mp_toStr :: string
  mp_granularity :: string
  mp_from :: time
  mp_to :: time
  mp_interval :: string

definition parse_params :: "request \<Rightarrow> string + metrics_params" where
  "parse_params r =
     (let fromStr = QueryGet r ''from''; toStr = QueryGet r ''to''; granularity = QueryGet r ''granularity''
      in if fromStr = '''' \<or> toStr = '''' \<or> granularity = ''''
         then Inl ''from, to, and granularity query parameters are required''
         else (case parse_rfc3339 fromStr of
                 None \<Rightarrow> Inl (''Invalid '' @ [CHR 0x27] @ ''from'' @ [CHR 0x27] @ '' format, expected ISO-8601'')
               | Some from_ \<Rightarrow>
                   (case parse_rfc3339 toStr of
                      None \<Rightarrow> Inl (''Invalid '' @ [CHR 0x27] @ ''to'' @ [CHR 0x27] @ '' format, expected ISO-8601'')
                    | Some to_ \<Rightarrow>
                        (case granularity_interval granularity of
                           None \<Rightarrow> Inl ''granularity must be hourly, daily, or rolling30d''
                         | Some interval \<Rightarrow>
                             Inr \<lparr>mp_fromStr = fromStr, mp_toStr = toStr, mp_granularity = granularity,
                                  mp_from = from_, mp_to = to_, mp_interval = interval\<rparr>))))"

definition metrics_cache_key :: "string \<Rightarrow> metrics_params \<Rightarrow> string" where
  "metrics_cache_key userID p =
     ''metrics:'' @ userID @ '':'' @ mp_fromStr p @ '':'' @ mp_toStr p @ '':'' @ mp_granularity p"

section \<open>The aggregates\<close>

record metrics_acc =
  ma_totalPlanAdherence :: float64
  ma_planAdherenceCount :: int
  ma_totalTiltIndex :: float64
  ma_tiltCount :: int
  ma_timeseries :: "TimeseriesPoint list"

definition bucket_point :: "'d decimal_ops \<Rightarrow> 'd MetricsBucket \<Rightarrow> TimeseriesPoint" where
  "bucket_point D b =
     \<lparr> tp_Bucket = mb_Bucket b, tp_TradeCount = mb_TradeCount b,
       tp_WinRate = (if 0 < mb_TradeCount b
                     then f64_div (f64_of_int (mb_WinCount b)) (f64_of_int (mb_TradeCount b)) else Fin 0),
       tp_PnL = dec_float64 D (mb_PnL b),
       tp_AvgPlanAdherence = opt_else (Fin 0) (mb_AvgPlanAdherence b) \<rparr>"

text \<open>One round of the loop over the buckets.\<close>

definition add_bucket :: "'d decimal_ops \<Rightarrow> metrics_acc \<Rightarrow> 'd MetricsBucket \<Rightarrow> metrics_acc" where
  "add_bucket D a b =
     (let a1 = (case mb_AvgPlanAdherence b of
                  Some avgPA \<Rightarrow> a\<lparr>ma_totalPlanAdherence := f64_add (ma_totalPlanAdherence a) avgPA,
                                 ma_planAdherenceCount := ma_planAdherenceCount a + 1\<rparr>
                | None \<Rightarrow> a);
          a2 = (case mb_SessionTiltIndex b of
                  Some tilt \<Rightarrow> a1\<lparr>ma_totalTiltIndex := f64_add (ma_totalTiltIndex a1) tilt,
                                 ma_tiltCount := ma_tiltCount a1 + 1\<rparr>
                | None \<Rightarrow> a1)
      in a2\<lparr>ma_timeseries := ma_timeseries a2 @ [bucket_point D b]\<rparr>)"

definition empty_acc :: metrics_acc where
  "empty_acc = \<lparr>ma_totalPlanAdherence = Fin 0, ma_planAdherenceCount = 0, ma_totalTiltIndex = Fin 0,
     ma_tiltCount = 0, ma_timeseries = []\<rparr>"

text \<open>The map of win rates: a later entry of the same state would replace an earlier one.\<close>

definition emotion_map :: "EmotionWinRate list \<Rightarrow> string \<Rightarrow> (int \<times> int \<times> float64) option" where
  "emotion_map rates = foldl (\<lambda>m er. m(er_EmotionalState er \<mapsto> (er_Wins er, er_Losses er, er_WinRate er))) Map.empty rates"

definition metrics_response ::
  "'d decimal_ops \<Rightarrow> string \<Rightarrow> metrics_params \<Rightarrow> 'd MetricsBucket list \<Rightarrow> EmotionWinRate list \<Rightarrow> int \<Rightarrow> int
   \<Rightarrow> MetricsResponse" where
  "metrics_response D userID p buckets emotionRates revengeCount overtradingCount =
     (let a = foldl (add_bucket D) empty_acc buckets
      in \<lparr> mr_UserId = userID, mr_Granularity = mp_granularity p, mr_From = mp_fromStr p, mr_To = mp_toStr p,
           mr_PlanAdherenceScore = (if 0 < ma_planAdherenceCount a
              then f64_div (ma_totalPlanAdherence a) (f64_of_int (ma_planAdherenceCount a)) else Fin 0),
           mr_SessionTiltIndex = (if 0 < ma_tiltCount a
              then f64_div (ma_totalTiltIndex a) (f64_of_int (ma_tiltCount a)) else Fin 0),
           mr_WinRateByEmotionalState = emotion_map emotionRates, mr_RevengeTrades = revengeCount,
           mr_OvertradingEvents = overtradingCount, mr_Timeseries = ma_timeseries a \<rparr>)"

section \<open>The handler\<close>

text \<open>A count whose error is ignored is zero when the query fails.\<close>

definition ignore_error :: "(go_error + int) \<Rightarrow> int" where
  "ignore_error x = (case x of Inl e \<Rightarrow> 0 | Inr n \<Rightarrow> n)"

text \<open>The four queries of a cache miss.\<close>

definition query_metrics ::
  "pg_types \<Rightarrow> 'd decimal_ops \<Rightarrow> string \<Rightarrow> metrics_params \<Rightarrow> 'r world
   \<Rightarrow> (string + MetricsResponse) \<times> 'r world" where
  "query_metrics T D userID p w =
     (case on_db (QueryRange T D userID (mp_from p) (mp_to p) (mp_interval p)) w of
        (Inl err, w1) \<Rightarrow> (Inl ''Failed to query metrics'', w1)
      | (Inr buckets, w1) \<Rightarrow>
          (case on_db (QueryEmotionWinRates T userID (mp_from p) (mp_to p)) w1 of
             (Inl err, w2) \<Rightarrow> (Inl ''Failed to query emotion win rates'', w2)
           | (Inr emotionRates, w2) \<Rightarrow>
               (case on_db (CountRevengeTrades T userID (mp_from p) (mp_to p)) w2 of (revenge, w3) \<Rightarrow>
                (case on_db (CountOvertradingEvents T userID (mp_from p) (mp_to p)) w3 of (overtrading, w4) \<Rightarrow>
                  (Inr (metrics_response D userID p buckets emotionRates (ignore_error revenge)
                          (ignore_error overtrading)), w4)))))"

definition Metrics_Get ::
  "pg_types \<Rightarrow> 'd decimal_ops \<Rightarrow> 'r redis_ops \<Rightarrow> (MetricsResponse \<Rightarrow> string) \<Rightarrow> ('r, 'd) handler" where
  "Metrics_Get T D R marshal r c w =
     (let userID = URLParam r ''userId''; jwtSub = UserIDFromContext c
      in if userID \<noteq> jwtSub then ((respondForbidden c, []), w)
         else (case parse_params r of
                 Inl message \<Rightarrow> ((respondBadRequest c message, []), w)
               | Inr p \<Rightarrow>
                   (case on_redis (Cache_Get R (metrics_cache_key userID p)) w of
                      (Inr (Some cached), w1) \<Rightarrow> ((respondBytes cached, []), w1)
                    | (_, w1) \<Rightarrow>
                        (case query_metrics T D userID p w1 of
                           (Inl message, w2) \<Rightarrow>
                             ((respondError c StatusInternalServerError ''INTERNAL_ERROR'' message, []), w2)
                         | (Inr response, w2) \<Rightarrow>
                             (let jsonBytes = marshal response
                              in ((respondBytes jsonBytes,
                                   [CacheSetTask (metrics_cache_key userID p) jsonBytes]), w2))))))"

section \<open>What the queries read\<close>

lemma metrics_queries_state:
  "\<exists>ds. snd (QueryRange T D u f t i s) = s\<lparr>db_deliveries := ds\<rparr>"
  "\<exists>ds. snd (QueryEmotionWinRates T u f t s) = s\<lparr>db_deliveries := ds\<rparr>"
  "\<exists>ds. snd (CountRevengeTrades T u f t s) = s\<lparr>db_deliveries := ds\<rparr>"
  "\<exists>ds. snd (CountOvertradingEvents T u f t s) = s\<lparr>db_deliveries := ds\<rparr>"
  unfolding QueryRange_def QueryEmotionWinRates_def CountRevengeTrades_def CountOvertradingEvents_def
  by (rule pg_send_read; simp add: Let_def split: option.splits)+

lemma query_metrics_frame:
  "\<exists>ds. w_db (snd (query_metrics T D u p w)) = (w_db w)\<lparr>db_deliveries := ds\<rparr>"
  "w_redis (snd (query_metrics T D u p w)) = w_redis w"
proof -
  obtain r1 w1 where q1: "on_db (QueryRange T D u (mp_from p) (mp_to p) (mp_interval p)) w = (r1, w1)" by fastforce
  obtain r2 w2 where q2: "on_db (QueryEmotionWinRates T u (mp_from p) (mp_to p)) w1 = (r2, w2)" by fastforce
  obtain r3 w3 where q3: "on_db (CountRevengeTrades T u (mp_from p) (mp_to p)) w2 = (r3, w3)" by fastforce
  obtain r4 w4 where q4: "on_db (CountOvertradingEvents T u (mp_from p) (mp_to p)) w3 = (r4, w4)" by fastforce
  note qs = on_db_eqD [OF q1] on_db_eqD [OF q2] on_db_eqD [OF q3] on_db_eqD [OF q4]
  obtain d1 where d1: "w_db w1 = (w_db w)\<lparr>db_deliveries := d1\<rparr>"
    using metrics_queries_state(1) [of T D u "mp_from p" "mp_to p" "mp_interval p" "w_db w"] qs by auto
  obtain d2 where d2: "w_db w2 = (w_db w)\<lparr>db_deliveries := d2\<rparr>"
    using metrics_queries_state(2) [of T u "mp_from p" "mp_to p" "w_db w1"] qs d1 by auto
  obtain d3 where d3: "w_db w3 = (w_db w)\<lparr>db_deliveries := d3\<rparr>"
    using metrics_queries_state(3) [of T u "mp_from p" "mp_to p" "w_db w2"] qs d2 by auto
  obtain d4 where d4: "w_db w4 = (w_db w)\<lparr>db_deliveries := d4\<rparr>"
    using metrics_queries_state(4) [of T u "mp_from p" "mp_to p" "w_db w3"] qs d3 by auto
  have red: "w_redis w1 = w_redis w" "w_redis w2 = w_redis w" "w_redis w4 = w_redis w" using qs by simp_all
  have "snd (query_metrics T D u p w) = (case r1 of Inl _ \<Rightarrow> w1 | Inr _ \<Rightarrow> (case r2 of Inl _ \<Rightarrow> w2 | Inr _ \<Rightarrow> w4))"
    using q1 q2 q3 q4 by (simp add: query_metrics_def split: sum.splits)
  then show "\<exists>ds. w_db (snd (query_metrics T D u p w)) = (w_db w)\<lparr>db_deliveries := ds\<rparr>"
    and "w_redis (snd (query_metrics T D u p w)) = w_redis w"
    using d1 d2 d4 red by (auto split: sum.splits)
qed

text \<open>The request that reaches the queries: the subject's own, with good parameters, and a miss.\<close>

lemma Metrics_Get_cases:
  obtains (foreign) "URLParam r ''userId'' \<noteq> UserIDFromContext c"
      "Metrics_Get T D R marshal r c w = ((respondForbidden c, []), w)"
  | (params) message where "URLParam r ''userId'' = UserIDFromContext c" "parse_params r = Inl message"
      "Metrics_Get T D R marshal r c w = ((respondBadRequest c message, []), w)"
  | (hit) p cached w1 where "URLParam r ''userId'' = UserIDFromContext c" "parse_params r = Inr p"
      "on_redis (Cache_Get R (metrics_cache_key (UserIDFromContext c) p)) w = (Inr (Some cached), w1)"
      "Metrics_Get T D R marshal r c w = ((respondBytes cached, []), w1)"
  | (failed) p x w1 message w2 where "URLParam r ''userId'' = UserIDFromContext c" "parse_params r = Inr p"
      "on_redis (Cache_Get R (metrics_cache_key (UserIDFromContext c) p)) w = (x, w1)"
      "query_metrics T D (UserIDFromContext c) p w1 = (Inl message, w2)"
      "Metrics_Get T D R marshal r c w = ((respondError c 500 ''INTERNAL_ERROR'' message, []), w2)"
  | (miss) p x w1 m w2 where "URLParam r ''userId'' = UserIDFromContext c" "parse_params r = Inr p"
      "on_redis (Cache_Get R (metrics_cache_key (UserIDFromContext c) p)) w = (x, w1)"
      "query_metrics T D (UserIDFromContext c) p w1 = (Inr m, w2)"
      "Metrics_Get T D R marshal r c w = ((respondBytes (marshal m),
         [CacheSetTask (metrics_cache_key (UserIDFromContext c) p) (marshal m)]), w2)"
proof (cases "URLParam r ''userId'' = UserIDFromContext c")
  case False
  then show thesis by (intro foreign) (simp_all add: Metrics_Get_def)
next
  case user: True
  show thesis
  proof (cases "parse_params r")
    case (Inl message)
    with user show thesis by (intro params) (simp_all add: Metrics_Get_def)
  next
    case p: (Inr p)
    obtain x w1 where g: "on_redis (Cache_Get R (metrics_cache_key (UserIDFromContext c) p)) w = (x, w1)" by fastforce
    obtain y w2 where q: "query_metrics T D (UserIDFromContext c) p w1 = (y, w2)" by fastforce
    consider (cached) b where "x = Inr (Some b)" | (none) "x = Inr None \<or> (\<exists>e. x = Inl e)"
      by (cases x) auto
    then show thesis
    proof cases
      case (cached b)
      with user p g show thesis by (intro hit [of p b w1]) (simp_all add: Metrics_Get_def)
    next
      case none
      then have run: "Metrics_Get T D R marshal r c w = (case y of
          Inl message \<Rightarrow> ((respondError c StatusInternalServerError ''INTERNAL_ERROR'' message, []), w2)
        | Inr m \<Rightarrow> ((respondBytes (marshal m), [CacheSetTask (metrics_cache_key (UserIDFromContext c) p) (marshal m)]), w2))"
        using user p g q by (cases y) (auto simp: Metrics_Get_def Let_def)
      show thesis
      proof (cases y)
        case (Inl message)
        with user p g q run show thesis
          by (intro failed [of p x w1 message w2]) (simp_all add: StatusInternalServerError_def)
      next
        case (Inr m)
        with user p g q run show thesis by (intro miss [of p x w1 m w2]) simp_all
      qed
    qed
  qed
qed

section \<open>Properties of the request\<close>

text \<open>
  C30: Metrics are private and reading them changes nothing: whatever the connection and the cache
  do, the tables stay as they are; another user's metrics are refused with 403 without a read of
  either server, bad parameters with 400; otherwise the answer is 200 or 500, and the only task
  it can start stores the answer's own bytes under the subject's own cache key.
\<close>

theorem Metrics_Get_private:
  fixes T and D :: "'d decimal_ops" and R :: "'r redis_ops" and marshal and r and c and w :: "'r world"
  defines "resp \<equiv> fst (fst (Metrics_Get T D R marshal r c w))"
    and "tasks \<equiv> snd (fst (Metrics_Get T D R marshal r c w))" and "w' \<equiv> snd (Metrics_Get T D R marshal r c w)"
  shows "(\<exists>ds. w_db w' = (w_db w)\<lparr>db_deliveries := ds\<rparr>)
    \<and> (if URLParam r ''userId'' \<noteq> UserIDFromContext c
       then is_error resp c 403 ''FORBIDDEN'' \<and> tasks = [] \<and> w' = w
       else case parse_params r of
              Inl message \<Rightarrow> is_error resp c 400 ''BAD_REQUEST'' \<and> tasks = [] \<and> w' = w
            | Inr p \<Rightarrow>
                is_error resp c 500 ''INTERNAL_ERROR'' \<and> tasks = []
                \<or> (\<exists>b. resp = respondBytes b
                     \<and> tasks \<in> {[], [CacheSetTask (metrics_cache_key (UserIDFromContext c) p) b]}))"
proof -
  have same: "w_db w1 = (w_db w)\<lparr>db_deliveries := db_deliveries (w_db w)\<rparr>" if "on_redis q w = (x, w1)" for q :: "('r, 'a) rcmd" and x w1
    using on_redis_eqD [OF that] by simp
  have id: "\<exists>ds. w_db w = (w_db w)\<lparr>db_deliveries := ds\<rparr>" by (intro exI [of _ "db_deliveries (w_db w)"]) simp
  have after: "\<exists>ds. w_db w2 = (w_db w)\<lparr>db_deliveries := ds\<rparr>"
    if "on_redis q w = (x, w1)" "query_metrics T D u p w1 = (y, w2)" for q :: "('r, 'a) rcmd" and x w1 u p y w2
    using query_metrics_frame(1) [of T D u p w1] that on_redis_eqD [OF that(1)] by auto
  show ?thesis
  proof (rule Metrics_Get_cases [of r c T D R marshal w])
  qed (use id same after in \<open>fastforce simp: resp_def tasks_def w'_def\<close>)+
qed

text \<open>
  C31: The cache is transparent for five minutes: once the answer of a miss has been stored by its
  task, the same request answers the same bytes as long as the key was not written again and less
  than five minutes of server time have passed, without starting a task or sending a statement
  to the database, whatever happened to the tables in between (so a user can see metrics up to
  five minutes old; nothing invalidates them). When the time is up the read misses again.
\<close>

theorem Metrics_Get_cached:
  fixes T and D :: "'d decimal_ops" and R :: "'r redis_ops" and marshal and r and c and w :: "'r world"
  assumes "redis_keys R kv clock"
    and first: "Metrics_Get T D R marshal r c w = ((resp, [CacheSetTask k b]), w1)"
    and stored: "on_redis (Cache_Set R k b) w2 = (Inr u, w3)"
    and keep: "kv (w_redis w4) = kv (w_redis w3)"
    and read: "on_redis (Cache_Get R k) w4 = (Inr v, w5)"
    and same: "rq_params r' = rq_params r" "rq_query r' = rq_query r" "cx_userId c' = cx_userId c"
  shows "if clock (w_redis w4) < clock (w_redis w2) + 5 * minute
    then Metrics_Get T D R marshal r' c' w4 = ((resp, []), w5) \<and> w_db w5 = w_db w4
    else v = None"
proof -
  have sub: "UserIDFromContext c' = UserIDFromContext c" using same(3) by (simp add: UserIDFromContext_def)
  have prm: "parse_params r' = parse_params r" "URLParam r' ''userId'' = URLParam r ''userId''"
    using same(1,2) by (simp_all add: parse_params_def QueryGet_def URLParam_def)
  obtain p where p: "URLParam r ''userId'' = UserIDFromContext c" "parse_params r = Inr p"
      "k = metrics_cache_key (UserIDFromContext c) p" "resp = respondBytes b"
    by (rule Metrics_Get_cases [of r c T D R marshal w]) (use first in auto)
  have set: "rd_set R k b (5 * minute) (w_redis w2) = (Inr u, w_redis w3)"
    using on_redis_eqD [OF stored] by (simp add: Cache_Set_def MetricsCacheTTL_def)
  have get: "Cache_Get R k (w_redis w4) = (Inr v, w_redis w5)" "w_db w5 = w_db w4" using on_redis_eqD [OF read] by auto
  have "v = (if clock (w_redis w4) < clock (w_redis w2) + 5 * minute then Some b else None)"
    using redis_keys.Cache_Get_value [OF assms(1) get(1)] redis_keys.live_after_set [OF assms(1) set keep] by simp
  then show ?thesis
    using read p prm sub get(2) by (simp add: Metrics_Get_def)
qed

definition ex_metrics_request :: request where
  "ex_metrics_request = ex_request\<lparr>rq_params := [''userId'' \<mapsto> alice],
     rq_query := [''from'' \<mapsto> ''2025-01-06T00:00:00Z'', ''to'' \<mapsto> ''2025-01-07T00:00:00Z'', ''granularity'' \<mapsto> ''hourly'']\<rparr>"

definition ex_params :: metrics_params where
  "ex_params = \<lparr>mp_fromStr = ''2025-01-06T00:00:00Z'', mp_toStr = ''2025-01-07T00:00:00Z'', mp_granularity = ''hourly'',
     mp_from = 1736121600 * second, mp_to = 1736208000 * second, mp_interval = ''1 hour''\<rparr>"

lemma ex_parse: "parse_params ex_metrics_request = Inr ex_params"
proof -
  have t: "parse_rfc3339 ''2025-01-06T00:00:00Z'' = Some (1736121600 * second)"
    "parse_rfc3339 ''2025-01-07T00:00:00Z'' = Some (1736208000 * second)" by code_simp+
  have q: "QueryGet ex_metrics_request ''from'' = ''2025-01-06T00:00:00Z''"
    "QueryGet ex_metrics_request ''to'' = ''2025-01-07T00:00:00Z''"
    "QueryGet ex_metrics_request ''granularity'' = ''hourly''"
    by (simp_all add: QueryGet_def ex_metrics_request_def)
  show ?thesis by (simp add: parse_params_def q t granularity_interval_def ex_params_def)
qed

text \<open>A bucket of Alice with three trades, one of them won.\<close>

definition ex_bucket :: metrics_row where
  "ex_bucket = \<lparr>m_Bucket = ex_time - 900 * second, m_UserID = alice, m_TradeCount = 3, m_WinCount = 1, m_LossCount = 2,
     m_TotalPnl = - 15, m_AvgPlanAdherence = Some 2, m_SessionTiltIndex = Some (1 / 2), m_RevengeCount = 1,
     m_OvertradingEvents = 0\<rparr>"

definition ex_measured :: "mem_redis world" where
  "ex_measured = ex_world\<lparr>w_db := ex_db\<lparr>behavioral_metrics := [ex_bucket]\<rparr>\<rparr>"

definition ex_response :: MetricsResponse where
  "ex_response = metrics_response ref_decimal alice ex_params
     [bucket_group ref_pg ref_decimal (ex_time - 900 * second) [ex_bucket]] [] 0 0"

lemma ex_query: "query_metrics ref_pg ref_decimal alice ex_params ex_measured = (Inr ex_response, ex_measured)"
proof -
  have u: "pg_uuid ref_pg alice = Some alice" by code_simp
  have ts: "pg_timestamptz ref_pg (mp_from ex_params) = Some (1736121600 * second)"
    "pg_timestamptz ref_pg (mp_to ex_params) = Some (1736208000 * second)" by code_simp+
  have b: "pg_time_bucket ref_pg ''1 hour'' (m_Bucket ex_bucket) = ex_time - 900 * second" by code_simp
  have r: "1736121600 * second \<le> m_Bucket ex_bucket" "m_Bucket ex_bucket \<le> 1736208000 * second" "m_UserID ex_bucket = alice"
    by (simp_all add: ex_bucket_def ex_time_def second_def)
  have w: "ex_measured\<lparr>w_db := w_db ex_measured\<rparr> = ex_measured" "ex_measured\<lparr>w_db := ex_db\<lparr>behavioral_metrics := [ex_bucket]\<rparr>\<rparr> = ex_measured"
    "w_db ex_measured = ex_db\<lparr>behavioral_metrics := [ex_bucket]\<rparr>"
    by (simp_all add: ex_measured_def)
  have i: "mp_interval ex_params = ''1 hour''" by (simp add: ex_params_def)
  show ?thesis
    by (simp add: query_metrics_def on_db_def QueryRange_def QueryEmotionWinRates_def CountRevengeTrades_def
        CountOvertradingEvents_def u ts i b r w ex_response_def ignore_error_def ex_db_def)
qed

lemma ex_miss: "on_redis (Cache_Get mem_ops k) ex_measured = (Inr None, ex_measured)"
proof -
  have "ex_measured\<lparr>w_redis := mem_init ex_time\<rparr> = ex_measured" by (simp add: ex_measured_def ex_world_def)
  moreover have "w_redis ex_measured = mem_init ex_time" by (simp add: ex_measured_def ex_world_def)
  ultimately show ?thesis
    by (simp add: on_redis_def Cache_Get_def mem_ops_def mr_send_def mem_init_def live_value_def mem_kv_def)
qed

lemma ex_metrics_answer:
  "Metrics_Get ref_pg ref_decimal mem_ops marshal ex_metrics_request (as_user alice) ex_measured
     = ((respondBytes (marshal ex_response), [CacheSetTask (metrics_cache_key alice ex_params) (marshal ex_response)]),
        ex_measured)"
proof -
  have "URLParam ex_metrics_request ''userId'' = alice" "UserIDFromContext (as_user alice) = alice"
    by (simp_all add: URLParam_def ex_metrics_request_def as_user_def UserIDFromContext_def)
  then show ?thesis by (simp add: Metrics_Get_def ex_parse ex_miss ex_query Let_def)
qed

theorem Metrics_Get_cached_witness:
  "fst (fst (Metrics_Get ref_pg ref_decimal mem_ops (\<lambda>m. ''{}'') ex_metrics_request (as_user alice)
     (snd (on_redis (Cache_Set mem_ops (metrics_cache_key alice ex_params) ''{}'') ex_world))))
   = (respondBytes ''{}'' :: dec response)"
proof -
  let ?k = "metrics_cache_key alice ex_params"
  let ?w3 = "snd (on_redis (Cache_Set mem_ops ?k ''{}'') ex_world)"
  have set: "on_redis (Cache_Set mem_ops ?k ''{}'') ex_world = (Inr (), ?w3)"
    by (simp add: on_redis_def Cache_Set_def mem_ops_def mr_send_def ex_world_def mem_init_def)
  have get: "on_redis (Cache_Get mem_ops ?k) ?w3 = (Inr (Some ''{}''), ?w3)"
    by (simp add: on_redis_def Cache_Get_def Cache_Set_def mem_ops_def mr_send_def ex_world_def mem_init_def live_value_def
        mem_kv_def MetricsCacheTTL_def duration_defs)
  have clk: "mr_clock (w_redis ?w3) = mr_clock (w_redis ex_world)"
    by (simp add: on_redis_def Cache_Set_def mem_ops_def mr_send_def ex_world_def mem_init_def)
  have "(0::int) < 5 * minute" by (simp add: duration_defs)
  with Metrics_Get_cached [OF mem.redis_keys_axioms ex_metrics_answer set refl get refl refl refl] clk
  show ?thesis by simp
qed

section \<open>The content of an answer\<close>

text \<open>Summing over groups is summing over rows.\<close>

lemma sum_list_single:
  fixes c :: "'n::comm_monoid_add"
  shows "distinct bs \<Longrightarrow> sum_list (map (\<lambda>b. if b = x then c else 0) bs) = (if x \<in> set bs then c else 0)"
  by (induction bs) auto

lemma sum_list_groups:
  fixes f :: "'a \<Rightarrow> 'n::comm_monoid_add"
  assumes "distinct bs" "g ` set rows \<subseteq> set bs"
  shows "sum_list (map (\<lambda>b. sum_list (map f (filter (\<lambda>r. g r = b) rows))) bs) = sum_list (map f rows)"
  using assms(2)
proof (induction rows)
  case (Cons r rows)
  have "sum_list (map (\<lambda>b. sum_list (map f (filter (\<lambda>x. g x = b) (r # rows)))) bs)
      = sum_list (map (\<lambda>b. (if b = g r then f r else 0) + sum_list (map f (filter (\<lambda>x. g x = b) rows))) bs)"
    by (intro arg_cong [where f = sum_list] map_cong) auto
  also have "\<dots> = f r + sum_list (map f rows)"
    using Cons by (simp add: sum_list_addf sum_list_single [OF assms(1)])
  finally show ?case by simp
qed simp

lemma timeseries_fold:
  "ma_timeseries (foldl (add_bucket D) a bs) = ma_timeseries a @ map (bucket_point D) bs"
  by (induction bs arbitrary: a) (simp_all add: add_bucket_def Let_def split: option.splits)

lemma metrics_response_fields:
  "mr_UserId (metrics_response D u p bs ers rc oc) = u"
  "mr_Timeseries (metrics_response D u p bs ers rc oc) = map (bucket_point D) bs"
  "mr_RevengeTrades (metrics_response D u p bs ers rc oc) = rc"
  "mr_OvertradingEvents (metrics_response D u p bs ers rc oc) = oc"
  by (simp_all add: metrics_response_def Let_def timeseries_fold empty_acc_def)

text \<open>The bucket rows of a user in a range, and their groups.\<close>

definition metrics_in_range :: "db \<Rightarrow> string \<Rightarrow> time \<Rightarrow> time \<Rightarrow> metrics_row list" where
  "metrics_in_range s u f t = filter (\<lambda>r. m_UserID r = u \<and> f \<le> m_Bucket r \<and> m_Bucket r \<le> t) (behavioral_metrics s)"

definition range_groups :: "pg_types \<Rightarrow> 'd decimal_ops \<Rightarrow> string \<Rightarrow> metrics_row list \<Rightarrow> 'd MetricsBucket list" where
  "range_groups T D i rows =
     map (\<lambda>b. bucket_group T D b (filter (\<lambda>r. pg_time_bucket T i (m_Bucket r) = b) rows))
       (sort (remdups (map (\<lambda>r. pg_time_bucket T i (m_Bucket r)) rows)))"

lemma range_groups_counts:
  "sum_list (map mb_TradeCount (range_groups T D i rows)) = sum_list (map m_TradeCount rows)"
  "sorted_wrt (<) (map mb_Bucket (range_groups T D i rows))"
proof -
  let ?bs = "sort (remdups (map (\<lambda>r. pg_time_bucket T i (m_Bucket r)) rows))"
  have "distinct ?bs" "(\<lambda>r. pg_time_bucket T i (m_Bucket r)) ` set rows \<subseteq> set ?bs" by auto
  from sum_list_groups [OF this, of m_TradeCount]
  show "sum_list (map mb_TradeCount (range_groups T D i rows)) = sum_list (map m_TradeCount rows)"
    by (simp add: range_groups_def bucket_group_def comp_def)
  have "sorted_wrt (<) ?bs" by (simp add: strict_sorted_iff)
  then show "sorted_wrt (<) (map mb_Bucket (range_groups T D i rows))"
    by (simp add: range_groups_def bucket_group_def comp_def)
qed

text \<open>A group of good rows has a win rate between zero and one.\<close>

lemma group_sums:
  "\<forall>r \<in> set rows. metrics_row_ok r \<Longrightarrow>
   sum_list (map m_TradeCount rows) = sum_list (map m_WinCount rows) + sum_list (map m_LossCount rows)
   \<and> 0 \<le> sum_list (map m_WinCount rows) \<and> 0 \<le> sum_list (map m_LossCount rows)"
proof (induction rows)
  case (Cons a rows)
  then have "metrics_row_ok a" by simp
  then have "m_TradeCount a = m_WinCount a + m_LossCount a" "0 \<le> m_WinCount a" "0 \<le> m_LossCount a"
    by (simp_all add: metrics_row_ok_def)
  with Cons show ?case by simp
qed simp

lemma group_win_rate:
  assumes "\<forall>r \<in> set rows. metrics_row_ok r" "sum_list (map m_TradeCount rows) \<le> 2 ^ 53"
  shows "f64_between 0 1 (tp_WinRate (bucket_point D (bucket_group T D b rows)))"
proof -
  let ?w = "sum_list (map m_WinCount rows)" and ?t = "sum_list (map m_TradeCount rows)"
  have wt: "0 \<le> ?w" "?w \<le> ?t" using group_sums [OF assms(1)] by linarith+
  show ?thesis
  proof (cases "0 < ?t")
    case True
    have "f64_between 0 1 (f64_div (f64_of_int ?w) (f64_of_int ?t))"
      by (rule f64_ratio_between(1) [OF True assms(2)]) (use wt assms(2) in simp_all)
    with True show ?thesis by (simp add: bucket_point_def bucket_group_def)
  qed (simp add: bucket_point_def bucket_group_def f64_between_def)
qed

text \<open>On a connection that stays up, the queries of a miss read the tables at one instant.\<close>

lemma query_metrics_up:
  assumes up: "db_up w" and q: "query_metrics T D x p w = (Inr m, w2)"
  obtains u f t where "pg_uuid T x = Some u" "pg_timestamptz T (mp_from p) = Some f" "pg_timestamptz T (mp_to p) = Some t"
    "\<exists>ers. m = metrics_response D x p (range_groups T D (mp_interval p) (metrics_in_range (w_db w) u f t)) ers
       (int (length (filter (\<lambda>r. UserID r = u \<and> RevengeFlag r \<and> f \<le> EntryAt r \<and> EntryAt r \<le> t) (trades (w_db w)))))
       (int (length (filter (\<lambda>r. o_UserID r = u \<and> f \<le> o_EmittedAt r \<and> o_EmittedAt r \<le> t) (overtrading_events (w_db w)))))"
proof -
  have w: "w\<lparr>w_db := w_db w\<rparr> = w" by (cases w) simp
  note defs = query_metrics_def on_db_def QueryRange_def QueryEmotionWinRates_def CountRevengeTrades_def CountOvertradingEvents_def
  obtain u f t where uft: "pg_uuid T x = Some u" "pg_timestamptz T (mp_from p) = Some f" "pg_timestamptz T (mp_to p) = Some t"
  proof (cases "pg_uuid T x"; cases "pg_timestamptz T (mp_from p)"; cases "pg_timestamptz T (mp_to p)")
  qed (use up q in \<open>auto simp: defs\<close>)
  have "\<exists>ers. m = metrics_response D x p (range_groups T D (mp_interval p) (metrics_in_range (w_db w) u f t)) ers
       (int (length (filter (\<lambda>r. UserID r = u \<and> RevengeFlag r \<and> f \<le> EntryAt r \<and> EntryAt r \<le> t) (trades (w_db w)))))
       (int (length (filter (\<lambda>r. o_UserID r = u \<and> f \<le> o_EmittedAt r \<and> o_EmittedAt r \<le> t) (overtrading_events (w_db w)))))"
    using up q uft
    by (auto simp: defs w Let_def ignore_error_def range_groups_def metrics_in_range_def conj_ac)
  with uft that show thesis by blast
qed

lemma trade_count_part:
  assumes "\<forall>r \<in> set rows. metrics_row_ok r"
  shows "sum_list (map m_TradeCount (filter P rows)) \<le> sum_list (map m_TradeCount rows)"
proof -
  have "\<forall>r \<in> set rows. 0 \<le> m_TradeCount r" using assms by (auto simp: metrics_row_ok_def)
  then show ?thesis by (induction rows) auto
qed

lemma range_win_rates:
  assumes ok: "\<forall>r \<in> set (behavioral_metrics s). metrics_row_ok r"
    and small: "sum_list (map m_TradeCount (behavioral_metrics s)) \<le> 2 ^ 53"
  shows "f64_between 0 1 (tp_WinRate (bucket_point D (bucket_group T D b (filter P (metrics_in_range s u f t)))))"
proof (rule group_win_rate)
  let ?rows = "metrics_in_range s u f t"
  show "\<forall>r \<in> set (filter P ?rows). metrics_row_ok r" using ok by (auto simp: metrics_in_range_def)
  have "sum_list (map m_TradeCount (filter P ?rows)) \<le> sum_list (map m_TradeCount ?rows)"
    by (rule trade_count_part) (use ok in \<open>simp add: metrics_in_range_def\<close>)
  also have "\<dots> \<le> sum_list (map m_TradeCount (behavioral_metrics s))"
    unfolding metrics_in_range_def by (rule trade_count_part [OF ok])
  finally show "sum_list (map m_TradeCount (filter P ?rows)) \<le> 2 ^ 53" using small by linarith
qed

text \<open>
  C32: A freshly computed metrics answer is complete and exact: its trade counts sum to the trade
  counts of all of the user's bucket rows in the asked range, its points are strictly ordered in
  time, every win rate lies between 0 and 1, and its revenge and overtrading numbers are the numbers
  of the user's flagged trades and of their overtrading events in the range. (Stated for a
  connection that stays up and a bucket table that satisfies its invariant.)
\<close>

theorem Metrics_Get_content:
  fixes w :: "'r world"
  assumes up: "db_up w" and inv: "metrics_inv T (w_db w)"
    and small: "sum_list (map m_TradeCount (behavioral_metrics (w_db w))) \<le> 2 ^ 53"
    and fresh: "Metrics_Get T D R marshal r c w = ((resp, [CacheSetTask k b]), w')"
  shows "\<exists>p m u f t. parse_params r = Inr p \<and> resp = respondBytes (marshal m) \<and> b = marshal m
    \<and> pg_uuid T (UserIDFromContext c) = Some u
    \<and> pg_timestamptz T (mp_from p) = Some f \<and> pg_timestamptz T (mp_to p) = Some t
    \<and> mr_UserId m = UserIDFromContext c
    \<and> sum_list (map tp_TradeCount (mr_Timeseries m)) = sum_list (map m_TradeCount (metrics_in_range (w_db w) u f t))
    \<and> sorted_wrt (<) (map tp_Bucket (mr_Timeseries m))
    \<and> (\<forall>pt \<in> set (mr_Timeseries m). f64_between 0 1 (tp_WinRate pt))
    \<and> mr_RevengeTrades m = int (length (filter (\<lambda>t'. UserID t' = u \<and> RevengeFlag t' \<and> f \<le> EntryAt t' \<and> EntryAt t' \<le> t) (trades (w_db w))))
    \<and> mr_OvertradingEvents m = int (length (filter (\<lambda>o'. o_UserID o' = u \<and> f \<le> o_EmittedAt o' \<and> o_EmittedAt o' \<le> t)
        (overtrading_events (w_db w))))"
proof -
  obtain p x w1 and m :: MetricsResponse where p: "parse_params r = Inr p" "query_metrics T D (UserIDFromContext c) p w1 = (Inr m, w')"
      "on_redis (Cache_Get R (metrics_cache_key (UserIDFromContext c) p)) w = (x, w1)"
      "resp = respondBytes (marshal m)" "b = marshal m"
    by (rule Metrics_Get_cases [of r c T D R marshal w]) (use fresh in auto)
  have db: "w_db w1 = w_db w" using on_redis_eqD [OF p(3)] by simp
  have up1: "db_up w1" using db up by simp
  obtain u f t where u: "pg_uuid T (UserIDFromContext c) = Some u" "pg_timestamptz T (mp_from p) = Some f"
      "pg_timestamptz T (mp_to p) = Some t"
    and ex: "\<exists>ers. m = metrics_response D (UserIDFromContext c) p (range_groups T D (mp_interval p) (metrics_in_range (w_db w) u f t)) ers
       (int (length (filter (\<lambda>r. UserID r = u \<and> RevengeFlag r \<and> f \<le> EntryAt r \<and> EntryAt r \<le> t) (trades (w_db w)))))
       (int (length (filter (\<lambda>r. o_UserID r = u \<and> f \<le> o_EmittedAt r \<and> o_EmittedAt r \<le> t) (overtrading_events (w_db w)))))"
    by (rule query_metrics_up [OF up1 p(2), unfolded db])
  then obtain ers where m: "m = metrics_response D (UserIDFromContext c) p
      (range_groups T D (mp_interval p) (metrics_in_range (w_db w) u f t)) ers
       (int (length (filter (\<lambda>r. UserID r = u \<and> RevengeFlag r \<and> f \<le> EntryAt r \<and> EntryAt r \<le> t) (trades (w_db w)))))
       (int (length (filter (\<lambda>r. o_UserID r = u \<and> f \<le> o_EmittedAt r \<and> o_EmittedAt r \<le> t) (overtrading_events (w_db w)))))"
    by blast
  let ?rows = "metrics_in_range (w_db w) u f t"
  have ok: "\<forall>r \<in> set (behavioral_metrics (w_db w)). metrics_row_ok r" using inv by (simp add: metrics_inv_def metrics_ok_def)
  have rates: "\<forall>pt \<in> set (mr_Timeseries m). f64_between 0 1 (tp_WinRate pt)"
    using range_win_rates [OF ok small] by (auto simp: m metrics_response_fields range_groups_def)
  have pts: "map tp_TradeCount (mr_Timeseries m) = map mb_TradeCount (range_groups T D (mp_interval p) ?rows)"
    "map tp_Bucket (mr_Timeseries m) = map mb_Bucket (range_groups T D (mp_interval p) ?rows)"
    by (simp_all add: m metrics_response_fields bucket_point_def comp_def)
  have sums: "sum_list (map tp_TradeCount (mr_Timeseries m)) = sum_list (map m_TradeCount ?rows)"
    "sorted_wrt (<) (map tp_Bucket (mr_Timeseries m))"
    unfolding pts by (rule range_groups_counts)+
  have fields: "mr_UserId m = UserIDFromContext c"
    "mr_RevengeTrades m = int (length (filter (\<lambda>t'. UserID t' = u \<and> RevengeFlag t' \<and> f \<le> EntryAt t' \<and> EntryAt t' \<le> t) (trades (w_db w))))"
    "mr_OvertradingEvents m = int (length (filter (\<lambda>o'. o_UserID o' = u \<and> f \<le> o_EmittedAt o' \<and> o_EmittedAt o' \<le> t)
        (overtrading_events (w_db w))))"
    by (simp_all add: m metrics_response_fields)
  show ?thesis
    by (intro exI [of _ p] exI [of _ m] exI [of _ u] exI [of _ f] exI [of _ t] conjI p(1,4,5) u rates sums fields)
qed

theorem Metrics_Get_content_witness:
  "fst (fst (Metrics_Get ref_pg ref_decimal mem_ops (\<lambda>m. itoa (sum_list (map tp_TradeCount (mr_Timeseries m))))
     ex_metrics_request (as_user alice) ex_measured)) = (respondBytes ''3'' :: dec response)"
proof -
  let ?marshal = "\<lambda>m :: MetricsResponse. itoa (sum_list (map tp_TradeCount (mr_Timeseries m)))"
  have up: "db_up ex_measured" by (simp add: ex_measured_def ex_db_def)
  have inv: "metrics_inv ref_pg (w_db ex_measured)"
    unfolding ex_measured_def ex_world_def ex_db_def ex_bucket_def metrics_inv_def by code_simp
  have small: "sum_list (map m_TradeCount (behavioral_metrics (w_db ex_measured))) \<le> 2 ^ 53"
    by (simp add: ex_measured_def ex_bucket_def)
  from Metrics_Get_content [OF up inv small ex_metrics_answer, of ?marshal]
  obtain p m u f t where m: "parse_params ex_metrics_request = Inr p" "?marshal ex_response = ?marshal m"
    "pg_uuid ref_pg (UserIDFromContext (as_user alice)) = Some u"
    "pg_timestamptz ref_pg (mp_from p) = Some f" "pg_timestamptz ref_pg (mp_to p) = Some t"
    "sum_list (map tp_TradeCount (mr_Timeseries m)) = sum_list (map m_TradeCount (metrics_in_range (w_db ex_measured) u f t))"
    by (elim exE conjE) (rule that; assumption)
  have "pg_uuid ref_pg (UserIDFromContext (as_user alice)) = Some alice" by code_simp
  then have u: "u = alice" using m(3) by simp
  have p: "p = ex_params" using m(1) ex_parse by simp
  have "pg_timestamptz ref_pg (mp_from ex_params) = Some (1736121600 * second)"
    "pg_timestamptz ref_pg (mp_to ex_params) = Some (1736208000 * second)" by code_simp+
  then have ft: "f = 1736121600 * second" "t = 1736208000 * second" using m(4,5) p by simp_all
  have "sum_list (map m_TradeCount (metrics_in_range (w_db ex_measured) u f t)) = 3"
    by (simp add: metrics_in_range_def ex_measured_def ex_bucket_def ex_time_def second_def u ft)
  then have three: "sum_list (map tp_TradeCount (mr_Timeseries m)) = 3" using m(6) by simp
  moreover have "itoa 3 = ''3''" by code_simp
  ultimately show ?thesis using m(2) by (simp add: ex_metrics_answer)
qed

end
