(* ===== verification/Profile_Handler.thy ===== *)
theory Profile_Handler
  imports Metrics_Handler "HOL-Library.Sublist"
begin

text \<open>
  \<open>handler/profile.go\<close>: GET of a user's behavioural profile, from the evidence queries of the
  trade store, with a five-minute cache in Redis. The JSON text and the time of the answer are
  arguments.
\<close>

section \<open>The handler\<close>

definition allPathologyTypes :: "string list" where
  "allPathologyTypes =
     [''revenge_trading'', ''overtrading'', ''fomo_entries'', ''plan_non_adherence'', ''premature_exit'',
      ''loss_running'', ''session_tilt'', ''time_of_day_bias'', ''position_sizing_inconsistency'']"

definition profile_confidence :: "int \<Rightarrow> int \<Rightarrow> float64" where
  "profile_confidence n totalTrades =
     (let confidence = f64_div (f64_of_int n) (f64_of_int totalTrades)
      in if f64_less (Fin 1) confidence then Fin 1 else confidence)"

text \<open>The loop over the pathology types: a failed query, or one without trades, is skipped.\<close>

fun find_pathologies ::
  "pg_types \<Rightarrow> string \<Rightarrow> int \<Rightarrow> string list \<Rightarrow> 'r world \<Rightarrow> Pathology list \<times> 'r world" where
  "find_pathologies T userID totalTrades [] w = ([], w)"
| "find_pathologies T userID totalTrades (pType # pTypes) w =
     (case on_db (GetEvidenceForPathology T userID pType) w of (x, w1) \<Rightarrow>
        (let found = (case x of
               Inl err \<Rightarrow> []
             | Inr evidence \<Rightarrow>
                 if length (TradeIDs evidence) = 0 then []
                 else if 2 \<le> length (TradeIDs evidence)
                 then [\<lparr> pa_Pathology = pType,
                         pa_Confidence = profile_confidence (int (length (TradeIDs evidence))) totalTrades,
                         pa_EvidenceSessions = SessionIDs evidence, pa_EvidenceTrades = TradeIDs evidence \<rparr>]
                 else [])
         in case find_pathologies T userID totalTrades pTypes w1 of (rest, w2) \<Rightarrow> (found @ rest, w2)))"

definition find_strengths :: "Pathology list \<Rightarrow> string list" where
  "find_strengths pathologies =
     (let pathologySet = (\<lambda>p. p \<in> pa_Pathology ` set pathologies)
      in (if \<not> pathologySet ''plan_non_adherence'' then [''Disciplined plan execution''] else [])
         @ (if \<not> pathologySet ''revenge_trading'' \<and> \<not> pathologySet ''session_tilt'' then [''Strong emotional control''] else [])
         @ (if \<not> pathologySet ''overtrading'' then [''Consistent risk management''] else [])
         @ (if \<not> pathologySet ''position_sizing_inconsistency'' then [''Consistent position sizing''] else [])
         @ (if 0 < length pathologies
            then [''Self-aware of behavioral patterns'', ''Committed to tracking and improvement''] else []))"

definition build_profile :: "pg_types \<Rightarrow> time \<Rightarrow> string \<Rightarrow> 'r world \<Rightarrow> ProfileResponse \<times> 'r world" where
  "build_profile T now userID w =
     (case on_db (GetEvidenceForPathology T userID '''') w of (x, w1) \<Rightarrow>
        (let n = (case x of Inl err \<Rightarrow> 0 | Inr allEvidence \<Rightarrow> int (length (TradeIDs allEvidence)));
             totalTrades = (if n = 0 then 1 else n)
         in case find_pathologies T userID totalTrades allPathologyTypes w1 of (pathologies, w2) \<Rightarrow>
              (\<lparr> pr_UserID = userID, pr_GeneratedAt = now, pr_DominantPathologies = pathologies,
                 pr_Strengths = find_strengths pathologies,
                 pr_PeakPerformanceWindow = \<lparr>pw_StartHour = 9, pw_EndHour = 11, pw_WinRate = f64_of_rat (65 / 100)\<rparr> \<rparr>,
               w2)))"

definition profile_key :: "string \<Rightarrow> string" where "profile_key userID = ''profile:'' @ userID"

definition Profile_Get ::
  "pg_types \<Rightarrow> 'r redis_ops \<Rightarrow> (ProfileResponse \<Rightarrow> string) \<Rightarrow> time \<Rightarrow> ('r, 'd) handler" where
  "Profile_Get T R marshal now r c w =
     (let userID = URLParam r ''userId''; jwtSub = UserIDFromContext c; cacheKey = profile_key userID
      in if userID \<noteq> jwtSub then ((respondForbidden c, []), w)
         else (case on_redis (Cache_Get R cacheKey) w of
                 (Inr (Some cached), w1) \<Rightarrow> ((respondBytes cached, []), w1)
               | (_, w1) \<Rightarrow>
                   (case on_db (User_GetByID T userID) w1 of
                      (Inl err, w2) \<Rightarrow> ((respondNotFound c ''User not found.'', []), w2)
                    | (Inr _, w2) \<Rightarrow>
                        (case build_profile T now userID w2 of (profile, w3) \<Rightarrow>
                          (let jsonBytes = marshal profile
                           in ((respondBytes jsonBytes, []),
                               snd (on_redis (rd_set R cacheKey jsonBytes (5 * minute)) w3)))))))"

section \<open>What the handler reads and writes\<close>

text \<open>A view of the world that the queries keep.\<close>

lemma find_pathologies_frame:
  "(\<exists>ds. w_db (snd (find_pathologies T u n ps w)) = (w_db w)\<lparr>db_deliveries := ds\<rparr>)
   \<and> w_redis (snd (find_pathologies T u n ps w)) = w_redis w"
proof (induction ps arbitrary: w)
  case Nil
  show ?case by (simp add: exI [of _ "db_deliveries (w_db w)"])
next
  case (Cons p ps)
  obtain x w1 where q: "on_db (GetEvidenceForPathology T u p) w = (x, w1)" by fastforce
  obtain ds where "w_db w1 = (w_db w)\<lparr>db_deliveries := ds\<rparr>"
    using query_frame(4) [of T u p "w_db w"] on_db_eqD [OF q] by auto
  with Cons.IH [of w1] on_db_eqD [OF q] q show ?case by (auto split: prod.splits)
qed

lemma build_profile_frame:
  "(\<exists>ds. w_db (snd (build_profile T now u w)) = (w_db w)\<lparr>db_deliveries := ds\<rparr>)
   \<and> w_redis (snd (build_profile T now u w)) = w_redis w"
proof -
  obtain x w1 where q: "on_db (GetEvidenceForPathology T u []) w = (x, w1)" by fastforce
  obtain ds where "w_db w1 = (w_db w)\<lparr>db_deliveries := ds\<rparr>"
    using query_frame(4) [of T u "[]" "w_db w"] on_db_eqD [OF q] by auto
  then show ?thesis
    using q on_db_eqD [OF q]
      find_pathologies_frame [of T u "if (case x of Inl err \<Rightarrow> 0 | Inr e \<Rightarrow> int (length (TradeIDs e))) = 0 then 1
        else (case x of Inl err \<Rightarrow> 0 | Inr e \<Rightarrow> int (length (TradeIDs e)))" allPathologyTypes w1]
    by (auto simp: build_profile_def Let_def split: prod.splits)
qed

lemma User_GetByID_state: "\<exists>ds. snd (User_GetByID T x s) = s\<lparr>db_deliveries := ds\<rparr>"
proof -
  obtain ds where "snd (pg_send T (select_user T x) s) = s\<lparr>db_deliveries := ds\<rparr>"
    using pg_send_read [of "select_user T x" T s] by auto
  then show ?thesis by (auto simp: User_GetByID_def split: prod.splits sum.splits)
qed

text \<open>The four ways a request ends.\<close>

lemma Profile_Get_cases:
  obtains (foreign) "URLParam r ''userId'' \<noteq> UserIDFromContext c"
      "(Profile_Get T R marshal now r c w :: ('d response \<times> task list) \<times> 'r world) = ((respondForbidden c, []), w)"
  | (hit) cached w1 where "URLParam r ''userId'' = UserIDFromContext c"
      "on_redis (Cache_Get R (profile_key (UserIDFromContext c))) w = (Inr (Some cached), w1)"
      "(Profile_Get T R marshal now r c w :: ('d response \<times> task list) \<times> 'r world) = ((respondBytes cached, []), w1)"
  | (unknown) x w1 e w2 where "URLParam r ''userId'' = UserIDFromContext c"
      "on_redis (Cache_Get R (profile_key (UserIDFromContext c))) w = (x, w1)"
      "on_db (User_GetByID T (UserIDFromContext c)) w1 = (Inl e, w2)"
      "(Profile_Get T R marshal now r c w :: ('d response \<times> task list) \<times> 'r world) = ((respondNotFound c ''User not found.'', []), w2)"
  | (miss) x w1 us w2 pr w3 where "URLParam r ''userId'' = UserIDFromContext c"
      "on_redis (Cache_Get R (profile_key (UserIDFromContext c))) w = (x, w1)" "x = Inr None \<or> (\<exists>e. x = Inl e)"
      "on_db (User_GetByID T (UserIDFromContext c)) w1 = (Inr us, w2)"
      "build_profile T now (UserIDFromContext c) w2 = (pr, w3)"
      "(Profile_Get T R marshal now r c w :: ('d response \<times> task list) \<times> 'r world) = ((respondBytes (marshal pr), []),
         snd (on_redis (rd_set R (profile_key (UserIDFromContext c)) (marshal pr) (5 * minute)) w3))"
proof (cases "URLParam r ''userId'' = UserIDFromContext c")
  case False
  then show thesis by (intro foreign) (simp_all add: Profile_Get_def Let_def)
next
  case user: True
  obtain x w1 where g: "on_redis (Cache_Get R (profile_key (UserIDFromContext c))) w = (x, w1)" by fastforce
  obtain y w2 where u: "on_db (User_GetByID T (UserIDFromContext c)) w1 = (y, w2)" by fastforce
  obtain pr w3 where b: "build_profile T now (UserIDFromContext c) w2 = (pr, w3)" by fastforce
  consider (cached) b where "x = Inr (Some b)" | (none) "x = Inr None \<or> (\<exists>e. x = Inl e)" by (cases x) auto
  then show thesis
  proof cases
    case (cached b)
    with user g show thesis by (intro hit [of b w1]) (simp_all add: Profile_Get_def Let_def)
  next
    case none
    show thesis
    proof (cases y)
      case (Inl e)
      with user g u none show thesis by (intro unknown [of x w1 e w2]) (auto simp: Profile_Get_def Let_def)
    next
      case (Inr us)
      with user g u b none show thesis
        by (intro miss [of x w1 us w2 pr w3]) (auto simp: Profile_Get_def Let_def)
    qed
  qed
qed

section \<open>Properties of the request\<close>

text \<open>
  C33: Profiles are private and computing them changes no table: another user's profile is refused
  with 403 without a read of either server; otherwise the answer is 200 or 404 (also when the
  database cannot be reached), no task is started, and the only key of the cache that can change
  is the subject's own profile, which then holds the answer for five minutes.
\<close>

theorem Profile_Get_private:
  fixes T and R :: "'r redis_ops" and marshal and now and r and c and w :: "'r world"
    and kv :: "'r \<Rightarrow> string \<Rightarrow> (string \<times> time) option"
  assumes "redis_keys R kv clock"
  defines "resp \<equiv> fst (fst (Profile_Get T R marshal now r c w :: ('d response \<times> task list) \<times> 'r world))"
    and "w' \<equiv> snd (Profile_Get T R marshal now r c w :: ('d response \<times> task list) \<times> 'r world)"
  shows "(\<exists>ds. w_db w' = (w_db w)\<lparr>db_deliveries := ds\<rparr>)
    \<and> snd (fst (Profile_Get T R marshal now r c w :: ('d response \<times> task list) \<times> 'r world)) = []
    \<and> (if URLParam r ''userId'' \<noteq> UserIDFromContext c then is_error resp c 403 ''FORBIDDEN'' \<and> w' = w
       else is_error resp c 404 ''NOT_FOUND'' \<and> kv (w_redis w') = kv (w_redis w)
         \<or> (\<exists>b. resp = respondBytes b
              \<and> kv (w_redis w') \<in> {kv (w_redis w),
                  (kv (w_redis w))(profile_key (UserIDFromContext c) \<mapsto> (b, clock (w_redis w) + 5 * minute))}))"
proof -
  let ?run = "Profile_Get T R marshal now r c w :: ('d response \<times> task list) \<times> 'r world"
  have id: "\<exists>ds. w_db w = (w_db w)\<lparr>db_deliveries := ds\<rparr>" by (intro exI [of _ "db_deliveries (w_db w)"]) simp
  have get: "w_db w1 = w_db w \<and> kv (w_redis w1) = kv (w_redis w) \<and> clock (w_redis w1) = clock (w_redis w)"
    if "on_redis (Cache_Get R k) w = (x, w1)" for k x w1
    using on_redis_eqD [OF that] redis_keys.Cache_Get_frame [OF assms(1)] by auto
  have user: "(\<exists>ds. w_db w2 = (w_db w1)\<lparr>db_deliveries := ds\<rparr>) \<and> w_redis w2 = w_redis w1"
    if "on_db (User_GetByID T u) w1 = (y, w2)" for u y and w1 w2 :: "'r world"
    using on_db_eqD [OF that] User_GetByID_state [of T u "w_db w1"] by auto
  show ?thesis
  proof (rule Profile_Get_cases [of r c T R marshal now w, where 'd = 'd])
    assume "URLParam r ''userId'' \<noteq> UserIDFromContext c" "?run = ((respondForbidden c, []), w)"
    then show ?thesis using id by (simp add: resp_def w'_def)
  next
    fix cached w1 assume "URLParam r ''userId'' = UserIDFromContext c" "?run = ((respondBytes cached, []), w1)"
      and "on_redis (Cache_Get R (profile_key (UserIDFromContext c))) w = (Inr (Some cached), w1)"
    then show ?thesis using id get by (auto simp: resp_def w'_def)
  next
    fix x w1 e w2 assume "URLParam r ''userId'' = UserIDFromContext c" "?run = ((respondNotFound c ''User not found.'', []), w2)"
      and "on_redis (Cache_Get R (profile_key (UserIDFromContext c))) w = (x, w1)"
        "on_db (User_GetByID T (UserIDFromContext c)) w1 = (Inl e, w2)"
    then show ?thesis using get user by (fastforce simp: resp_def w'_def)
  next
    fix x w1 us w2 pr w3 assume own: "URLParam r ''userId'' = UserIDFromContext c"
      and "on_redis (Cache_Get R (profile_key (UserIDFromContext c))) w = (x, w1)"
        "on_db (User_GetByID T (UserIDFromContext c)) w1 = (Inr us, w2)"
        "build_profile T now (UserIDFromContext c) w2 = (pr, w3)"
      and run: "?run = ((respondBytes (marshal pr), []),
         snd (on_redis (rd_set R (profile_key (UserIDFromContext c)) (marshal pr) (5 * minute)) w3))"
    then have w3: "(\<exists>ds. w_db w3 = (w_db w)\<lparr>db_deliveries := ds\<rparr>)" "kv (w_redis w3) = kv (w_redis w)"
        "clock (w_redis w3) = clock (w_redis w)"
      using get user build_profile_frame [of T now "UserIDFromContext c" w2] by fastforce+
    obtain y s where set: "rd_set R (profile_key (UserIDFromContext c)) (marshal pr) (5 * minute) (w_redis w3) = (y, s)"
      by fastforce
    have "kv s \<in> {kv (w_redis w), (kv (w_redis w))(profile_key (UserIDFromContext c) \<mapsto> (marshal pr, clock (w_redis w) + 5 * minute))}"
      using set w3 redis_keys.set_ok [OF assms(1)] redis_keys.set_err [OF assms(1)] by (cases y) fastforce+
    then show ?thesis using own w3 set run by (auto simp: resp_def w'_def)
  qed
qed

theorem Profile_Get_private_witness:
  "is_error (fst (fst (Profile_Get ref_pg mem_ops (\<lambda>pr. ''{}'') ex_time (ex_request\<lparr>rq_params := [''userId'' \<mapsto> bob]\<rparr>)
     (as_user alice) ex_world)) :: dec response) (as_user alice) 403 ''FORBIDDEN''"
proof -
  have "URLParam (ex_request\<lparr>rq_params := [''userId'' \<mapsto> bob]\<rparr>) ''userId'' \<noteq> UserIDFromContext (as_user alice)"
    by (simp add: URLParam_def as_user_def UserIDFromContext_def alice_def bob_def)
  with Profile_Get_private [OF mem.redis_keys_axioms, of ref_pg "\<lambda>pr. ''{}''" ex_time
      "ex_request\<lparr>rq_params := [''userId'' \<mapsto> bob]\<rparr>" "as_user alice" ex_world, where 'd = dec]
  show ?thesis by simp
qed

section \<open>The content of a profile\<close>

text \<open>The rows an evidence query returns: the ten latest of the user's trades that satisfy the clause.\<close>

definition evidence_rows :: "pg_types \<Rightarrow> string \<Rightarrow> string \<Rightarrow> rat Trade list \<Rightarrow> rat Trade list" where
  "evidence_rows T u p rows =
     take 10 (sort_key (\<lambda>r. - EntryAt r) (filter (\<lambda>r. UserID r = u \<and> pathology_clause T u rows p r) rows))"

lemma GetEvidence_Inr:
  assumes "GetEvidenceForPathology T x p s = (Inr e, s')"
  shows "\<exists>u. pg_uuid T x = Some u \<and> TradeIDs e = map TradeID (evidence_rows T u p (pg_scan T (trades s)))
    \<and> distinct (SessionIDs e) \<and> set (SessionIDs e) = SessionID ` set (evidence_rows T u p (pg_scan T (trades s)))"
proof -
  obtain ds where "select_by_uuid T x (\<lambda>u rows. foldl add_evidence \<lparr>TradeIDs = [], SessionIDs = []\<rparr>
      (take 10 (sort_key (\<lambda>r. - EntryAt r) (filter (\<lambda>r. UserID r = u \<and> pathology_clause T u rows p r) rows))))
      (s\<lparr>db_deliveries := ds\<rparr>) = (Inr e, s')"
    using pg_send_InrE [OF assms [unfolded GetEvidenceForPathology_def]] .
  then obtain u where u: "pg_uuid T x = Some u"
    and e: "e = foldl add_evidence \<lparr>TradeIDs = [], SessionIDs = []\<rparr> (evidence_rows T u p (pg_scan T (trades s)))"
    by (auto simp: select_by_uuid_def evidence_rows_def split: option.splits)
  then show ?thesis by (simp add: add_evidence_fold collect_distinct)
qed

text \<open>What a listed pathology means for the trades of the user's table.\<close>

definition pathology_ok :: "pg_types \<Rightarrow> string \<Rightarrow> rat Trade list \<Rightarrow> Pathology \<Rightarrow> bool" where
  "pathology_ok T u rows p \<longleftrightarrow>
     2 \<le> length (pa_EvidenceTrades p) \<and> length (pa_EvidenceTrades p) \<le> 10
     \<and> distinct (pa_EvidenceTrades p) \<and> distinct (pa_EvidenceSessions p) \<and> f64_between 0 1 (pa_Confidence p)
     \<and> (\<forall>i \<in> set (pa_EvidenceTrades p). \<exists>t \<in> set rows. TradeID t = i \<and> UserID t = u
          \<and> pathology_clause T u (pg_scan T rows) (pa_Pathology p) t \<and> SessionID t \<in> set (pa_EvidenceSessions p))"

lemma confidence_between:
  assumes "0 \<le> n" "n \<le> 10" "1 \<le> k" "k \<le> 10"
  shows "f64_between 0 1 (profile_confidence n k)"
proof -
  have "n \<le> 10 * k" using assms by linarith
  moreover have "\<bar>n\<bar> \<le> 2 ^ 53" "k \<le> 2 ^ 53" using assms by (simp_all add: abs_of_nonneg)
  ultimately have "f64_between 0 10 (f64_div (f64_of_int n) (f64_of_int k))"
    using assms by (intro f64_ratio_between(1)) simp_all
  then show ?thesis
    by (auto simp: profile_confidence_def Let_def f64_between_def split: float64.splits)
qed

context postgres
begin

lemma evidence_rows_props:
  assumes "distinct (map TradeID rows)"
  shows "distinct (map TradeID (evidence_rows T u p (pg_scan T rows)))"
    "length (evidence_rows T u p (pg_scan T rows)) \<le> 10"
    "r \<in> set (evidence_rows T u p (pg_scan T rows)) \<Longrightarrow>
       r \<in> set rows \<and> UserID r = u \<and> pathology_clause T u (pg_scan T rows) p r"
proof -
  have "distinct (map TradeID (pg_scan T rows))"
    using assms scan_permutes [of rows] by (metis mset_eq_imp_distinct_iff mset_map)
  then have "distinct (map TradeID (filter P (pg_scan T rows)))" for P by (rule filter_distinct_map)
  then have "distinct (map TradeID (sort_key f (filter P (pg_scan T rows))))" for f :: "rat Trade \<Rightarrow> int" and P
    by (metis mset_eq_imp_distinct_iff mset_map mset_sort)
  then show "distinct (map TradeID (evidence_rows T u p (pg_scan T rows)))"
    by (simp add: evidence_rows_def take_map [symmetric] distinct_take)
  show "length (evidence_rows T u p (pg_scan T rows)) \<le> 10" by (simp add: evidence_rows_def)
  show "r \<in> set (evidence_rows T u p (pg_scan T rows)) \<Longrightarrow>
       r \<in> set rows \<and> UserID r = u \<and> pathology_clause T u (pg_scan T rows) p r"
    unfolding evidence_rows_def by (drule in_set_takeD) auto
qed

lemma find_pathologies_ok:
  assumes "distinct (map TradeID (trades (w_db w)))" "pg_uuid T x = Some u" "1 \<le> n" "n \<le> 10"
  shows "subseq (map pa_Pathology (fst (find_pathologies T x n ps w))) ps
    \<and> (\<forall>p \<in> set (fst (find_pathologies T x n ps w)). pathology_ok T u (trades (w_db w)) p)"
  using assms(1)
proof (induction ps arbitrary: w)
  case (Cons p ps)
  obtain y w1 where q: "on_db (GetEvidenceForPathology T x p) w = (y, w1)" by fastforce
  obtain ds where w1: "w_db w1 = (w_db w)\<lparr>db_deliveries := ds\<rparr>"
    using query_frame(4) [of T x p "w_db w"] on_db_eqD [OF q] by auto
  obtain rest w2 where r: "find_pathologies T x n ps w1 = (rest, w2)" by fastforce
  have IH: "subseq (map pa_Pathology rest) ps" "\<forall>q \<in> set rest. pathology_ok T u (trades (w_db w)) q"
    using Cons.IH [of w1] Cons.prems w1 r by simp_all
  show ?case
  proof (cases "\<exists>e. y = Inr e \<and> 2 \<le> length (TradeIDs e)")
    case False
    then have "fst (find_pathologies T x n (p # ps) w) = rest"
      using q r by (cases y) (auto simp: Let_def)
    with IH list_emb_Cons [OF IH(1), of p] show ?thesis by simp
  next
    case True
    then obtain e where e: "y = Inr e" "2 \<le> length (TradeIDs e)" by blast
    let ?p = "\<lparr>pa_Pathology = p, pa_Confidence = profile_confidence (int (length (TradeIDs e))) n,
        pa_EvidenceSessions = SessionIDs e, pa_EvidenceTrades = TradeIDs e\<rparr>"
    have run: "fst (find_pathologies T x n (p # ps) w) = ?p # rest" using q r e by (auto simp: Let_def)
    have "GetEvidenceForPathology T x p (w_db w) = (Inr e, w_db w1)" using on_db_eqD [OF q] e(1) by simp
    then have ev: "TradeIDs e = map TradeID (evidence_rows T u p (pg_scan T (trades (w_db w))))" "distinct (SessionIDs e)"
      "set (SessionIDs e) = SessionID ` set (evidence_rows T u p (pg_scan T (trades (w_db w))))"
      using GetEvidence_Inr assms(2) by fastforce+
    note rows = evidence_rows_props [OF Cons.prems, where u = u and p = p]
    have "length (TradeIDs e) \<le> 10" using ev(1) rows(2) by simp
    then have "pathology_ok T u (trades (w_db w)) ?p"
      using e(2) ev rows assms(3,4) by (auto simp: pathology_ok_def intro!: confidence_between)
    with IH run show ?thesis by simp
  qed
qed simp

end

text \<open>
  C34: A freshly computed profile only accuses on evidence: its pathologies are some of the nine
  types, each at most once and in their order, and each carries between 2 and 10 different trades,
  every one a stored trade of the user that satisfies the type's criterion and whose session is
  listed, and a confidence between 0 and 1. (The confidence divides by the number of the user's
  latest trades, which the query caps at ten.)
\<close>

theorem Profile_Get_evidence:
  fixes T and R :: "'r redis_ops" and marshal and now and r and c and w :: "'r world" and resp :: "'d response"
  assumes "postgres T" "trades_ok T (w_db w)"
    and miss: "on_redis (Cache_Get R (profile_key (UserIDFromContext c))) w = (Inr None, w1)"
    and user: "pg_uuid T (UserIDFromContext c) = Some u"
    and run: "Profile_Get T R marshal now r c w = ((resp, tasks), w')" and ok: "rs_status resp = 200"
  shows "\<exists>pr. resp = respondBytes (marshal pr) \<and> pr_UserID pr = UserIDFromContext c
    \<and> subseq (map pa_Pathology (pr_DominantPathologies pr)) allPathologyTypes
    \<and> (\<forall>p \<in> set (pr_DominantPathologies pr). pathology_ok T u (trades (w_db w)) p)"
proof (rule Profile_Get_cases [of r c T R marshal now w, where 'd = 'd])
  fix x w1' us w2 pr w3
  assume g: "on_redis (Cache_Get R (profile_key (UserIDFromContext c))) w = (x, w1')"
    and q: "on_db (User_GetByID T (UserIDFromContext c)) w1' = (Inr us, w2)"
    and b: "build_profile T now (UserIDFromContext c) w2 = (pr, w3)"
    and eq: "Profile_Get T R marshal now r c w = ((respondBytes (marshal pr) :: 'd response, []),
         snd (on_redis (rd_set R (profile_key (UserIDFromContext c)) (marshal pr) (5 * minute)) w3))"
  obtain ds where w2: "w_db w2 = (w_db w)\<lparr>db_deliveries := ds\<rparr>"
    using on_redis_eqD [OF g] on_db_eqD [OF q] User_GetByID_state [of T "UserIDFromContext c" "w_db w1'"] by auto
  obtain y w4 where a: "on_db (GetEvidenceForPathology T (UserIDFromContext c) []) w2 = (y, w4)" by fastforce
  obtain ds' where w4: "w_db w4 = (w_db w)\<lparr>db_deliveries := ds'\<rparr>"
    using query_frame(4) [of T "UserIDFromContext c" "[]" "w_db w2"] on_db_eqD [OF a] w2 by auto
  define n where "n = (case y of Inl err \<Rightarrow> 0 | Inr e \<Rightarrow> int (length (TradeIDs e)))"
  have dist: "distinct (map TradeID (trades (w_db w)))" using assms(2) by (simp add: trades_ok_def)
  have "n \<le> 10"
  proof (cases y)
    case (Inr e)
    then have "GetEvidenceForPathology T (UserIDFromContext c) [] (w_db w2) = (Inr e, w_db w4)"
      using on_db_eqD [OF a] by simp
    then show ?thesis
      using GetEvidence_Inr [of T "UserIDFromContext c" "[]" "w_db w2" e "w_db w4"] Inr
      by (auto simp: n_def evidence_rows_def)
  qed (simp add: n_def)
  moreover have "0 \<le> n" by (simp add: n_def split: sum.splits)
  ultimately have "1 \<le> (if n = 0 then 1 else n)" "(if n = 0 then 1 else n) \<le> 10" by auto
  note ok = postgres.find_pathologies_ok [OF assms(1) _ user this, of w4 allPathologyTypes]
  have pr: "pr_UserID pr = UserIDFromContext c"
    "pr_DominantPathologies pr = fst (find_pathologies T (UserIDFromContext c) (if n = 0 then 1 else n) allPathologyTypes w4)"
    using b a by (auto simp: build_profile_def Let_def n_def split: prod.splits)
  moreover have "resp = respondBytes (marshal pr)" using run eq by simp
  ultimately show ?thesis using ok dist w4 by (intro exI [of _ pr]) simp
next
  fix cached w1' assume "on_redis (Cache_Get R (profile_key (UserIDFromContext c))) w = (Inr (Some cached), w1')"
  with miss show ?thesis by simp
qed (use run ok in simp_all)

theorem Profile_Get_evidence_witness:
  "\<exists>pr :: ProfileResponse. fst (fst (Profile_Get ref_pg mem_ops (\<lambda>pr. pr_UserID pr) ex_time (ex_request\<lparr>rq_params := [''userId'' \<mapsto> alice]\<rparr>)
       (as_user alice) ex_traded)) = (respondBytes alice :: dec response) \<and> pr_UserID pr = alice
     \<and> (\<forall>p \<in> set (pr_DominantPathologies pr). pathology_ok ref_pg alice [ex_trade] p)"
proof -
  let ?r = "ex_request\<lparr>rq_params := [''userId'' \<mapsto> alice]\<rparr>"
  let ?run = "Profile_Get ref_pg mem_ops (\<lambda>pr. pr_UserID pr) ex_time ?r (as_user alice) ex_traded :: (dec response \<times> task list) \<times> _"
  have own: "URLParam ?r ''userId'' = alice" "UserIDFromContext (as_user alice) = alice"
    by (simp_all add: URLParam_def as_user_def UserIDFromContext_def)
  have uuid: "pg_uuid ref_pg alice = Some alice" by code_simp
  have w: "w_redis ex_traded = mem_init ex_time" "ex_traded\<lparr>w_redis := mem_init ex_time\<rparr> = ex_traded"
    "w_db ex_traded = ex_db\<lparr>trades := [ex_trade]\<rparr>" "ex_traded\<lparr>w_db := ex_db\<lparr>trades := [ex_trade]\<rparr>\<rparr> = ex_traded"
    by (simp_all add: ex_traded_def ex_world_def)
  have miss: "on_redis (Cache_Get mem_ops (profile_key alice)) ex_traded = (Inr None, ex_traded)"
    using w(2) by (simp add: on_redis_def w(1) Cache_Get_def mem_ops_def mr_send_def mem_init_def live_value_def mem_kv_def)
  have user: "\<exists>us. on_db (User_GetByID ref_pg alice) ex_traded = (Inr us, ex_traded)"
    using w(4) by (simp add: on_db_def w(3) User_GetByID_def select_user_def uuid ex_db_def)
  then have ok: "rs_status (fst (fst ?run)) = 200"
    by (auto simp: Profile_Get_def own miss Let_def split: prod.splits)
  have run: "?run = ((fst (fst ?run), snd (fst ?run)), snd ?run)" by simp
  from Profile_Get_evidence [OF ref_pg.postgres_axioms ex_traded_ok _ _ run ok, unfolded own, OF miss uuid]
  show ?thesis by (auto simp: w(3))
qed

end
