(* ===== verification/Health_Handler.thy ===== *)
theory Health_Handler
  imports Http "HOL-Library.Word"
begin

text \<open>
  \<open>handler/health.go\<close>: the health check, with the lag of the event queue computed in 64-bit
  integers from the ID of the stream's last entry. The time of the answer is an argument; the
  two-second timeout of the checks shows as a lost statement or a failed command.
\<close>

section \<open>The handler\<close>

text \<open>\<open>pool.Ping\<close> sends an empty statement.\<close>

definition pg_ping :: "pg_types \<Rightarrow> unit stmt" where
  "pg_ping T = pg_send T (\<lambda>s. (Inr (), s))"

text \<open>
  The number in front of the first dash, digit by digit in an \<open>int64\<close>; zero without a dash. The
  bytes of an entry ID are ASCII, so that they are its runes.
\<close>

definition id_timestamp :: "string \<Rightarrow> 64 word" where
  "id_timestamp fmt_parse =
     (if CHR ''-'' \<in> set fmt_parse
      then foldl (\<lambda>ts ch. ts * 10 + word_of_int (int (of_char ch) - 48)) 0 (takeWhile (\<lambda>c. c \<noteq> CHR ''-'') fmt_parse)
      else 0)"

definition queue_lag :: "time \<Rightarrow> string \<Rightarrow> int" where
  "queue_lag now lastID =
     (if lastID \<noteq> '''' then
        (let ts = id_timestamp lastID
         in if 0 < sint ts
            then (let lag = (word_of_int (unix_milli now) :: 64 word) - ts
                  in if sint lag < 0 then 0 else sint lag)
            else 0)
      else 0)"

definition getQueueLag :: "'r redis_ops \<Rightarrow> time \<Rightarrow> 'r world \<Rightarrow> int \<times> 'r world" where
  "getQueueLag R now w =
     (case on_redis (Stream_InfoStream R ''trades:events'') w of
        (Inl err, w1) \<Rightarrow> (0, w1)
      | (Inr lastID, w1) \<Rightarrow> (queue_lag now lastID, w1))"

definition Health_Check :: "pg_types \<Rightarrow> 'r redis_ops \<Rightarrow> time \<Rightarrow> ('r, 'd) handler" where
  "Health_Check T R now r c w =
     (case on_db (pg_ping T) w of (ping, w1) \<Rightarrow>
        (let dbStatus = (case ping of Inl err \<Rightarrow> ''disconnected'' | Inr _ \<Rightarrow> ''connected'')
         in case getQueueLag R now w1 of (queueLag, w2) \<Rightarrow>
              (let status = (if dbStatus = ''disconnected'' then ''degraded'' else ''ok'')
               in ((respondJSON StatusOK (PHealth \<lparr>he_Status = status, he_DbConnection = dbStatus,
                      he_QueueLag = queueLag, he_Timestamp = format_rfc3339 now\<rparr>), []), w2))))"

section \<open>The digits of an ID\<close>

lemma of_char_digit: "is_digit c \<Longrightarrow> int (of_char c) - 48 = int (digit_val c)"
  by (simp add: is_digit_def digit_val_def of_nat_diff)

lemma id_digits:
  "list_all is_digit s \<Longrightarrow>
   foldl (\<lambda>ts ch. ts * 10 + word_of_int (int (of_char ch) - 48)) 0 s = (word_of_int (int (digits_val s)) :: 64 word)"
proof (induction s rule: rev_induct)
  case (snoc c s)
  then have s: "list_all is_digit s" and c: "is_digit c" by simp_all
  have "foldl (\<lambda>ts ch. ts * 10 + word_of_int (int (of_char ch) - 48)) 0 (s @ [c])
      = (word_of_int (int (digits_val s)) * 10 + word_of_int (int (digit_val c)) :: 64 word)"
    by (simp only: foldl_append foldl_Cons foldl_Nil snoc.IH [OF s] of_char_digit [OF c])
  also have "\<dots> = word_of_int (int (digits_val (s @ [c])))"
    by (simp add: mult.commute)
  finally show ?case .
qed simp

lemma id_timestamp_utoa: "id_timestamp (utoa ms @ ''-'' @ sq) = word_of_int (int ms)"
proof -
  have "\<forall>x \<in> set (utoa ms). x \<noteq> CHR ''-''" using utoa_digits [of ms] by (auto simp: list_all_iff)
  then have "takeWhile (\<lambda>c. c \<noteq> CHR ''-'') (utoa ms @ ''-'' @ sq) = utoa ms" by simp
  then show ?thesis using id_digits [OF utoa_digits, of ms] by (simp add: id_timestamp_def)
qed

lemma sint_word_of_int_64: "- (2 ^ 63) \<le> i \<Longrightarrow> i < 2 ^ 63 \<Longrightarrow> sint (word_of_int i :: 64 word) = i"
  by (simp add: sint_sbintrunc' signed_take_bit_int_eq_self)

section \<open>Properties\<close>

text \<open>
  C35: The health check answers 200 whatever the servers do - also when it says \<open>degraded\<close>, for
  which the API description has 503 -, and all it sends is a ping to the database, which changes no
  table, and the query XINFO STREAM of the event stream to Redis. It says \<open>ok\<close> and
  \<open>connected\<close> exactly when the ping was answered, \<open>degraded\<close> and \<open>disconnected\<close> otherwise,
  whatever Redis answers; its queue lag is that of the stream's last entry, 0 when Redis gives an
  error, and never negative.
\<close>

theorem Health_Check_answers:
  "\<exists>h. fst (Health_Check T R now r c w) = (respondJSON 200 (PHealth h), [])
     \<and> he_DbConnection h = (case fst (on_db (pg_ping T) w) of Inl _ \<Rightarrow> ''disconnected'' | Inr _ \<Rightarrow> ''connected'')
     \<and> (he_Status h = ''ok'' \<longleftrightarrow> he_DbConnection h = ''connected'') \<and> he_Status h \<in> {''ok'', ''degraded''}
     \<and> he_QueueLag h = (case fst (rd_xinfo_stream R ''trades:events'' (w_redis w)) of Inl _ \<Rightarrow> 0 | Inr i \<Rightarrow> queue_lag now i)
     \<and> 0 \<le> he_QueueLag h
     \<and> (\<exists>ds. w_db (snd (Health_Check T R now r c w)) = (w_db w)\<lparr>db_deliveries := ds\<rparr>)
     \<and> w_redis (snd (Health_Check T R now r c w)) = snd (rd_xinfo_stream R ''trades:events'' (w_redis w))"
proof -
  obtain x w1 where p: "on_db (pg_ping T) w = (x, w1)" by fastforce
  obtain y w2 where q: "on_redis (Stream_InfoStream R ''trades:events'') w1 = (y, w2)" by fastforce
  note q' = on_redis_eqD [OF q]
  obtain ds where "snd (pg_ping T (w_db w)) = (w_db w)\<lparr>db_deliveries := ds\<rparr>"
    using pg_send_read [of "\<lambda>s. (Inr (), s)" T "w_db w"] by (auto simp: pg_ping_def)
  then have w1: "w_db w1 = (w_db w)\<lparr>db_deliveries := ds\<rparr>" "w_redis w1 = w_redis w" using on_db_eqD [OF p] by simp_all
  then have w2: "w_db w2 = (w_db w)\<lparr>db_deliveries := ds\<rparr>"
    and y: "rd_xinfo_stream R ''trades:events'' (w_redis w) = (y, w_redis w2)"
    using q' by (simp_all add: Stream_InfoStream_def)
  let ?n = "case y of Inl _ \<Rightarrow> 0 | Inr i \<Rightarrow> queue_lag now i"
  let ?h = "\<lparr>he_Status = (case x of Inl _ \<Rightarrow> ''degraded'' | Inr _ \<Rightarrow> ''ok''),
      he_DbConnection = (case x of Inl _ \<Rightarrow> ''disconnected'' | Inr _ \<Rightarrow> ''connected''), he_QueueLag = ?n,
      he_Timestamp = format_rfc3339 now\<rparr>"
  have run: "Health_Check T R now r c w = ((respondJSON 200 (PHealth ?h), []), w2)"
    by (cases x; cases y) (simp_all add: Health_Check_def getQueueLag_def p q Let_def StatusOK_def)
  have "0 \<le> queue_lag now i" for i by (simp add: queue_lag_def Let_def)
  then have "0 \<le> ?n" by (cases y) simp_all
  then show ?thesis using w2 y by (intro exI [of _ ?h]) (cases x; simp add: run p exI [of _ ds])
qed

text \<open>
  C36: For the ID of an entry that the server stamped with the millisecond \<open>ms\<close>, the queue lag is
  the age of that entry, or zero when the clock of the API is behind it: the 64-bit digit loop
  and subtraction do not wrap for any time stamp that fits an \<open>int64\<close>.
\<close>

theorem queue_lag_age:
  assumes "0 < ms" "int ms < 2 ^ 63" "0 \<le> unix_milli now" "unix_milli now < 2 ^ 63"
  shows "queue_lag now (utoa ms @ ''-'' @ sq) = max 0 (unix_milli now - int ms)"
proof -
  have ts: "sint (word_of_int (int ms) :: 64 word) = int ms" by (rule sint_word_of_int_64) (use assms in simp_all)
  have sub: "(word_of_int (unix_milli now) :: 64 word) - word_of_int (int ms) = word_of_int (unix_milli now - int ms)"
    by (simp only: wi_hom_syms)
  have "sint (word_of_int (unix_milli now - int ms) :: 64 word) = unix_milli now - int ms"
    by (rule sint_word_of_int_64) (use assms in linarith)+
  then show ?thesis
    using ts assms(1) by (simp only: queue_lag_def id_timestamp_utoa Let_def sub) auto
qed

theorem queue_lag_age_witness: "queue_lag (1736158500123 * millisecond) ''1736158500000-0'' = 123"
proof -
  have "int_digits 1736158500000 = ''1736158500000''" by code_simp
  then have "utoa 1736158500000 = ''1736158500000''" by (simp only: utoa_int_digits of_nat_numeral)
  with queue_lag_age [of 1736158500000 "1736158500123 * millisecond" "''0''"]
  show ?thesis by (simp add: unix_milli_def millisecond_def)
qed

end
