(* ===== verification/Router.thy ===== *)
theory Router
  imports Auth Profile_Handler Health_Handler
begin

text \<open>
  \<open>internal/api/router.go\<close>: the table of routes, the group that is protected by the
  authentication, and the chain of middlewares every request passes. The path matcher is the
  chi package: a function with a locale of its documented behaviour, and a reference that splits
  patterns and paths at the slashes. Paths are taken as they are sent: none needs unescaping.
\<close>

section \<open>The chi package\<close>

datatype route_match = Found string "string strmap" | MethodNotAllowed | NoRoute

type_synonym chi = "(string \<times> string) list \<Rightarrow> string \<Rightarrow> string \<Rightarrow> route_match"

fun split_slash :: "string \<Rightarrow> string list" where
  "split_slash [] = [[]]"
| "split_slash (x # xs) =
     (if x = CHR ''/'' then [] # split_slash xs
      else (case split_slash xs of [] \<Rightarrow> [[x]] | y # ys \<Rightarrow> (x # y) # ys))"

text \<open>A segment \<open>{name}\<close> of a pattern binds the segment of the path that it stands in front of.\<close>

definition is_placeholder :: "string \<Rightarrow> bool" where
  "is_placeholder p \<longleftrightarrow> 2 \<le> length p \<and> hd p = CHR ''{'' \<and> last p = CHR ''}''"

fun match_segments :: "string list \<Rightarrow> string list \<Rightarrow> (string \<times> string) list option" where
  "match_segments [] [] = Some []"
| "match_segments (p # ps) (x # xs) =
     (case match_segments ps xs of
        None \<Rightarrow> None
      | Some bs \<Rightarrow>
          if is_placeholder p then Some ((butlast (tl p), x) # bs)
          else if p = x then Some bs else None)"
| "match_segments _ _ = None"

definition pattern_match :: "string \<Rightarrow> string \<Rightarrow> (string \<times> string) list option" where
  "pattern_match pattern path = match_segments (split_slash pattern) (split_slash path)"

text \<open>
  A pattern without wildcards and regular expressions: its braces stand around whole segments.
\<close>

definition plain_segment :: "string \<Rightarrow> bool" where
  "plain_segment p \<longleftrightarrow>
     list_all (\<lambda>c. c \<notin> {CHR ''{'', CHR ''}'', CHR ''*'', CHR '':''}) (if is_placeholder p then butlast (tl p) else p)"

definition plain_pattern :: "string \<Rightarrow> bool" where
  "plain_pattern p \<longleftrightarrow> list_all plain_segment (split_slash p)"

definition plain_routes :: "(string \<times> string) list \<Rightarrow> bool" where
  "plain_routes routes \<longleftrightarrow> list_all (\<lambda>r. plain_pattern (snd r)) routes"

text \<open>
  Of plain patterns, a route that is found is a registered one of the method whose pattern matches,
  with the bindings of its placeholders; and the one pattern that matches with bindings that are
  not empty is found.
\<close>

locale chi_library =
  fixes chi :: chi
  assumes found_registered: "plain_routes routes \<Longrightarrow> chi routes m path = Found pat ps
      \<Longrightarrow> (m, pat) \<in> set routes \<and> (\<exists>bs. pattern_match pat path = Some bs \<and> ps = map_of bs)"
    and found_unique: "plain_routes routes \<Longrightarrow> (m, pat) \<in> set routes \<Longrightarrow> pattern_match pat path = Some bs
      \<Longrightarrow> \<forall>b \<in> set bs. snd b \<noteq> ''''
      \<Longrightarrow> (\<And>r. r \<in> set routes \<Longrightarrow> snd r \<noteq> pat \<Longrightarrow> pattern_match (snd r) path = None)
      \<Longrightarrow> chi routes m path = Found pat (map_of bs)"

section \<open>NewRouter\<close>

datatype endpoint =
    HealthCheck | TradesCreate | TradesGet | SessionsGet | SessionsDebrief | SessionsCoaching
  | MetricsGet | ProfileGet

text \<open>Method and pattern, whether the route is in the protected group, and the handler.\<close>

definition route_table :: "((string \<times> string) \<times> bool \<times> endpoint) list" where
  "route_table =
     [((''GET'', ''/health''), False, HealthCheck),
      ((''POST'', ''/trades''), True, TradesCreate),
      ((''GET'', ''/trades/{tradeId}''), True, TradesGet),
      ((''GET'', ''/sessions/{sessionId}''), True, SessionsGet),
      ((''POST'', ''/sessions/{sessionId}/debrief''), True, SessionsDebrief),
      ((''GET'', ''/sessions/{sessionId}/coaching''), True, SessionsCoaching),
      ((''GET'', ''/users/{userId}/metrics''), True, MetricsGet),
      ((''GET'', ''/users/{userId}/profile''), True, ProfileGet)]"

text \<open>
  What the server is built from: the drivers, the packages, the secret and the JSON codecs; and
  what a single request meets: the time, its fresh trace ID and the polls of its context.
\<close>

record ('r, 'd) deps =
  dp_T :: pg_types
  dp_D :: "'d decimal_ops"
  dp_R :: "'r redis_ops"
  dp_J :: jwt_ops
  dp_chi :: chi
  dp_jwtSecret :: string
  dp_decodeTrade :: "string \<Rightarrow> string + 'd TradeInput"
  dp_decodeDebrief :: "string \<Rightarrow> string + DebriefInput"
  dp_marshalMetrics :: "MetricsResponse \<Rightarrow> string"
  dp_marshalProfile :: "ProfileResponse \<Rightarrow> string"

record moment =
  mo_now :: time
  mo_traceID :: string
  mo_cancelled :: "nat \<Rightarrow> bool"

text \<open>The writer of the logger flushes, so that the coaching stream always finds a flusher.\<close>

fun endpoint_handler :: "('r, 'd) deps \<Rightarrow> moment \<Rightarrow> endpoint \<Rightarrow> ('r, 'd) handler" where
  "endpoint_handler d m HealthCheck = Health_Check (dp_T d) (dp_R d) (mo_now m)"
| "endpoint_handler d m TradesCreate = Trade_Create (dp_T d) (dp_D d) (dp_R d) (dp_decodeTrade d)"
| "endpoint_handler d m TradesGet = Trade_Get (dp_T d) (dp_D d)"
| "endpoint_handler d m SessionsGet = Session_Get (dp_T d) (dp_D d)"
| "endpoint_handler d m SessionsDebrief = Session_Debrief (dp_T d) (dp_decodeDebrief d)"
| "endpoint_handler d m SessionsCoaching = Session_Coaching (dp_T d) (mo_cancelled m) True"
| "endpoint_handler d m MetricsGet = Metrics_Get (dp_T d) (dp_D d) (dp_R d) (dp_marshalMetrics d)"
| "endpoint_handler d m ProfileGet = Profile_Get (dp_T d) (dp_R d) (dp_marshalProfile d) (mo_now m)"

text \<open>The answers of chi to a path without a route, and to a path with routes of other methods.\<close>

definition not_found_response :: "'d response" where
  "not_found_response = \<lparr>rs_status = 404, rs_contentType = ''text/plain; charset=utf-8'',
     rs_payload = PBytes (''404 page not found'' @ [CHR 10])\<rparr>"

definition method_not_allowed_response :: "'d response" where
  "method_not_allowed_response = \<lparr>rs_status = 405, rs_contentType = '''', rs_payload = PNone\<rparr>"

definition route_handler :: "('r, 'd) deps \<Rightarrow> moment \<Rightarrow> ('r, 'd) handler" where
  "route_handler d m r c w =
     (case dp_chi d (map fst route_table) (rq_method r) (rq_path r) of
        NoRoute \<Rightarrow> ((not_found_response, []), w)
      | MethodNotAllowed \<Rightarrow> ((method_not_allowed_response, []), w)
      | Found pat ps \<Rightarrow>
          (case map_of route_table (rq_method r, pat) of
             None \<Rightarrow> ((not_found_response, []), w)
           | Some (protected, e) \<Rightarrow>
               (if protected
                then AuthMiddleware (dp_J d) (mo_now m) (dp_jwtSecret d) (endpoint_handler d m e)
                else endpoint_handler d m e) (r\<lparr>rq_params := ps\<rparr>) c w))"

definition NewRouter :: "('r, 'd) deps \<Rightarrow> moment \<Rightarrow> request \<Rightarrow> 'r world
    \<Rightarrow> (('d response \<times> task list) \<times> 'r world) \<times> log_entry" where
  "NewRouter d m r w = Logger (mo_traceID m) (route_handler d m) r empty_ctx w"

text \<open>The answer of the server to a request.\<close>

definition serve :: "('r, 'd) deps \<Rightarrow> moment \<Rightarrow> request \<Rightarrow> 'r world \<Rightarrow> ('d response \<times> task list) \<times> 'r world" where
  "serve d m r w = fst (NewRouter d m r w)"

definition moment_ctx :: "moment \<Rightarrow> reqctx" where "moment_ctx m = empty_ctx\<lparr>cx_traceId := Some (mo_traceID m)\<rparr>"

lemma serve_eq: "serve d m r w = route_handler d m r (moment_ctx m) w"
  by (simp add: serve_def NewRouter_def Logger_def moment_ctx_def Let_def)

section \<open>A reference matcher\<close>

definition ref_chi :: chi where
  "ref_chi routes m path =
     (case List.find (\<lambda>r. fst r = m \<and> pattern_match (snd r) path \<noteq> None) routes of
        Some r \<Rightarrow> Found (snd r) (map_of (the (pattern_match (snd r) path)))
      | None \<Rightarrow>
          if \<exists>r \<in> set routes. pattern_match (snd r) path \<noteq> None then MethodNotAllowed else NoRoute)"

interpretation ref_chi: chi_library ref_chi
proof
  show "(m, pat) \<in> set routes \<and> (\<exists>bs. pattern_match pat path = Some bs \<and> ps = map_of bs)"
    if "ref_chi routes m path = Found pat ps" for routes m path pat ps
    using that by (auto simp: ref_chi_def dest!: find_Some_set split: option.splits if_splits)
  show "ref_chi routes m path = Found pat (map_of bs)"
    if "(m, pat) \<in> set routes" "pattern_match pat path = Some bs"
      "\<And>r. r \<in> set routes \<Longrightarrow> snd r \<noteq> pat \<Longrightarrow> pattern_match (snd r) path = None" for m pat routes path bs
  proof (cases "List.find (\<lambda>r. fst r = m \<and> pattern_match (snd r) path \<noteq> None) routes")
    case None
    with that(1,2) show ?thesis by (auto simp: find_None_set)
  next
    case (Some r)
    then have "snd r = pat" using that(3) [of r] find_Some_set [OF Some] by auto
    with Some that(2) show ?thesis by (simp add: ref_chi_def)
  qed
qed

section \<open>The answers of the router\<close>

lemma route_table_open: "map_of route_table k = Some (False, e) \<Longrightarrow> k = (''GET'', ''/health'') \<and> e = HealthCheck"
  by (auto simp: route_table_def split: if_splits)

lemma serve_cases:
  obtains (unrouted) resp where "serve d m r w = ((resp, []), w)" "rs_status resp \<in> {404, 405}"
  | (health) ps where "rq_method r = ''GET''" "dp_chi d (map fst route_table) ''GET'' (rq_path r) = Found ''/health'' ps"
      "serve d m r w = Health_Check (dp_T d) (dp_R d) (mo_now m) (r\<lparr>rq_params := ps\<rparr>) (moment_ctx m) w"
  | (refused) code msg where
      "\<And>sub. \<not> authenticates (dp_J d) (mo_now m) (dp_jwtSecret d) (rq_authorization r) sub"
      "serve d m r w = ((respondAuthError 401 code msg (mo_traceID m), []), w)"
  | (endpoint) sub pat ps e where
      "authenticates (dp_J d) (mo_now m) (dp_jwtSecret d) (rq_authorization r) sub"
      "dp_chi d (map fst route_table) (rq_method r) (rq_path r) = Found pat ps"
      "map_of route_table (rq_method r, pat) = Some (True, e)"
      "serve d m r w = endpoint_handler d m e (r\<lparr>rq_params := ps\<rparr>) ((moment_ctx m)\<lparr>cx_userId := Some sub\<rparr>) w"
proof (cases "dp_chi d (map fst route_table) (rq_method r) (rq_path r)")
  case NoRoute
  with unrouted show thesis by (simp add: serve_eq route_handler_def not_found_response_def)
next
  case MethodNotAllowed
  with unrouted show thesis by (simp add: serve_eq route_handler_def method_not_allowed_response_def)
next
  case f: (Found pat ps)
  show thesis
  proof (cases "map_of route_table (rq_method r, pat)")
    case None
    with f unrouted show thesis by (simp add: serve_eq route_handler_def not_found_response_def)
  next
    case (Some pe)
    obtain protected e where pe: "pe = (protected, e)" by fastforce
    show thesis
    proof (cases protected)
      case False
      then show thesis
        using f Some pe health [of ps] route_table_open [of "(rq_method r, pat)" e]
        by (simp add: serve_eq route_handler_def)
    next
      case True
      let ?r = "r\<lparr>rq_params := ps\<rparr>"
      have run: "serve d m r w = AuthMiddleware (dp_J d) (mo_now m) (dp_jwtSecret d) (endpoint_handler d m e) ?r (moment_ctx m) w"
        using f Some pe True by (simp add: serve_eq route_handler_def)
      show thesis
        by (rule AuthMiddleware_cases [of "dp_J d" "mo_now m" "dp_jwtSecret d" ?r "endpoint_handler d m e" "moment_ctx m" w])
          (use run f Some pe True refused endpoint in \<open>auto simp: moment_ctx_def TraceIDFromContext_def\<close>)
    qed
  qed
qed

section \<open>The routes\<close>

text \<open>A path segment.\<close>

definition segment :: "string \<Rightarrow> bool" where "segment s \<longleftrightarrow> s \<noteq> '''' \<and> CHR ''/'' \<notin> set s"

lemma split_slash_nonempty [simp]: "split_slash s \<noteq> []" by (cases s) (auto split: list.splits)

lemma split_slash_segment: "CHR ''/'' \<notin> set s \<Longrightarrow> split_slash s = [s]"
  by (induction s) auto

lemma split_slash_append: "CHR ''/'' \<notin> set s \<Longrightarrow> split_slash (s @ CHR ''/'' # t) = s # split_slash t"
  by (induction s) auto

text \<open>The path of an endpoint for an identifier.\<close>

fun endpoint_path :: "endpoint \<Rightarrow> string \<Rightarrow> string" where
  "endpoint_path HealthCheck i = ''/health''"
| "endpoint_path TradesCreate i = ''/trades''"
| "endpoint_path TradesGet i = ''/trades/'' @ i"
| "endpoint_path SessionsGet i = ''/sessions/'' @ i"
| "endpoint_path SessionsDebrief i = ''/sessions/'' @ i @ ''/debrief''"
| "endpoint_path SessionsCoaching i = ''/sessions/'' @ i @ ''/coaching''"
| "endpoint_path MetricsGet i = ''/users/'' @ i @ ''/metrics''"
| "endpoint_path ProfileGet i = ''/users/'' @ i @ ''/profile''"

fun endpoint_method :: "endpoint \<Rightarrow> string" where
  "endpoint_method TradesCreate = ''POST''"
| "endpoint_method SessionsDebrief = ''POST''"
| "endpoint_method e = ''GET''"

fun endpoint_params :: "endpoint \<Rightarrow> string \<Rightarrow> string strmap" where
  "endpoint_params HealthCheck i = Map.empty"
| "endpoint_params TradesCreate i = Map.empty"
| "endpoint_params TradesGet i = [''tradeId'' \<mapsto> i]"
| "endpoint_params SessionsGet i = [''sessionId'' \<mapsto> i]"
| "endpoint_params SessionsDebrief i = [''sessionId'' \<mapsto> i]"
| "endpoint_params SessionsCoaching i = [''sessionId'' \<mapsto> i]"
| "endpoint_params MetricsGet i = [''userId'' \<mapsto> i]"
| "endpoint_params ProfileGet i = [''userId'' \<mapsto> i]"

fun endpoint_pattern :: "endpoint \<Rightarrow> string" where
  "endpoint_pattern HealthCheck = ''/health''"
| "endpoint_pattern TradesCreate = ''/trades''"
| "endpoint_pattern TradesGet = ''/trades/{tradeId}''"
| "endpoint_pattern SessionsGet = ''/sessions/{sessionId}''"
| "endpoint_pattern SessionsDebrief = ''/sessions/{sessionId}/debrief''"
| "endpoint_pattern SessionsCoaching = ''/sessions/{sessionId}/coaching''"
| "endpoint_pattern MetricsGet = ''/users/{userId}/metrics''"
| "endpoint_pattern ProfileGet = ''/users/{userId}/profile''"

fun endpoint_segments :: "endpoint \<Rightarrow> string \<Rightarrow> string list" where
  "endpoint_segments HealthCheck i = ['''', ''health'']"
| "endpoint_segments TradesCreate i = ['''', ''trades'']"
| "endpoint_segments TradesGet i = ['''', ''trades'', i]"
| "endpoint_segments SessionsGet i = ['''', ''sessions'', i]"
| "endpoint_segments SessionsDebrief i = ['''', ''sessions'', i, ''debrief'']"
| "endpoint_segments SessionsCoaching i = ['''', ''sessions'', i, ''coaching'']"
| "endpoint_segments MetricsGet i = ['''', ''users'', i, ''metrics'']"
| "endpoint_segments ProfileGet i = ['''', ''users'', i, ''profile'']"

lemma endpoint_path_segments: "segment i \<Longrightarrow> split_slash (endpoint_path e i) = endpoint_segments e i"
  by (cases e) (simp_all add: segment_def split_slash_segment split_slash_append)

lemma endpoint_pattern_segments:
  "split_slash (endpoint_pattern HealthCheck) = ['''', ''health'']"
  "split_slash (endpoint_pattern TradesCreate) = ['''', ''trades'']"
  "split_slash (endpoint_pattern TradesGet) = ['''', ''trades'', ''{tradeId}'']"
  "split_slash (endpoint_pattern SessionsGet) = ['''', ''sessions'', ''{sessionId}'']"
  "split_slash (endpoint_pattern SessionsDebrief) = ['''', ''sessions'', ''{sessionId}'', ''debrief'']"
  "split_slash (endpoint_pattern SessionsCoaching) = ['''', ''sessions'', ''{sessionId}'', ''coaching'']"
  "split_slash (endpoint_pattern MetricsGet) = ['''', ''users'', ''{userId}'', ''metrics'']"
  "split_slash (endpoint_pattern ProfileGet) = ['''', ''users'', ''{userId}'', ''profile'']"
  by code_simp+

lemma placeholders:
  "is_placeholder ''{tradeId}''" "is_placeholder ''{sessionId}''" "is_placeholder ''{userId}''"
  "\<not> is_placeholder ''''" "\<not> is_placeholder ''health''" "\<not> is_placeholder ''trades''"
  "\<not> is_placeholder ''sessions''" "\<not> is_placeholder ''users''" "\<not> is_placeholder ''debrief''"
  "\<not> is_placeholder ''coaching''" "\<not> is_placeholder ''metrics''" "\<not> is_placeholder ''profile''"
  by code_simp+

lemma endpoint_match:
  "segment i \<Longrightarrow> \<exists>bs. pattern_match (endpoint_pattern e) (endpoint_path e i) = Some bs
     \<and> map_of bs = endpoint_params e i \<and> (\<forall>b \<in> set bs. snd b \<noteq> '''')"
  by (cases e) (simp_all add: pattern_match_def endpoint_path_segments endpoint_pattern_segments placeholders segment_def
      del: endpoint_pattern.simps endpoint_path.simps)

lemma endpoint_no_match:
  "segment i \<Longrightarrow> e \<noteq> e' \<Longrightarrow> pattern_match (endpoint_pattern e') (endpoint_path e i) = None"
  by (cases e; cases e'; simp add: pattern_match_def endpoint_path_segments endpoint_pattern_segments placeholders
      del: endpoint_pattern.simps endpoint_path.simps)

lemma route_table_endpoint:
  "map_of route_table (endpoint_method e, endpoint_pattern e) = Some (e \<noteq> HealthCheck, e)"
  by (cases e) (simp_all add: route_table_def)

lemma route_table_patterns:
  "r \<in> set (map fst route_table) \<Longrightarrow> \<exists>e. r = (endpoint_method e, endpoint_pattern e)"
proof -
  assume "r \<in> set (map fst route_table)"
  moreover have "set (map fst route_table) = (\<lambda>e. (endpoint_method e, endpoint_pattern e)) `
      {HealthCheck, TradesCreate, TradesGet, SessionsGet, SessionsDebrief, SessionsCoaching, MetricsGet, ProfileGet}"
    by (simp add: route_table_def)
  ultimately show ?thesis by blast
qed

lemma route_table_plain: "plain_routes (map fst route_table)"
  by code_simp

section \<open>Properties\<close>

text \<open>The health check leaves the tables alone.\<close>

lemma Health_Check_frame:
  "\<exists>ds. w_db (snd (Health_Check T R now r c w)) = (w_db w)\<lparr>db_deliveries := ds\<rparr>"
  "snd (fst (Health_Check T R now r c w)) = []" "rs_status (fst (fst (Health_Check T R now r c w))) = 200"
proof -
  obtain x w1 where p: "on_db (pg_ping T) w = (x, w1)" by fastforce
  obtain n w2 where q: "getQueueLag R now w1 = (n, w2)" by fastforce
  obtain ds where "snd (pg_ping T (w_db w)) = (w_db w)\<lparr>db_deliveries := ds\<rparr>"
    using pg_send_read [of "\<lambda>s. (Inr (), s)" T "w_db w"] by (auto simp: pg_ping_def)
  then have "w_db w1 = (w_db w)\<lparr>db_deliveries := ds\<rparr>" using on_db_eqD [OF p] by simp
  moreover have "w_db w2 = w_db w1" using q by (auto simp: getQueueLag_def dest: on_redis_eqD split: prod.splits sum.splits)
  ultimately show "\<exists>ds. w_db (snd (Health_Check T R now r c w)) = (w_db w)\<lparr>db_deliveries := ds\<rparr>"
    by (simp add: Health_Check_def p q Let_def exI [of _ ds])
  show "snd (fst (Health_Check T R now r c w)) = []" "rs_status (fst (fst (Health_Check T R now r c w))) = 200"
    by (simp_all add: Health_Check_def p q Let_def StatusOK_def)
qed

text \<open>The request for an endpoint is dispatched to it.\<close>

context chi_library begin

lemma found_endpoint:
  assumes "segment i"
  shows "chi (map fst route_table) (endpoint_method e) (endpoint_path e i) = Found (endpoint_pattern e) (endpoint_params e i)"
proof -
  obtain bs where bs: "pattern_match (endpoint_pattern e) (endpoint_path e i) = Some bs"
    "map_of bs = endpoint_params e i" "\<forall>b \<in> set bs. snd b \<noteq> ''''"
    using endpoint_match [OF assms] by blast
  have reg: "(endpoint_method e, endpoint_pattern e) \<in> set (map fst route_table)"
    using map_of_SomeD [OF route_table_endpoint [of e]] by force
  have other: "pattern_match (snd r) (endpoint_path e i) = None"
    if r: "r \<in> set (map fst route_table)" "snd r \<noteq> endpoint_pattern e" for r
  proof -
    obtain e' where "r = (endpoint_method e', endpoint_pattern e')" using route_table_patterns [OF r(1)] by blast
    with r(2) endpoint_no_match [OF assms, of e e'] show ?thesis by auto
  qed
  have "chi (map fst route_table) (endpoint_method e) (endpoint_path e i) = Found (endpoint_pattern e) (map_of bs)"
    by (rule found_unique [OF route_table_plain reg bs(1,3)]) (rule other)
  then show ?thesis by (simp only: bs(2))
qed

end

text \<open>
  C18: The server sends the request for each of its eight endpoints, at the path that carries the
  identifier, to that endpoint's handler with the identifier as its path parameter: the health
  check as it is, every other one behind the authentication. This holds for every path matcher
  with chi's documented behaviour.
\<close>

theorem serve_dispatch:
  assumes "chi_library (dp_chi d)" "segment i" "rq_method r = endpoint_method e" "rq_path r = endpoint_path e i"
  shows "serve d m r w =
    (if e = HealthCheck then endpoint_handler d m e
     else AuthMiddleware (dp_J d) (mo_now m) (dp_jwtSecret d) (endpoint_handler d m e))
       (r\<lparr>rq_params := endpoint_params e i\<rparr>) (moment_ctx m) w"
  using chi_library.found_endpoint [OF assms(1,2), of e] assms(3,4)
  by (simp add: serve_eq route_handler_def route_table_endpoint)

text \<open>The dependencies of a server on the reference drivers.\<close>

definition ex_deps :: "(mem_redis, dec) deps" where
  "ex_deps = \<lparr>dp_T = ref_pg, dp_D = ref_decimal, dp_R = mem_ops, dp_J = ref_jwt, dp_chi = ref_chi,
     dp_jwtSecret = default_secret, dp_decodeTrade = ex_decode, dp_decodeDebrief = (\<lambda>b. Inl ''EOF''),
     dp_marshalMetrics = (\<lambda>x. ''{}''), dp_marshalProfile = (\<lambda>x. ''{}'')\<rparr>"

definition ex_moment :: moment where
  "ex_moment = \<lparr>mo_now = ex_time, mo_traceID = ''trace-1'', mo_cancelled = (\<lambda>i. False)\<rparr>"

theorem serve_dispatch_witness:
  "fst (serve ex_deps ex_moment (ex_request\<lparr>rq_path := ''/trades/x''\<rparr>) ex_world)
     = (respondAuthError 401 ''UNAUTHORIZED'' ''Missing Authorization header'' ''trace-1'', [])"
proof -
  let ?r = "ex_request\<lparr>rq_path := ''/trades/x''\<rparr>"
  have "chi_library (dp_chi ex_deps)" by (simp add: ex_deps_def ref_chi.chi_library_axioms)
  moreover have "segment ''x''" by (simp add: segment_def)
  moreover have "rq_method ?r = endpoint_method TradesGet" "rq_path ?r = endpoint_path TradesGet ''x''"
    by (simp_all add: ex_request_def)
  ultimately have "serve ex_deps ex_moment ?r ex_world
    = AuthMiddleware (dp_J ex_deps) (mo_now ex_moment) (dp_jwtSecret ex_deps) (endpoint_handler ex_deps ex_moment TradesGet)
        (?r\<lparr>rq_params := endpoint_params TradesGet ''x''\<rparr>) (moment_ctx ex_moment) ex_world"
    by (subst serve_dispatch [where e = TradesGet]) simp_all
  then show ?thesis
    by (simp add: AuthMiddleware_def ex_request_def moment_ctx_def ex_moment_def TraceIDFromContext_def StatusUnauthorized_def Let_def)
qed

text \<open>
  C19: A request without a valid token starts no task and changes no table, whatever its method,
  path and body: unless it is the health check, it is answered 401, 404 or 405 and neither the
  database nor Redis has been asked anything.
\<close>

theorem serve_unauthenticated:
  assumes "\<And>sub. \<not> authenticates (dp_J d) (mo_now m) (dp_jwtSecret d) (rq_authorization r) sub"
  shows "snd (fst (serve d m r w)) = []
    \<and> (\<exists>ds. w_db (snd (serve d m r w)) = (w_db w)\<lparr>db_deliveries := ds\<rparr>)
    \<and> (snd (serve d m r w) = w \<and> rs_status (fst (fst (serve d m r w))) \<in> {401, 404, 405}
       \<or> (\<exists>ps. dp_chi d (map fst route_table) ''GET'' (rq_path r) = Found ''/health'' ps \<and> rq_method r = ''GET''
            \<and> rs_status (fst (fst (serve d m r w))) = 200))"
proof (rule serve_cases [of d m r w])
  fix ps assume h: "rq_method r = ''GET''"
    "dp_chi d (map fst route_table) ''GET'' (rq_path r) = Found ''/health'' ps"
    "serve d m r w = Health_Check (dp_T d) (dp_R d) (mo_now m) (r\<lparr>rq_params := ps\<rparr>) (moment_ctx m) w"
  with Health_Check_frame [of "dp_T d" "dp_R d" "mo_now m" "r\<lparr>rq_params := ps\<rparr>" "moment_ctx m" w]
  show ?thesis by auto
qed (use assms in \<open>auto simp: respondAuthError_def exI [of _ "db_deliveries (w_db w)"]\<close>)

theorem serve_unauthenticated_witness:
  "w_db (snd (serve ex_deps ex_moment (ex_request\<lparr>rq_method := ''POST'', rq_path := ''/trades''\<rparr>) ex_world))
     = w_db ex_world"
proof -
  let ?r = "ex_request\<lparr>rq_method := ''POST'', rq_path := ''/trades''\<rparr>"
  have "\<not> authenticates (dp_J ex_deps) (mo_now ex_moment) (dp_jwtSecret ex_deps) (rq_authorization ?r) sub" for sub
    by (simp add: authenticates_def ex_request_def splitn2_space_def)
  from serve_unauthenticated [OF this, of ex_world] show ?thesis by (auto simp: ex_request_def)
qed

end
