(* ===== verification/Bucket_Scores.thy ===== *)
theory Bucket_Scores
  imports Worker
begin

text \<open>
  What a processed message leaves in the two score columns of its bucket: the rolling plan
  adherence of the user and the tilt index of the session, as the metric functions of package
  \<open>domain\<close> compute them from the ledger.
\<close>

section \<open>The answers of the score queries\<close>

text \<open>What the two score queries answer for a user and a session of the ledger.\<close>

definition latest_ratings :: "pg_types \<Rightarrow> string \<Rightarrow> db \<Rightarrow> int list" where
  "latest_ratings T u s =
     map (\<lambda>r. opt_else 0 (PlanAdherence r)) (take 10 (order_by_exit_desc
       (filter (\<lambda>r. UserID r = u \<and> Status r = ''closed'' \<and> PlanAdherence r \<noteq> None) (pg_scan T (trades s)))))"

definition session_tilt :: "pg_types \<Rightarrow> string \<Rightarrow> db \<Rightarrow> float64" where
  "session_tilt T sid s =
     (case tilt_counts (sort_key EntryAt (filter (\<lambda>r. SessionID r = sid) (pg_scan T (trades s)))) of
        (losses, decided) \<Rightarrow> SessionTiltIndex losses decided)"

lemma ratings_query: "db_up w \<Longrightarrow> pg_uuid T x = Some u \<Longrightarrow>
    on_db (GetLastPlanAdherenceRatings T x 10) w = (Inr (latest_ratings T u (w_db w)), w)"
  by (simp add: on_db_def GetLastPlanAdherenceRatings_def select_by_uuid_def latest_ratings_def)

lemma tilt_query_world: "db_up w \<Longrightarrow> pg_uuid T x = Some sid \<Longrightarrow>
    on_db (GetSessionTiltData T x) w
      = (Inr (tilt_counts (sort_key EntryAt (filter (\<lambda>r. SessionID r = sid) (pg_scan T (trades (w_db w)))))), w)"
  by (simp add: on_db_def GetSessionTiltData_counts)

lemma ledger_trades: "ledger s' = ledger s \<Longrightarrow> trades s' = trades s" by (simp add: ledger_def)

text \<open>Adherence ratings are between 1 and 5, so their mean is, and a tilt is a proportion.\<close>

lemma order_by_exit_desc_set [simp]: "set (order_by_exit_desc rows) = set rows"
  by (auto simp: order_by_exit_desc_def)

context postgres
begin

lemma latest_ratings_range:
  assumes ok: "trades_ok T s" and p: "p \<in> set (latest_ratings T u s)"
  shows "1 \<le> p \<and> p \<le> 5"
proof -
  from p obtain r where r: "r \<in> set (trades s)" "PlanAdherence r \<noteq> None" "p = opt_else 0 (PlanAdherence r)"
    unfolding latest_ratings_def set_map by (auto dest!: in_set_takeD)
  with ok have "trade_check r" by (auto simp: trades_ok_def trade_row_ok_def)
  with r show ?thesis by (auto simp: trade_check_def)
qed

end

lemma session_tilt_between:
  assumes "length (trades s) \<le> 2 ^ 53" "\<And>rows. length (pg_scan T rows) = length rows"
  shows "f64_between 0 1 (session_tilt T sid s)"
proof -
  let ?rows = "sort_key EntryAt (filter (\<lambda>r. SessionID r = sid) (pg_scan T (trades s)))"
  have "length ?rows \<le> length (trades s)" using assms(2) [of "trades s"] length_filter_le by (metis length_sort)
  then have "int (length ?rows) \<le> int (2 ^ 53)" using assms(1) by (simp only: of_nat_le_iff)
  then have "snd (tilt_counts ?rows) \<le> 2 ^ 53" using tilt_counts_bounds(3) [of ?rows] by simp
  then show ?thesis
    unfolding session_tilt_def case_prod_beta
    by (intro SessionTiltIndex_between tilt_counts_bounds)
qed

section \<open>The two score steps\<close>

lemma update_bucket_frame:
  assumes "db_up w"
  shows "db_up (update_bucket T D v w)" "trades (w_db (update_bucket T D v w)) = trades (w_db w)"
    "metrics_inv T (w_db w) \<Longrightarrow> metrics_inv T (w_db (update_bucket T D v w))"
  using assms
  by (simp_all add: update_bucket_def Let_def statements_up ledger_trades [OF UpsertBucket_frame(1)]
      UpsertBucket_metrics_inv message_revenge_def)

lemma tail_metrics:
  "behavioral_metrics (w_db (detect_overtrading T R v (update_emotion T v w))) = behavioral_metrics (w_db w)"
proof -
  have "behavioral_metrics (w_db (update_emotion T v w)) = behavioral_metrics (w_db w)"
    by (simp add: update_emotion_def Let_def frame_simps)
  moreover have "behavioral_metrics (w_db (detect_overtrading T R v w)) = behavioral_metrics (w_db w)" for w
    by (auto simp: detect_overtrading_def Let_def frame_simps dest!: on_redis_eqD split: prod.splits sum.splits)
  ultimately show ?thesis by simp
qed

context backend
begin

lemma score_row:
  assumes "event_row T D v = Some r"
    and "opt_col (pg_numeric5_4 T) a = Some a'" "opt_col (pg_numeric5_4 T) t = Some t'"
  obtains q where "metrics_to_row T D (str v ''userId'') (message_bucket v) 0 0 0 (dec_zero D) a t 0 0 = Some q"
    "metrics_key q = metrics_key r" "m_AvgPlanAdherence q = a'" "m_SessionTiltIndex q = t'"
proof -
  obtain b u where "pg_timestamptz T (message_bucket v) = Some b" "pg_uuid T (str v ''userId'') = Some u"
    "metrics_key r = (b, u)"
    using assms(1) by (auto simp: event_row_def metrics_to_row_def metrics_key_def bind_eq_Some_conv split: if_splits)
  with assms(2,3) show thesis
    by (intro that [of "\<lparr>m_Bucket = b, m_UserID = u, m_TradeCount = 0, m_WinCount = 0, m_LossCount = 0,
          m_TotalPnl = 0, m_AvgPlanAdherence = a', m_SessionTiltIndex = t', m_RevengeCount = 0, m_OvertradingEvents = 0\<rparr>"])
      (simp_all add: metrics_to_row_def metrics_key_def value_zero numeric_zero)
qed

lemma score_step:
  assumes "db_up w" "metrics_inv T (w_db w)" and x: "tbl_lookup metrics_key (metrics_key r) (behavioral_metrics (w_db w)) = Some x"
    and row: "event_row T D v = Some r" "opt_col (pg_numeric5_4 T) a = Some a'" "opt_col (pg_numeric5_4 T) t = Some t'"
  defines "w' \<equiv> snd (on_db (UpsertBucket T D (str v ''userId'') (message_bucket v) 0 0 0 (dec_zero D) a t 0 0) w)"
  shows "\<exists>y. tbl_lookup metrics_key (metrics_key r) (behavioral_metrics (w_db w')) = Some y
      \<and> m_AvgPlanAdherence y = coalesce a' (m_AvgPlanAdherence x) \<and> m_SessionTiltIndex y = coalesce t' (m_SessionTiltIndex x)"
    and "db_up w'" "metrics_inv T (w_db w')" "trades (w_db w') = trades (w_db w)"
proof -
  obtain q where q: "metrics_to_row T D (str v ''userId'') (message_bucket v) 0 0 0 (dec_zero D) a t 0 0 = Some q"
    "metrics_key q = metrics_key r" "m_AvgPlanAdherence q = a'" "m_SessionTiltIndex q = t'"
    using score_row [OF row] .
  show "\<exists>y. tbl_lookup metrics_key (metrics_key r) (behavioral_metrics (w_db w')) = Some y
      \<and> m_AvgPlanAdherence y = coalesce a' (m_AvgPlanAdherence x) \<and> m_SessionTiltIndex y = coalesce t' (m_SessionTiltIndex x)"
    using UpsertBucket_zero_lookup [OF assms(1,2) x q(1,2)] q(3,4) by (simp add: w'_def metrics_merge_def)
  show "db_up w'" "metrics_inv T (w_db w')" "trades (w_db w') = trades (w_db w)"
    using assms(1,2) by (simp_all add: w'_def statements_up UpsertBucket_metrics_inv ledger_trades [OF UpsertBucket_frame(1)])
qed

lemma first_step:
  assumes up: "db_up w" and inv: "metrics_inv T (w_db w)" and row: "event_row T D v = Some r"
    and room: "bucket_room T D (w_db w) (metrics_key r) [v]"
  shows "\<exists>x. tbl_lookup metrics_key (metrics_key r) (behavioral_metrics (w_db (update_bucket T D v w))) = Some x"
proof -
  have "str v ''status'' = ''closed''" using row by (simp add: event_row_def split: if_splits)
  then have w1: "w_db (update_bucket T D v w) = snd (upsert_bucket_row T (Some r) (w_db w))"
    using up row by (simp add: update_bucket_def Let_def UpsertBucket_up event_row_def OutcomeWin_def)
  have "\<bar>bucket_sum m_TotalPnl (w_db w) (metrics_key r)\<bar> + \<bar>m_TotalPnl r\<bar> < 10 ^ 10"
    "bucket_sum m_TradeCount (w_db w) (metrics_key r) + 1 < 2 ^ 31"
    using room row by (simp_all add: bucket_room_def row_sum_def)
  then have "fst (upsert_bucket_row T (Some r) (w_db w)) = Inr ()"
    using event_row_ok [OF row] numeric_idem [OF event_row_ok(3) [OF row]]
    by (intro upsert_bucket_row_done [OF inv]) (simp_all add: abs_triangle_ineq [THEN le_less_trans])
  then have "behavioral_metrics (snd (upsert_bucket_row T (Some r) (w_db w)))
      = tbl_upsert metrics_key metrics_merge r (behavioral_metrics (w_db w))"
    by (auto simp: upsert_bucket_row_def Let_def split: if_splits)
  then show ?thesis by (simp add: w1 metrics_table.lookup_upsert_same)
qed

end

text \<open>A score that is small enough is rounded into the \<open>NUMERIC(5,4)\<close> column.\<close>

context postgres
begin

lemma score_stored:
  assumes "f64_between lo hi x" "- 9 \<le> lo" "hi \<le> 9"
  shows "\<exists>m. pg_numeric5_4 T x = Some m"
proof (cases x)
  case (Fin r)
  have "(of_int lo :: rat) \<ge> of_int (- 9)" "(of_int hi :: rat) \<le> of_int 9"
    using assms(2,3) by (simp_all only: of_int_le_iff)
  moreover have "of_int lo \<le> r" "r \<le> of_int hi" using assms(1) Fin by (simp_all add: f64_between_def)
  moreover have "(of_int 9 :: rat) = 9" "(of_int (- 9) :: rat) = - 9" by simp_all
  ultimately have "\<bar>r\<bar> \<le> 9" by linarith
  then show ?thesis using numeric5_4_round Fin by blast
qed (use assms(1) in \<open>simp_all add: f64_between_def\<close>)

end

context backend
begin

lemma scores_after:
  fixes w :: "'r world"
  assumes up: "db_up w" and inv: "metrics_inv T (w_db w)"
    and ok: "trades_ok T (w_db w)" and len: "length (trades (w_db w)) \<le> 2 ^ 53"
    and row: "event_row T D v = Some r" and room: "bucket_room T D (w_db w) (metrics_key r) [v]"
    and user: "pg_uuid T (str v ''userId'') = Some u" and sid: "pg_uuid T (str v ''sessionId'') = Some sid"
    and fields: "str v ''planAdherence'' \<noteq> ''''" "str v ''sessionId'' \<noteq> ''''"
    and rated: "latest_ratings T u (w_db w) \<noteq> []"
  shows "\<exists>x a t. tbl_lookup metrics_key (metrics_key r) (behavioral_metrics (w_db (snd (processMessage T D R v w)))) = Some x
    \<and> m_AvgPlanAdherence x = Some a \<and> pg_numeric5_4 T (RollingAvg (latest_ratings T u (w_db w))) = Some a
    \<and> m_SessionTiltIndex x = Some t \<and> pg_numeric5_4 T (session_tilt T sid (w_db w)) = Some t"
proof -
  let ?w1 = "update_bucket T D v w"
  let ?w2 = "update_adherence T D v ?w1"
  let ?w3 = "update_tilt T D v ?w2"
  let ?k = "metrics_key r"
  let ?avg = "RollingAvg (latest_ratings T u (w_db w))" and ?tilt = "session_tilt T sid (w_db w)"
  have closed: "str v ''status'' = ''closed''" using row by (simp add: event_row_def split: if_splits)
  note w1 = update_bucket_frame [OF up, of T D v]
  obtain x where x: "tbl_lookup metrics_key ?k (behavioral_metrics (w_db ?w1)) = Some x"
    using first_step [OF up inv row room] by blast
  obtain a where a: "pg_numeric5_4 T ?avg = Some a"
    using score_stored [OF RollingAvg_between [OF rated latest_ratings_range [OF ok, where u = u]]] by auto
  obtain t where t: "pg_numeric5_4 T ?tilt = Some t"
    using score_stored [OF session_tilt_between [OF len scan_length]] by auto
  have same: "latest_ratings T u s = latest_ratings T u s'" "session_tilt T sid s = session_tilt T sid s'"
    if "trades s = trades s'" for s s'
    by (simp_all add: latest_ratings_def session_tilt_def that)
  have w2: "?w2 = snd (on_db (UpsertBucket T D (str v ''userId'') (message_bucket v)
      0 0 0 (dec_zero D) (Some ?avg) None 0 0) ?w1)"
    using ratings_query [OF w1(1) user] rated fields(1)
    by (simp add: update_adherence_def same(1) [OF w1(2)])
  note s2 = score_step [OF w1(1) w1(3) [OF inv] x row, of "Some ?avg" "Some a" None None, folded w2]
  obtain y where y: "tbl_lookup metrics_key ?k (behavioral_metrics (w_db ?w2)) = Some y" "m_AvgPlanAdherence y = Some a"
    using s2(1) a by (auto simp: opt_col_def)
  have s2: "db_up ?w2" "metrics_inv T (w_db ?w2)" "trades (w_db ?w2) = trades (w_db w)"
    using s2(2-4) a w1(2) by (simp_all add: opt_col_def)
  have w3: "?w3 = snd (on_db (UpsertBucket T D (str v ''userId'') (message_bucket v)
      0 0 0 (dec_zero D) None (Some ?tilt) 0 0) ?w2)"
    using tilt_query_world [OF s2(1) sid] fields(2)
    by (simp add: update_tilt_def session_tilt_def s2(3) case_prod_beta)
  have "\<exists>z. tbl_lookup metrics_key ?k (behavioral_metrics (w_db ?w3)) = Some z
      \<and> m_AvgPlanAdherence z = Some a \<and> m_SessionTiltIndex z = Some t"
    using score_step(1) [OF s2(1,2) y(1) row, of None None "Some ?tilt" "Some t", folded w3] t y(2)
    by (simp add: opt_col_def)
  with a t closed show ?thesis by (simp add: processMessage_eq tail_metrics)
qed

end

section \<open>The scores after a message\<close>

text \<open>
  C25: After a closed trade's message with a plan rating and a session has been processed on a
  connection that stays up, the bucket of its user and hour holds the plan adherence
  \<open>RollingAvg\<close> of the user's latest rated closed trades and the \<open>SessionTiltIndex\<close> of
  the session's decided trades, both rounded to the four decimals of the column; neither is null.
  (Stated for tables that satisfy their invariants, room in the columns of the bucket, and a user
  with at least one rated closed trade.)
\<close>

theorem processMessage_scores:
  fixes w :: "'r world"
  assumes pg: "postgres T" and dec: "decimal D" and up: "db_up w" and inv: "metrics_inv T (w_db w)"
    and ok: "trades_ok T (w_db w)" and len: "length (trades (w_db w)) \<le> 2 ^ 53"
    and row: "event_row T D v = Some r" and room: "bucket_room T D (w_db w) (metrics_key r) [v]"
    and user: "pg_uuid T (str v ''userId'') = Some u" and sid: "pg_uuid T (str v ''sessionId'') = Some sid"
    and fields: "str v ''planAdherence'' \<noteq> ''''" "str v ''sessionId'' \<noteq> ''''"
    and rated: "latest_ratings T u (w_db w) \<noteq> []"
  shows "\<exists>x a t. tbl_lookup metrics_key (metrics_key r) (behavioral_metrics (w_db (snd (processMessage T D R v w)))) = Some x
    \<and> m_AvgPlanAdherence x = Some a \<and> pg_numeric5_4 T (RollingAvg (latest_ratings T u (w_db w))) = Some a
    \<and> m_SessionTiltIndex x = Some t \<and> pg_numeric5_4 T (session_tilt T sid (w_db w)) = Some t"
  by (rule backend.scores_after [OF backend.intro [OF pg dec] up inv ok len row room user sid fields rated])

theorem processMessage_scores_witness:
  "\<exists>x. tbl_lookup metrics_key (ex_time - 900 * second, alice)
        (behavioral_metrics (w_db (snd (processMessage ref_pg ref_decimal mem_ops ex_loss ex_traded)))) = Some x
     \<and> m_AvgPlanAdherence x = Some 2 \<and> m_SessionTiltIndex x = Some 0"
proof -
  let ?k = "(ex_time - 900 * second, alice)"
  obtain r where r: "event_row ref_pg ref_decimal ex_loss = Some r" "metrics_key r = ?k"
  proof -
    have "map_option metrics_key (event_row ref_pg ref_decimal ex_loss) = Some ?k" by code_simp
    with that show thesis by auto
  qed
  have up: "db_up ex_traded" and inv: "metrics_inv ref_pg (w_db ex_traded)"
    by (simp_all add: ex_traded_def ex_defs metrics_inv_def metrics_ok_def)
  have ok: "trades_ok ref_pg (w_db ex_traded)" by code_simp
  have len: "length (trades (w_db ex_traded)) \<le> 2 ^ 53" by (simp add: ex_traded_def)
  have room: "bucket_room ref_pg ref_decimal (w_db ex_traded) (metrics_key r) [ex_loss]" unfolding r(2) by code_simp
  have ids: "pg_uuid ref_pg (str ex_loss ''userId'') = Some alice" "pg_uuid ref_pg (str ex_loss ''sessionId'') = Some alice_session"
    by code_simp+
  have fields: "str ex_loss ''planAdherence'' \<noteq> ''''" "str ex_loss ''sessionId'' \<noteq> ''''" by code_simp+
  have rated: "latest_ratings ref_pg alice (w_db ex_traded) = [2]" by code_simp
  have scores: "pg_numeric5_4 ref_pg (RollingAvg [2]) = Some 2"
    "pg_numeric5_4 ref_pg (session_tilt ref_pg alice_session (w_db ex_traded)) = Some 0" by code_simp+
  have "latest_ratings ref_pg alice (w_db ex_traded) \<noteq> []" by (simp add: rated)
  from processMessage_scores [OF ref_pg.postgres_axioms ref.decimal_axioms up inv ok len r(1) room ids fields this, of mem_ops]
  show ?thesis by (simp add: r(2) rated scores)
qed

end
