(* ===== verification/Score_Range.thy ===== *)
theory Score_Range
  imports Bucket_Scores Metrics_Handler
begin

text \<open>
  The ranges of the scores, from the ledger to the answer of the API: every stored plan adherence
  lies between 1 and 5 and every stored tilt index between 0 and 1, whatever messages arrive and
  whichever statements fail, and the averages the metrics handler computes stay in the ranges.
\<close>

section \<open>The invariant of the score columns\<close>

definition score_ok :: "metrics_row \<Rightarrow> bool" where
  "score_ok r \<longleftrightarrow> \<not> ptr_and (m_AvgPlanAdherence r) (\<lambda>a. \<not> (1 \<le> a \<and> a \<le> 5))
     \<and> \<not> ptr_and (m_SessionTiltIndex r) (\<lambda>t. \<not> (0 \<le> t \<and> t \<le> 1))"

definition scores_ok :: "db \<Rightarrow> bool" where
  "scores_ok s \<longleftrightarrow> list_all score_ok (behavioral_metrics s)"

lemma scores_ok_cong: "behavioral_metrics s' = behavioral_metrics s \<Longrightarrow> scores_ok s' = scores_ok s"
  by (simp add: scores_ok_def)

lemma scores_ok_deliveries [simp]: "scores_ok (s\<lparr>db_deliveries := ds\<rparr>) = scores_ok s"
  by (simp add: scores_ok_def)

lemma score_ok_merge: "score_ok x \<Longrightarrow> score_ok r \<Longrightarrow> score_ok (metrics_merge x r)"
  by (auto simp: score_ok_def metrics_merge_def coalesce_def split: option.splits)

lemma scores_ok_upsert:
  assumes "scores_ok s" "\<And>r. row = Some r \<Longrightarrow> score_ok r"
  shows "scores_ok (snd (upsert_bucket_row T row s))"
proof (cases row)
  case (Some r)
  have "score_ok x" if "x \<in> set (tbl_upsert metrics_key metrics_merge r (behavioral_metrics s))" for x
    using subsetD [OF set_tbl_upsert that] assms Some score_ok_merge
    by (auto simp: scores_ok_def list_all_iff)
  then show ?thesis
    using assms(1) by (simp add: upsert_bucket_row_def Some Let_def scores_ok_def list_all_iff)
qed (use assms in \<open>simp add: upsert_bucket_row_def\<close>)

text \<open>The scores that the worker passes to the store.\<close>

definition score_args :: "float64 option \<Rightarrow> float64 option \<Rightarrow> bool" where
  "score_args a t \<longleftrightarrow> \<not> ptr_and a (\<lambda>v. \<not> f64_between 1 5 v) \<and> \<not> ptr_and t (\<lambda>v. \<not> f64_between 0 1 v)"

context postgres
begin

lemma stored_score:
  assumes "opt_col (pg_numeric5_4 T) a = Some a'" "\<not> ptr_and a (\<lambda>v. \<not> f64_between lo hi v)" "- 9 \<le> lo" "hi \<le> 9"
  shows "\<not> ptr_and a' (\<lambda>m. \<not> (of_int lo \<le> m \<and> m \<le> of_int hi))"
proof (cases a')
  case (Some m)
  then obtain v where v: "a = Some v" "pg_numeric5_4 T v = Some m" using opt_col_Some [OF assms(1)] by auto
  with assms(2) obtain r where "v = Fin r" "of_int lo \<le> r" "r \<le> of_int hi"
    by (cases v) (auto simp: f64_between_def)
  with numeric5_4_between [of lo r hi m] v assms(3,4) Some show ?thesis by simp
qed simp

lemma UpsertBucket_scores_ok:
  assumes "scores_ok s" "score_args a t"
  shows "scores_ok (snd (UpsertBucket T D u b tc wc lc p a t rc oc s))"
  unfolding UpsertBucket_def
proof (rule pg_send_preserves [where P = scores_ok])
  fix s' assume "scores_ok s'"
  moreover have "score_ok r" if row: "metrics_to_row T D u b tc wc lc p a t rc oc = Some r" for r
  proof -
    have "opt_col (pg_numeric5_4 T) a = Some (m_AvgPlanAdherence r)" "opt_col (pg_numeric5_4 T) t = Some (m_SessionTiltIndex r)"
      using row by (auto simp: metrics_to_row_def bind_eq_Some_conv)
    with stored_score [of a _ 1 5] stored_score [of t _ 0 1] assms(2) show ?thesis
      by (simp add: score_ok_def score_args_def)
  qed
  ultimately show "scores_ok (snd (upsert_bucket_row T (metrics_to_row T D u b tc wc lc p a t rc oc) s'))"
    by (intro scores_ok_upsert)
qed (use assms in simp_all)

text \<open>What the two score queries can answer, on a connection that may fail.\<close>

lemma ratings_answer:
  assumes "trades_ok T s" "GetLastPlanAdherenceRatings T x 10 s = (Inr ratings, s')" "0 < length ratings"
  shows "f64_between 1 5 (RollingAvg ratings)"
proof -
  let ?q = "select_by_uuid T x (\<lambda>u rows. map (\<lambda>r. opt_else 0 (PlanAdherence r)) (take 10 (order_by_exit_desc
      (filter (\<lambda>r. UserID r = u \<and> Status r = ''closed'' \<and> PlanAdherence r \<noteq> None) rows))))"
  obtain ds where "?q (s\<lparr>db_deliveries := ds\<rparr>) = (Inr ratings, s')"
    using assms(2) unfolding GetLastPlanAdherenceRatings_def by (rule pg_send_InrE)
  then obtain u where "ratings = latest_ratings T u s"
    by (auto simp: select_by_uuid_def latest_ratings_def split: option.splits)
  then show ?thesis
    using assms(3) latest_ratings_range [OF assms(1), of _ u] by (intro RollingAvg_between) auto
qed

lemma tilt_answer:
  assumes "length (trades s) \<le> 2 ^ 53" "GetSessionTiltData T x s = (Inr (l, n), s')"
  shows "f64_between 0 1 (SessionTiltIndex l n)"
proof -
  let ?q = "select_by_uuid T x (\<lambda>u rows. tilt_counts (sort_key EntryAt (filter (\<lambda>r. SessionID r = u) rows)))"
  obtain ds where "?q (s\<lparr>db_deliveries := ds\<rparr>) = (Inr (l, n), s')"
    using assms(2) unfolding GetSessionTiltData_def tilt_query by (rule pg_send_InrE)
  then obtain u where "tilt_counts (sort_key EntryAt (filter (\<lambda>r. SessionID r = u) (pg_scan T (trades s)))) = (l, n)"
    by (auto simp: select_by_uuid_def split: option.splits)
  then have "SessionTiltIndex l n = session_tilt T u s" by (simp add: session_tilt_def)
  then show ?thesis using session_tilt_between [OF assms(1) scan_length] by simp
qed

lemma update_scores_ok:
  fixes w :: "'r world"
  assumes "trades_ok T (w_db w)" "length (trades (w_db w)) \<le> 2 ^ 53" "scores_ok (w_db w)"
  shows "scores_ok (w_db (update_bucket T D v w))" "scores_ok (w_db (update_adherence T D v w))"
    "scores_ok (w_db (update_tilt T D v w))" "scores_ok (w_db (update_emotion T v w))"
    "scores_ok (w_db (detect_overtrading T R v w))"
proof -
  show "scores_ok (w_db (update_bucket T D v w))"
    by (simp add: update_bucket_def Let_def UpsertBucket_scores_ok assms(3) score_args_def)
  show "scores_ok (w_db (update_adherence T D v w))"
  proof (cases "on_db (GetLastPlanAdherenceRatings T (str v ''userId'') 10) w")
    case (Pair r w1)
    have w1: "scores_ok (w_db w1)"
      using on_db_eqD [OF Pair] pipeline_reads_frame(1) [where V = scores_ok, of T "str v ''userId''" 10 "w_db w"] assms(3) by simp
    show ?thesis
    proof (cases r)
      case (Inr ratings)
      have ans: "GetLastPlanAdherenceRatings T (str v ''userId'') 10 (w_db w) = (Inr ratings, w_db w1)"
        using on_db_eqD [OF Pair] Inr by simp
      have "score_args (Some (RollingAvg ratings)) None" if "0 < length ratings"
        using ratings_answer [OF assms(1) ans that] by (simp add: score_args_def)
      then show ?thesis
        using Pair Inr w1 assms(3) by (auto simp: update_adherence_def UpsertBucket_scores_ok)
    qed (use Pair w1 assms(3) in \<open>simp add: update_adherence_def\<close>)
  qed
  show "scores_ok (w_db (update_tilt T D v w))"
  proof (cases "on_db (GetSessionTiltData T (str v ''sessionId'')) w")
    case (Pair r w1)
    have w1: "scores_ok (w_db w1)"
      using on_db_eqD [OF Pair] pipeline_reads_frame(2) [where V = scores_ok, of T "str v ''sessionId''" "w_db w"] assms(3) by simp
    show ?thesis
    proof (cases r)
      case (Inr ln)
      obtain l n where ln: "ln = (l, n)" by fastforce
      have ans: "GetSessionTiltData T (str v ''sessionId'') (w_db w) = (Inr (l, n), w_db w1)"
        using on_db_eqD [OF Pair] Inr ln by simp
      have "score_args None (Some (SessionTiltIndex l n))"
        using tilt_answer [OF assms(2) ans] by (simp add: score_args_def)
      then show ?thesis
        using Pair Inr ln w1 assms(3) by (simp add: update_tilt_def UpsertBucket_scores_ok)
    qed (use Pair w1 assms(3) in \<open>simp add: update_tilt_def\<close>)
  qed
  have "scores_ok (w_db (detect_overtrading T R v (update_emotion T v w)))"
    using assms(3) by (rule scores_ok_cong [OF tail_metrics, THEN iffD2])
  show "scores_ok (w_db (update_emotion T v w))"
    using assms(3) by (simp add: update_emotion_def Let_def scores_ok_cong [OF UpsertEmotionWinRate_frame(2)])
  show "scores_ok (w_db (detect_overtrading T R v w))"
    using assms(3) by (auto simp: detect_overtrading_def Let_def scores_ok_cong [OF InsertOvertradingEvent_frame(2)]
        dest!: on_redis_eqD split: prod.splits sum.splits)
qed

text \<open>The steps leave the ledger alone.\<close>

lemma update_ledger:
  "ledger (w_db (update_bucket T D v w)) = ledger (w_db w)" "ledger (w_db (update_adherence T D v w)) = ledger (w_db w)"
  "ledger (w_db (update_tilt T D v w)) = ledger (w_db w)" "ledger (w_db (update_emotion T v w)) = ledger (w_db w)"
proof -
  note reads = pipeline_reads_frame [where V = ledger, OF ledger_deliveries]
  show "ledger (w_db (update_bucket T D v w)) = ledger (w_db w)" "ledger (w_db (update_emotion T v w)) = ledger (w_db w)"
    by (simp_all add: update_bucket_def update_emotion_def Let_def frame_simps)
  show "ledger (w_db (update_adherence T D v w)) = ledger (w_db w)"
    by (auto simp: update_adherence_def frame_simps reads dest!: on_db_eqD split: prod.splits sum.splits)
      (metis reads(1) snd_conv)+
  show "ledger (w_db (update_tilt T D v w)) = ledger (w_db w)"
    by (auto simp: update_tilt_def frame_simps reads dest!: on_db_eqD split: prod.splits sum.splits)
      (metis reads(2) snd_conv)+
qed

end

text \<open>The ledger of a good table of trades.\<close>

lemma trades_ok_ledger: "ledger s' = ledger s \<Longrightarrow> trades_ok T s' = trades_ok T s"
  by (simp add: ledger_def trades_ok_def trade_row_ok_def trade_fk_def)

lemma processMessage_scores_ok:
  fixes w :: "'r world"
  assumes "postgres T" "trades_ok T (w_db w)" "length (trades (w_db w)) \<le> 2 ^ 53" "scores_ok (w_db w)"
  shows "scores_ok (w_db (snd (processMessage T D R v w)))"
proof -
  note led = postgres.update_ledger [OF assms(1)]
  note step = postgres.update_scores_ok [OF assms(1)]
  let ?P = "\<lambda>w :: 'r world. trades_ok T (w_db w) \<and> length (trades (w_db w)) \<le> 2 ^ 53 \<and> scores_ok (w_db w)"
  have 1: "?P (update_bucket T D v w)" if "?P w" for w
    using that by (simp add: step(1) trades_ok_ledger [OF led(1)] ledger_trades [OF led(1)])
  have 2: "?P (update_adherence T D v w)" if "?P w" for w
    using that by (simp add: step(2) trades_ok_ledger [OF led(2)] ledger_trades [OF led(2)])
  have 3: "?P (update_tilt T D v w)" if "?P w" for w
    using that by (simp add: step(3) trades_ok_ledger [OF led(3)] ledger_trades [OF led(3)])
  have 4: "?P (update_emotion T v w)" if "?P w" for w
    using that by (simp add: step(4) trades_ok_ledger [OF led(4)] ledger_trades [OF led(4)])
  have "?P w" using assms(2-4) by blast
  then have "?P (update_emotion T v (update_tilt T D v (update_adherence T D v (update_bucket T D v w))))"
    by (intro 1 2 3 4)
  then have "scores_ok (w_db (detect_overtrading T R v
      (update_emotion T v (update_tilt T D v (update_adherence T D v (update_bucket T D v w))))))"
    by (elim conjE) (rule step(5))
  with assms(4) show ?thesis by (simp add: processMessage_eq)
qed

section \<open>The scores of an answer\<close>



definition mb_scores_ok :: "'d MetricsBucket \<Rightarrow> bool" where
  "mb_scores_ok b \<longleftrightarrow> score_args (mb_AvgPlanAdherence b) (mb_SessionTiltIndex b)"



context postgres
begin

lemma sql_avg_between:
  assumes "\<And>x. x \<in> set xs \<Longrightarrow> \<not> ptr_and x (\<lambda>m. \<not> (of_int lo \<le> m \<and> m \<le> of_int hi))" "\<bar>lo\<bar> \<le> 2 ^ 53" "\<bar>hi\<bar> \<le> 2 ^ 53"
  shows "\<not> ptr_and (sql_avg T xs) (\<lambda>v. \<not> f64_between lo hi v)"
proof -
  let ?vs = "map (opt_else 0) (filter (\<lambda>x. x \<noteq> None) xs)"
  have "of_int lo \<le> v \<and> v \<le> of_int hi" if "v \<in> set ?vs" for v using that assms(1) by fastforce
  then have "f64_between lo hi (pg_float8 T (pg_avg T ?vs))" if "?vs \<noteq> []"
    using avg_between [OF that, of lo hi] assms(2,3) unfolding float8_nearest by (intro f64_of_rat_between(1)) auto
  then show ?thesis by (simp add: sql_avg_def Let_def)
qed

lemma range_groups_scores:
  assumes "\<forall>r \<in> set rows. score_ok r"
  shows "list_all mb_scores_ok (range_groups T D i rows)"
proof -
  have "mb_scores_ok (bucket_group T D b (filter P rows))" for b P
    using sql_avg_between [of "map m_AvgPlanAdherence (filter P rows)" 1 5]
      sql_avg_between [of "map m_SessionTiltIndex (filter P rows)" 0 1] assms
    by (auto simp: mb_scores_ok_def score_args_def bucket_group_def score_ok_def)
  then show ?thesis by (simp add: range_groups_def list_all_iff)
qed

end




end
