(* ===== verification/Event_Flow.thy ===== *)
theory Event_Flow
  imports Trade_Handler Bucket_Scores
begin

text \<open>
  How the parts interact over Redis: a stored trade becomes an event of the stream that the
  worker reads back, and the exit of a losing trade becomes the last-loss key that the revenge
  check of the user's next trade reads.
\<close>

section \<open>The event as the worker reads it\<close>

text \<open>The values of a stream entry after the client wrote them and the worker's client read them.\<close>

definition received :: "'d decimal_ops \<Rightarrow> 'd Trade \<Rightarrow> string strmap" where
  "received D t = (\<lambda>k. map_option arg_string (event_data D t k))"

lemma received_fields:
  "str (received D t) ''tradeId'' = TradeID t" "str (received D t) ''userId'' = UserID t"
  "str (received D t) ''sessionId'' = SessionID t" "str (received D t) ''status'' = Status t"
  "str (received D t) ''outcome'' = opt_else [] (Outcome t)"
  "str (received D t) ''pnl'' = opt_else [] (map_option (dec_string D) (PnL t))"
  "str (received D t) ''emotionalState'' = opt_else [] (EmotionalState t)"
  "str (received D t) ''planAdherence'' = opt_else [] (map_option itoa (PlanAdherence t))"
  "str (received D t) ''entryAt'' = format_rfc3339 (EntryAt t)"
  "str (received D t) ''revengeFlag'' = (if RevengeFlag t then ''1'' else ''0'')"
  by (simp_all add: received_def str_def event_data_def map_add_def option.map_comp comp_def opt_else_def
      split: option.splits)

lemma received_entry_at:
  "rfc3339_range (EntryAt t) \<Longrightarrow> message_entry_at (received D t) = EntryAt t - EntryAt t mod second"
  by (simp add: message_entry_at_def received_fields parse_format_rfc3339)

lemma received_bucket:
  "rfc3339_range (EntryAt t) \<Longrightarrow> message_bucket (received D t) = time_truncate (EntryAt t) hour"
  using time_truncate_second [of 3600 "EntryAt t"]
  by (simp add: message_bucket_def received_entry_at hour_def minute_def)

lemma received_revenge: "message_revenge (received D t) = (if RevengeFlag t then 1 else 0)"
  by (simp add: message_revenge_def received_fields)

context decimal
begin

lemma received_pnl:
  "dec_value D (message_pnl D (received D t)) = opt_else 0 (map_option (dec_value D) (PnL t))"
proof (cases "PnL t")
  case (Some p)
  from of_string_string [of p] obtain x where "dec_of_string D (dec_string D p) = Some x" "dec_value D x = dec_value D p"
    by auto
  with Some string_nonempty [of p] show ?thesis by (simp add: message_pnl_def received_fields Let_def)
qed (simp add: message_pnl_def received_fields value_zero)

end

text \<open>
  The event that POST publishes means to the worker what the stored trade says: the row that it
  adds to the bucket of the received event is the row of the trade itself, in the hour of its
  entry time and with its own P\&L, outcome and revenge flag.
\<close>

lemma event_row_of_trade:
  assumes "decimal D" and "rfc3339_range (EntryAt t)"
  shows "event_row T D (received D t) =
    (if Status t = ''closed''
     then metrics_to_row T D (UserID t) (time_truncate (EntryAt t) hour) 1
            (if Outcome t = Some ''win'' then 1 else 0) (if Outcome t = Some ''win'' then 0 else 1)
            (opt_else (dec_zero D) (PnL t)) None None (if RevengeFlag t then 1 else 0) 0
     else None)"
proof -
  have "dec_value D (message_pnl D (received D t)) = dec_value D (opt_else (dec_zero D) (PnL t))"
    using decimal.received_pnl [OF assms(1), of t] decimal.value_zero [OF assms(1)] by (cases "PnL t") simp_all
  moreover have "opt_else [] (Outcome t) = ''win'' \<longleftrightarrow> Outcome t = Some ''win''" by (cases "Outcome t") simp_all
  ultimately show ?thesis
    by (simp add: event_row_def received_fields received_bucket [OF assms(2)] received_revenge metrics_to_row_def)
qed

section \<open>From a recorded loss to the revenge flag\<close>

text \<open>
  C21: After the last-loss task of a user's trade that closed at \<open>x\<close> has written its key, and as
  long as no other write changed it, the revenge check flags the user's next trade if and only
  if less than 90 seconds of server time have passed since the write, the trade was entered at
  or less than 90 seconds after the (whole) second of that exit, and its emotion is anxious or
  fearful.
\<close>

theorem revenge_after_loss:
  fixes w :: "'r world"
  assumes "redis_keys R kv clock"
    and loss: "run_task R (SetLastLossTask (UserID t) (unix x)) w = w1"
      "fst (on_redis (SetLastLoss R (UserID t) (unix x)) w) = Inr u"
    and keep: "kv (w_redis w2) = kv (w_redis w1)"
    and read: "fst (on_redis (GetLastLoss R (UserID t)) w2) = Inr n"
    and x: "0 < unix x" "unix x \<le> max_int64" and t: "EmotionalState t = Some e" "\<not> RevengeFlag t"
  shows "RevengeFlag (fst (check_revenge R t w2)) \<longleftrightarrow>
    clock (w_redis w2) < clock (w_redis w) + 90 * second
    \<and> unix x * second \<le> EntryAt t \<and> EntryAt t < unix x * second + 90 * second
    \<and> e \<in> {''anxious'', ''fearful''}"
proof -
  have set: "SetLastLoss R (UserID t) (unix x) (w_redis w) = (Inr u, w_redis w1)"
    using loss by (simp add: prod_eq_iff) (metis on_redis_simps(2) run_task.simps(1))
  obtain w3 where l: "on_redis (GetLastLoss R (UserID t)) w2 = (Inr n, w3)"
    using read by (metis prod.collapse)
  have "n = (if clock (w_redis w2) < clock (w_redis w) + 90 * second then unix x else 0)"
    using redis_keys.GetLastLoss_after_set [OF assms(1) set keep] on_redis_eqD [OF l] x
    by (simp add: min_int64_def)
  then show ?thesis
    using t l x by (auto simp: check_revenge_def IsRevenge_iff time_unix_def)
qed

definition ex_anxious :: "dec Trade" where
  "ex_anxious = (scanTrade ref_decimal ex_trade)\<lparr>EntryAt := ex_time + 630 * second\<rparr>"

theorem revenge_after_loss_witness:
  "RevengeFlag (fst (check_revenge mem_ops ex_anxious
     (run_task mem_ops (SetLastLossTask alice (unix (ex_time + 600 * second))) ex_world)))"
proof -
  let ?x = "ex_time + 600 * second"
  let ?w1 = "run_task mem_ops (SetLastLossTask (UserID ex_anxious) (unix ?x)) ex_world"
  have u: "unix ?x = 1736159100" by (simp add: unix_def ex_time_def second_def)
  have user: "UserID ex_anxious = alice" by (simp add: ex_anxious_def ex_trade_def)
  have set: "fst (on_redis (SetLastLoss mem_ops (UserID ex_anxious) (unix ?x)) ex_world) = Inr ()"
    by (simp add: SetLastLoss_def mem_ops_def mr_send_def ex_defs)
  have clk: "mr_clock (w_redis ?w1) = ex_time"
    by (simp add: SetLastLoss_def mem_ops_def mr_send_def ex_defs)
  have "GetLastLoss mem_ops alice (w_redis ?w1) = (Inr 1736159100, w_redis ?w1)"
    by (simp add: user unix_def GetLastLoss_def SetLastLoss_def mem_ops_def mr_send_def ex_defs live_value_def mem_kv_def
        parse_int64_itoa min_int64_def max_int64_def second_def)
  then have "fst (on_redis (GetLastLoss mem_ops (UserID ex_anxious)) ?w1) = Inr 1736159100"
    by (simp add: user)
  from revenge_after_loss [OF mem.redis_keys_axioms refl set refl this, of "''anxious''"] u clk
  show ?thesis
    by (simp add: user) (simp add: ex_anxious_def ex_trade_def ex_world_def mem_init_def ex_time_def second_def max_int64_def)
qed

end
