(* ===== verification/System.thy ===== *)
theory System
  imports Router Score_Range Event_Flow
begin

text \<open>
  The system: what a request can do to the tables, and the interleaving of requests, their
  goroutines, the worker, failures and the passing of time as a step relation, with the
  invariants of the reachable states.
\<close>

section \<open>What a request can write\<close>

text \<open>Nothing but the fault script has changed in the database.\<close>

definition same_tables :: "'r world \<Rightarrow> 'r world \<Rightarrow> bool" where
  "same_tables w w' \<longleftrightarrow> (\<exists>ds. w_db w' = (w_db w)\<lparr>db_deliveries := ds\<rparr>)"

lemma same_tables_refl [simp]: "same_tables w w"
  unfolding same_tables_def by (intro exI [of _ "db_deliveries (w_db w)"]) simp

lemma same_tables_trans: "same_tables w w1 \<Longrightarrow> same_tables w1 w2 \<Longrightarrow> same_tables w w2"
  by (auto simp: same_tables_def)

lemma same_tables_db: "w_db w' = w_db w \<Longrightarrow> same_tables w w'"
  unfolding same_tables_def by (intro exI [of _ "db_deliveries (w_db w)"]) simp

lemma on_redis_same: "on_redis c w = (r, w') \<Longrightarrow> same_tables w w'"
  by (rule same_tables_db) (simp add: on_redis_eqD)

lemma on_db_same: "(\<And>s. \<exists>ds. snd (q s) = s\<lparr>db_deliveries := ds\<rparr>) \<Longrightarrow> on_db q w = (r, w') \<Longrightarrow> same_tables w w'"
  unfolding same_tables_def by (metis on_db_eqD snd_conv)

lemma GetWithTrades_state: "\<exists>ds. snd (GetWithTrades T D x s) = s\<lparr>db_deliveries := ds\<rparr>"
proof -
  obtain r s1 where g: "GetSession T x s = (r, s1)" by fastforce
  then obtain d1 where d1: "s1 = s\<lparr>db_deliveries := d1\<rparr>" using GetSession_state [of T x s] by auto
  obtain r2 s2 where l: "ListBySession T D x s1 = (r2, s2)" by fastforce
  then obtain d2 where "s2 = s1\<lparr>db_deliveries := d2\<rparr>" using query_frame(1) [of T D x s1] by auto
  with g l d1 show ?thesis by (auto simp: GetWithTrades_def split: sum.splits)
qed

lemma reads_same:
  "same_tables w (snd (Trade_Get T D r c w))"
  "same_tables w (snd (Session_Get T D r c w))"
  "same_tables w (snd (Session_Coaching T cancelled flusher r c w))"
proof -
  obtain x w1 where g: "on_db (GetByID T D (URLParam r ''tradeId'')) w = (x, w1)" by fastforce
  from on_db_same [OF GetByID_frame this] g show "same_tables w (snd (Trade_Get T D r c w))"
    by (simp add: Trade_Get_def split: sum.splits)
  obtain y w2 where s: "on_db (GetWithTrades T D (URLParam r ''sessionId'')) w = (y, w2)" by fastforce
  from on_db_same [OF GetWithTrades_state this] s show "same_tables w (snd (Session_Get T D r c w))"
    by (simp add: Session_Get_def split: sum.splits)
  obtain z w3 where c: "on_db (GetSession T (URLParam r ''sessionId'')) w = (z, w3)" by fastforce
  from on_db_same [OF GetSession_state this] c show "same_tables w (snd (Session_Coaching T cancelled flusher r c w))"
    by (simp add: Session_Coaching_def split: sum.splits)
qed

lemma Metrics_Get_same: "same_tables w (snd (Metrics_Get T D R marshal r c w))"
proof -
  have q: "same_tables w1 w2" if "query_metrics T D u p w1 = (y, w2)" for u p y and w1 w2 :: "'a world"
    using query_metrics_frame(1) [of T D u p w1] that by (simp add: same_tables_def)
  show ?thesis
    by (rule Metrics_Get_cases [of r c T D R marshal w])
      (auto dest: q on_redis_same intro: same_tables_trans)
qed

lemma Profile_Get_same:
  fixes w :: "'r world"
  shows "same_tables w (snd (Profile_Get T R marshal now r c w :: ('d response \<times> task list) \<times> 'r world))"
proof -
  have b: "same_tables w1 w2" if "build_profile T now u w1 = (y, w2)" for u y and w1 w2 :: "'r world"
    using build_profile_frame [of T now u w1] that by (auto simp: same_tables_def)
  have s: "same_tables w1 (snd (on_redis q w1))" for q :: "('r, unit) rcmd" and w1
    by (rule same_tables_db) simp
  note frames = b on_redis_same on_db_same [OF User_GetByID_state]
  show ?thesis
  proof (rule Profile_Get_cases [of r c T R marshal now w, where 'd = 'd], goal_cases)
    case (3 x w1 e w2)
    with frames(2) [OF 3(2)] frames(3) [OF 3(3)] show ?case by (auto intro: same_tables_trans)
  next
    case (4 x w1 us w2 pr w3)
    have "same_tables w w3"
      using frames(2) [OF 4(2)] frames(3) [OF 4(4)] b [OF 4(5)] by (blast intro: same_tables_trans)
    with 4(6) s show ?case by (auto intro: same_tables_trans)
  qed (auto dest: on_redis_same)
qed

text \<open>The rows a subject may add.\<close>

definition adds_trade :: "pg_types \<Rightarrow> 'd decimal_ops \<Rightarrow> string \<Rightarrow> db \<Rightarrow> rat Trade \<Rightarrow> bool" where
  "adds_trade T D sub s row \<longleftrightarrow> pg_uuid T sub = Some (UserID row) \<and> (\<exists>t. inserts_row T D t s row)"

definition adds_debrief :: "string \<Rightarrow> db \<Rightarrow> debrief_row \<Rightarrow> bool" where
  "adds_debrief sub s row \<longleftrightarrow>
     ptr_and (tbl_lookup s_SessionID (db_SessionID row) (sessions s)) (\<lambda>se. s_UserID se = sub)
     \<and> debrief_check row \<and> tbl_lookup db_DebriefID (db_DebriefID row) (debriefs s) = None"

text \<open>What a request of a subject does to the database.\<close>

definition request_writes :: "pg_types \<Rightarrow> 'd decimal_ops \<Rightarrow> string \<Rightarrow> db \<Rightarrow> db \<Rightarrow> bool" where
  "request_writes T D sub s s' \<longleftrightarrow>
     (\<exists>ds us row. s' = s\<lparr>trades := trades s @ [row], db_deliveries := ds, db_uuid_supply := us\<rparr> \<and> adds_trade T D sub s row)
     \<or> (\<exists>ds us row. s' = s\<lparr>debriefs := debriefs s @ [row], db_deliveries := ds, db_uuid_supply := us\<rparr> \<and> adds_debrief sub s row)"

definition only_script :: "db \<Rightarrow> db \<Rightarrow> bool" where
  "only_script s s' \<longleftrightarrow> (\<exists>ds us. s' = s\<lparr>db_deliveries := ds, db_uuid_supply := us\<rparr>)"

lemma only_script_refl [simp]: "only_script s s"
  unfolding only_script_def by (intro exI [of _ "db_deliveries s"] exI [of _ "db_uuid_supply s"]) simp

lemma same_tables_script: "same_tables w w' \<Longrightarrow> only_script (w_db w) (w_db w')"
proof -
  assume "same_tables w w'"
  then obtain ds where "w_db w' = (w_db w)\<lparr>db_deliveries := ds\<rparr>" by (auto simp: same_tables_def)
  then have "w_db w' = (w_db w)\<lparr>db_deliveries := ds, db_uuid_supply := db_uuid_supply (w_db w)\<rparr>" by simp
  then show ?thesis unfolding only_script_def by blast
qed

lemma Create_writes:
  fixes T and D :: "'d decimal_ops" and R :: "'r redis_ops" and decode and r and c and w :: "'r world"
  defines "w' \<equiv> snd (Trade_Create T D R decode r c w)"
  shows "only_script (w_db w) (w_db w') \<or> request_writes T D (UserIDFromContext c) (w_db w) (w_db w')"
proof -
  have keep: "s\<lparr>db_deliveries := ds, db_uuid_supply := db_uuid_supply s\<rparr> = s\<lparr>db_deliveries := ds\<rparr>"
    "s\<lparr>trades := ts, db_deliveries := ds, db_uuid_supply := db_uuid_supply s\<rparr> = s\<lparr>trades := ts, db_deliveries := ds\<rparr>"
    for s :: db and ds ts by simp_all
  obtain ds where "w_db w' = (w_db w)\<lparr>db_deliveries := ds\<rparr>
    \<or> (\<exists>row. adds_trade T D (UserIDFromContext c) (w_db w) row
         \<and> w_db w' = (w_db w)\<lparr>trades := trades (w_db w) @ [row], db_deliveries := ds\<rparr>)"
    using Create_effect [where w = w and T = T and D = D and R = R and decode = decode and r = r and c = c] unfolding w'_def adds_trade_def by blast
  then show ?thesis unfolding only_script_def request_writes_def by (metis keep)
qed

lemma Debrief_writes:
  fixes T and decode and r and c and w :: "'r world"
  defines "w' \<equiv> snd (Session_Debrief T decode r c w :: ('d response \<times> task list) \<times> 'r world)"
  shows "only_script (w_db w) (w_db w') \<or> request_writes T D (UserIDFromContext c) (w_db w) (w_db w')"
proof -
  have rec: "adds_debrief sub s row"
    if "tbl_lookup s_SessionID (db_SessionID row) (sessions s) = Some se" "s_UserID se = sub" "records_debrief T x input s row"
    for sub s row se x input
    using that by (simp add: adds_debrief_def records_debrief_def)
  have swap: "s\<lparr>db_deliveries := ds, debriefs := xs, db_uuid_supply := us\<rparr> = s\<lparr>debriefs := xs, db_deliveries := ds, db_uuid_supply := us\<rparr>"
    for s :: db and ds xs us by simp
  from Debrief_effect [where w = w and T = T and decode = decode and r = r and c = c and 'd = 'd, folded w'_def] show ?thesis
    unfolding only_script_def request_writes_def swap by (blast intro: rec)
qed

lemma endpoint_writes:
  fixes d :: "('r, 'd) deps" and m and e and r and c and w :: "'r world"
  defines "w' \<equiv> snd (endpoint_handler d m e r c w :: ('d response \<times> task list) \<times> 'r world)"
  shows "same_tables w w' \<or> e \<in> {TradesCreate, SessionsDebrief}
    \<and> (only_script (w_db w) (w_db w') \<or> request_writes (dp_T d) (dp_D d) (UserIDFromContext c) (w_db w) (w_db w'))"
proof (cases e)
  case HealthCheck
  then show ?thesis
    using Health_Check_frame(1) [of "dp_T d" "dp_R d" "mo_now m" r c w] by (simp add: w'_def same_tables_def)
next
  case TradesCreate
  with Create_writes [of w "dp_T d" "dp_D d" "dp_R d" "dp_decodeTrade d" r c] show ?thesis by (simp add: w'_def)
next
  case SessionsDebrief
  with Debrief_writes [where w = w and T = "dp_T d" and D = "dp_D d" and decode = "dp_decodeDebrief d" and r = r and c = c and 'd = 'd] show ?thesis by (simp add: w'_def)
qed (simp_all add: w'_def reads_same Metrics_Get_same Profile_Get_same)

lemma route_table_post: "map_of route_table (meth, pat) = Some (pr, e) \<Longrightarrow> e \<in> {TradesCreate, SessionsDebrief} \<Longrightarrow> meth = ''POST''"
  by (auto simp: route_table_def split: if_splits)

lemma serve_writes:
  fixes d :: "('r, 'd) deps" and m and r and w :: "'r world"
  defines "s' \<equiv> w_db (snd (serve d m r w :: ('d response \<times> task list) \<times> 'r world))"
  shows "only_script (w_db w) s'
    \<or> (rq_method r = ''POST'' \<and> (\<exists>sub. authenticates (dp_J d) (mo_now m) (dp_jwtSecret d) (rq_authorization r) sub
         \<and> request_writes (dp_T d) (dp_D d) sub (w_db w) s'))"
proof (rule serve_cases [of d m r w])
  fix resp assume "serve d m r w = ((resp, []), w)"
  then show ?thesis by (simp add: s'_def)
next
  fix code msg assume "serve d m r w = ((respondAuthError 401 code msg (mo_traceID m), []), w)"
  then show ?thesis by (simp add: s'_def)
next
  fix ps assume "serve d m r w = Health_Check (dp_T d) (dp_R d) (mo_now m) (r\<lparr>rq_params := ps\<rparr>) (moment_ctx m) w"
  then have "same_tables w (snd (serve d m r w :: ('d response \<times> task list) \<times> 'r world))"
    using Health_Check_frame(1) [of "dp_T d" "dp_R d" "mo_now m" "r\<lparr>rq_params := ps\<rparr>" "moment_ctx m" w]
    by (simp add: same_tables_def)
  then show ?thesis unfolding s'_def by (intro disjI1 same_tables_script)
next
  fix sub pat ps e
  assume auth: "authenticates (dp_J d) (mo_now m) (dp_jwtSecret d) (rq_authorization r) sub"
    and route: "map_of route_table (rq_method r, pat) = Some (True, e)"
    and run: "serve d m r w = endpoint_handler d m e (r\<lparr>rq_params := ps\<rparr>) ((moment_ctx m)\<lparr>cx_userId := Some sub\<rparr>) w"
  have u: "UserIDFromContext ((moment_ctx m)\<lparr>cx_userId := Some sub\<rparr>) = sub" by (simp add: UserIDFromContext_def)
  from endpoint_writes [of w d m e "r\<lparr>rq_params := ps\<rparr>" "(moment_ctx m)\<lparr>cx_userId := Some sub\<rparr>", folded run, unfolded u]
  show ?thesis
  proof (elim disjE conjE)
    assume "same_tables w (snd (serve d m r w))"
    then show ?thesis unfolding s'_def by (intro disjI1 same_tables_script)
  qed (use auth route_table_post [OF route] in \<open>auto simp: s'_def\<close>)
qed

section \<open>The processes together\<close>

text \<open>
  The servers, the goroutines that requests have started and not finished, and the messages the
  worker has read and not handled yet.
\<close>

record 'r system =
  sy_world :: "'r world"
  sy_tasks :: "task list"
  sy_batch :: "entry list"

text \<open>
  A step is a request, the end of a goroutine or its loss (its context is cancelled with the
  request's), a read of the worker, the handling of one message, a restart of the worker, or
  something the processes do not control: the passing of time, expiring keys and lost data in
  Redis, and new outcomes for the next statements.
\<close>

inductive step :: "('r, 'd) deps \<Rightarrow> 'r system \<Rightarrow> 'r system \<Rightarrow> bool" for d :: "('r, 'd) deps" where
  request: "serve d m r (sy_world s) = ((resp, ts), w')
    \<Longrightarrow> step d s (s\<lparr>sy_world := w', sy_tasks := sy_tasks s @ ts\<rparr>)"
| task_done: "t \<in> set (sy_tasks s)
    \<Longrightarrow> step d s (s\<lparr>sy_world := run_task (dp_R d) t (sy_world s), sy_tasks := remove1 t (sy_tasks s)\<rparr>)"
| task_lost: "t \<in> set (sy_tasks s) \<Longrightarrow> step d s (s\<lparr>sy_tasks := remove1 t (sy_tasks s)\<rparr>)"
| batch_read: "sy_batch s = []
    \<Longrightarrow> on_redis (Stream_ReadGroup (dp_R d) GroupName ConsumerName StreamName 10 (5 * second)) (sy_world s) = (Inr streams, w')
    \<Longrightarrow> step d s (s\<lparr>sy_world := w', sy_batch := concat (map snd streams)\<rparr>)"
| message_handled: "sy_batch s = msg # rest
    \<Longrightarrow> step d s (s\<lparr>sy_world := handle_message (dp_T d) (dp_D d) (dp_R d) (sy_world s) msg, sy_batch := rest\<rparr>)"
| worker_restart: "step d s (s\<lparr>sy_batch := []\<rparr>)"
| redis_moves: "step d s (s\<lparr>sy_world := (sy_world s)\<lparr>w_redis := r'\<rparr>\<rparr>)"
| database_moves: "step d s (s\<lparr>sy_world := (sy_world s)\<lparr>w_db := (w_db (sy_world s))
      \<lparr>db_now := t, db_uuid_supply := us, db_deliveries := ds\<rparr>\<rparr>\<rparr>)"

abbreviation sy_db :: "'r system \<Rightarrow> db" where "sy_db s \<equiv> w_db (sy_world s)"

text \<open>What a step can do to the tables of the API: nothing, or a write of an authenticated subject.\<close>

definition moves :: "pg_types \<Rightarrow> 'd decimal_ops \<Rightarrow> db \<Rightarrow> db \<Rightarrow> bool" where
  "moves T D s s' \<longleftrightarrow> ledger s' = ledger s \<and> behavioral_metrics s' = behavioral_metrics s
     \<or> (\<exists>sub. request_writes T D sub s s')"

lemma step_cases_db:
  assumes "step d s s'"
  obtains (api) "moves (dp_T d) (dp_D d) (sy_db s) (sy_db s')"
  | (worker) v where "sy_db s' = w_db (snd (processMessage (dp_T d) (dp_D d) (dp_R d) v (sy_world s)))"
  using assms
proof cases
  case (request m r resp ts w')
  then have "sy_db s' = w_db (snd (serve d m r (sy_world s)))" by simp
  with serve_writes [of "sy_world s" d m r] have "moves (dp_T d) (dp_D d) (sy_db s) (sy_db s')"
    by (auto simp: moves_def only_script_def ledger_def)
  then show thesis by (rule api)
next
  case (message_handled msg rest)
  then show thesis by (intro worker [of "snd msg"]) (simp add: handle_message_db)
next
  case (batch_read streams w')
  then show thesis by (intro api) (simp add: moves_def on_redis_eqD [OF batch_read(3)])
qed (intro api, simp add: moves_def ledger_def)+

section \<open>The invariant of the reachable states\<close>

definition debriefs_ok :: "db \<Rightarrow> bool" where
  "debriefs_ok s \<longleftrightarrow> distinct (map db_DebriefID (debriefs s))
     \<and> list_all (\<lambda>r. debrief_check r \<and> tbl_lookup s_SessionID (db_SessionID r) (sessions s) \<noteq> None) (debriefs s)"

text \<open>
  The keys, references and constraints of the ledger, the bucket invariant, and the ranges of the
  scores, as long as the counts of trades are exact as floats.
\<close>

definition system_ok :: "pg_types \<Rightarrow> db \<Rightarrow> bool" where
  "system_ok T s \<longleftrightarrow> trades_ok T s \<and> debriefs_ok s \<and> metrics_inv T s \<and> (length (trades s) \<le> 2 ^ 53 \<longrightarrow> scores_ok s)"

text \<open>The trades and the debriefs only grow, and nobody touches the users and the sessions.\<close>

definition ledger_grows :: "db \<Rightarrow> db \<Rightarrow> bool" where
  "ledger_grows s s' \<longleftrightarrow> users s' = users s \<and> sessions s' = sessions s
     \<and> (\<exists>ts. trades s' = trades s @ ts) \<and> (\<exists>ds. debriefs s' = debriefs s @ ds)"

lemma ledger_grows_refl [simp]: "ledger_grows s s" by (simp add: ledger_grows_def)

lemma ledger_grows_trans: "ledger_grows s s1 \<Longrightarrow> ledger_grows s1 s2 \<Longrightarrow> ledger_grows s s2"
  by (auto simp: ledger_grows_def)

lemma ledger_grows_same: "ledger s' = ledger s \<Longrightarrow> ledger_grows s s'"
  by (simp add: ledger_grows_def ledger_def)

lemma moves_grows: "moves T D s s' \<Longrightarrow> ledger_grows s s'"
  by (auto simp: moves_def request_writes_def ledger_grows_def ledger_def)

lemma step_grows: "step d s s' \<Longrightarrow> ledger_grows (sy_db s) (sy_db s')"
  by (erule step_cases_db) (auto intro: moves_grows ledger_grows_same processMessage_ledger)

lemma moves_cases:
  assumes "moves T D s s'"
  obtains (same) "ledger s' = ledger s"
  | (trade) sub ds us row where "s' = s\<lparr>trades := trades s @ [row], db_deliveries := ds, db_uuid_supply := us\<rparr>"
      "adds_trade T D sub s row"
  | (debrief) sub ds us row where "s' = s\<lparr>debriefs := debriefs s @ [row], db_deliveries := ds, db_uuid_supply := us\<rparr>"
      "adds_debrief sub s row"
  using assms unfolding moves_def request_writes_def by blast

lemma moves_trades_ok:
  assumes "postgres T" "moves T D s s'" "trades_ok T s"
  shows "trades_ok T s'"
  using assms(2)
proof (cases rule: moves_cases)
  case same
  from trades_ok_ledger [OF this] assms(3) show ?thesis by simp
next
  case (trade sub ds us row)
  then obtain t where "inserts_row T D t s row" by (auto simp: adds_trade_def)
  then have "trades_ok T (s\<lparr>trades := trades s @ [row]\<rparr>)" by (rule postgres.trades_ok_append [OF assms(1,3)])
  moreover have "ledger s' = ledger (s\<lparr>trades := trades s @ [row]\<rparr>)" by (simp add: trade(1) ledger_def)
  ultimately show ?thesis using trades_ok_ledger by blast
next
  case (debrief sub ds us row)
  then have "trades s' = trades s" "users s' = users s" "sessions s' = sessions s" by simp_all
  with assms(3) show ?thesis by (simp add: trades_ok_def trade_row_ok_def trade_fk_def)
qed

lemma moves_debriefs_ok:
  assumes "moves T D s s'" "debriefs_ok s"
  shows "debriefs_ok s'"
  using assms(1)
proof (cases rule: moves_cases)
  case same
  with assms(2) show ?thesis by (simp add: debriefs_ok_def ledger_def)
next
  case (trade sub ds us row)
  with assms(2) show ?thesis by (simp add: debriefs_ok_def)
next
  case (debrief sub ds us row)
  have "tbl_lookup s_SessionID (db_SessionID row) (sessions s) \<noteq> None" "debrief_check row"
    "db_DebriefID row \<notin> db_DebriefID ` set (debriefs s)"
    using debrief(2) by (auto simp: adds_debrief_def ptr_and_def tbl_lookup_None split: option.splits
        dest!: tbl_lookup_Some intro: rev_image_eqI)
  with assms(2) show ?thesis by (simp add: debriefs_ok_def debrief(1) del: not_None_eq)
qed

lemma moves_metrics: "moves T D s s' \<Longrightarrow> behavioral_metrics s' = behavioral_metrics s"
  by (auto simp: moves_def request_writes_def)

lemma moves_ok:
  assumes "postgres T" "moves T D s s'" "system_ok T s"
  shows "system_ok T s'"
proof -
  note rows = moves_metrics [OF assms(2)]
  have "length (trades s) \<le> length (trades s')" using moves_grows [OF assms(2)] by (auto simp: ledger_grows_def)
  then show ?thesis
    using assms(3) moves_trades_ok [OF assms(1,2)] moves_debriefs_ok [OF assms(2)]
      metrics_inv_cong [OF rows] scores_ok_cong [OF rows]
    by (auto simp: system_ok_def)
qed

lemma step_ok:
  assumes "postgres (dp_T d)" "step d s s'" "system_ok (dp_T d) (sy_db s)"
  shows "system_ok (dp_T d) (sy_db s')"
proof -
  from assms(2) show ?thesis
  proof (cases rule: step_cases_db)
    case api
    show ?thesis by (rule moves_ok [OF assms(1) api assms(3)])
  next
    case (worker v)
    have led: "ledger (sy_db s') = ledger (sy_db s)" by (simp add: worker processMessage_ledger)
    have "debriefs_ok (sy_db s') = debriefs_ok (sy_db s)" using led by (simp add: ledger_def debriefs_ok_def)
    moreover have "metrics_inv (dp_T d) (sy_db s')"
      using assms(3) by (simp add: worker processMessage_metrics_inv system_ok_def)
    moreover have "scores_ok (sy_db s')" if "length (trades (sy_db s)) \<le> 2 ^ 53"
      using processMessage_scores_ok [OF assms(1) _ that, of "dp_D d" "dp_R d" v] assms(3) that
      by (simp add: worker system_ok_def)
    ultimately show ?thesis
      using assms(3) trades_ok_ledger [OF led] ledger_trades [OF led] by (simp add: system_ok_def)
  qed
qed

section \<open>Properties\<close>

text \<open>A system with a stored trade whose message the worker has read, before and after it is handled.\<close>

definition ex_system :: "mem_redis system" where
  "ex_system = \<lparr>sy_world = ex_traded, sy_tasks = [], sy_batch = [(''1-0'', ex_loss)]\<rparr>"

definition ex_system' :: "mem_redis system" where
  "ex_system' = ex_system\<lparr>sy_world := handle_message ref_pg ref_decimal mem_ops ex_traded (''1-0'', ex_loss), sy_batch := []\<rparr>"

lemma ex_step: "(step ex_deps)\<^sup>*\<^sup>* ex_system ex_system'"
proof -
  have "step ex_deps ex_system ex_system'"
    using message_handled [of ex_system "(''1-0'', ex_loss)" "[]" ex_deps]
    by (simp add: ex_system_def ex_system'_def ex_deps_def)
  then show ?thesis by (rule r_into_rtranclp)
qed

lemma ex_system_ok: "system_ok ref_pg (sy_db ex_system)"
  using ex_traded_ok
  by (simp add: system_ok_def ex_system_def debriefs_ok_def metrics_inv_def metrics_ok_def scores_ok_def)
    (simp add: ex_traded_def ex_world_def ex_db_def)

text \<open>
  In every state that the processes can reach, by any interleaving of requests, goroutines
  and messages, with goroutines lost, the worker restarted, statements failing with or without
  effect and Redis in any state: keys are unique, every trade row has a user and a session that
  exist and values its columns admit, every debrief has a session and a rating between 1 and 5,
  every bucket satisfies its counting invariant, and every stored plan adherence lies between 1
  and 5 and every tilt index between 0 and 1.
\<close>

theorem reachable_ok:
  assumes "postgres (dp_T d)" "(step d)\<^sup>*\<^sup>* s0 s" "system_ok (dp_T d) (sy_db s0)"
  shows "system_ok (dp_T d) (sy_db s)"
  using assms(2)
proof (induction rule: rtranclp_induct)
  case (step s1 s2)
  show ?case by (rule step_ok [OF assms(1) step.hyps(2) step.IH])
qed (rule assms(3))

theorem reachable_ok_witness: "system_ok ref_pg (sy_db ex_system')"
proof -
  have T: "dp_T ex_deps = ref_pg" by (simp add: ex_deps_def)
  from reachable_ok [of ex_deps, unfolded T, OF ref_pg.postgres_axioms ex_step ex_system_ok] show ?thesis .
qed

text \<open>
  The ledger is append-only: no interleaving of requests, goroutines, messages and failures
  ever changes or deletes a stored trade or debrief, or touches the users and the sessions; the
  tables of a later state extend those of an earlier one.
\<close>

theorem reachable_append_only:
  assumes "(step d)\<^sup>*\<^sup>* s0 s"
  shows "users (sy_db s) = users (sy_db s0) \<and> sessions (sy_db s) = sessions (sy_db s0)
    \<and> (\<exists>ts. trades (sy_db s) = trades (sy_db s0) @ ts) \<and> (\<exists>ds. debriefs (sy_db s) = debriefs (sy_db s0) @ ds)"
proof -
  have "ledger_grows (sy_db s0) (sy_db s)"
    using assms
  proof (induction rule: rtranclp_induct)
    case (step s1 s2)
    then show ?case by (elim ledger_grows_trans) (rule step_grows)
  qed (rule ledger_grows_refl)
  then show ?thesis by (simp only: ledger_grows_def)
qed

theorem reachable_append_only_witness: "\<exists>ts. trades (sy_db ex_system') = ex_trade # ts"
  using reachable_append_only [OF ex_step] by (simp add: ex_system_def ex_traded_def)

text \<open>
  C2: A request can only write for its authenticated subject: whatever its path, body and the
  failures of the servers, the tables are unchanged, or the method was POST, the token
  authenticates a subject, and exactly one row was appended: a trade that belongs to that
  subject, in a session that exists, under a new key, or a debrief of a session of that subject.
\<close>

theorem serve_effect:
  fixes w :: "'r world"
  shows "let s = w_db w; s' = w_db (snd (serve d m r w :: ('d response \<times> task list) \<times> 'r world)) in
     (\<exists>ds us. s' = s\<lparr>db_deliveries := ds, db_uuid_supply := us\<rparr>)
     \<or> rq_method r = ''POST'' \<and> (\<exists>sub. authenticates (dp_J d) (mo_now m) (dp_jwtSecret d) (rq_authorization r) sub
         \<and> (\<exists>ds us. (\<exists>row. s' = s\<lparr>trades := trades s @ [row], db_deliveries := ds, db_uuid_supply := us\<rparr>
                  \<and> pg_uuid (dp_T d) sub = Some (UserID row) \<and> trade_fk s row \<and> trade_check row
                  \<and> tbl_lookup TradeID (TradeID row) (trades s) = None)
             \<or> (\<exists>row se. s' = s\<lparr>debriefs := debriefs s @ [row], db_deliveries := ds, db_uuid_supply := us\<rparr>
                  \<and> tbl_lookup s_SessionID (db_SessionID row) (sessions s) = Some se \<and> s_UserID se = sub
                  \<and> debrief_check row)))"
proof -
  have tr: "pg_uuid T sub = Some (UserID row) \<and> trade_fk s row \<and> trade_check row \<and> tbl_lookup TradeID (TradeID row) (trades s) = None"
    if "adds_trade T D sub s row" for T and D :: "'e decimal_ops" and sub s row
    using that by (auto simp: adds_trade_def inserts_row_def)
  have db: "\<exists>se. tbl_lookup s_SessionID (db_SessionID row) (sessions s) = Some se \<and> s_UserID se = sub \<and> debrief_check row"
    if "adds_debrief sub s row" for sub s row
    using that by (auto simp: adds_debrief_def ptr_and_iff)
  from serve_writes [of w d m r] show ?thesis
    unfolding Let_def only_script_def request_writes_def using tr db by meson
qed

end
