(* ===== verification/Processes.thy ===== *)
theory Processes
  imports System Startup
begin

text \<open>
  The commands \<open>cmd/api/main.go\<close> and \<open>cmd/worker/main.go\<close>: the order in which they read
  their settings, connect, and hand over to the HTTP server or the worker's loop. Signals show
  as the end of the listener or of the polls; deferred closes and log output are left out.
\<close>

section \<open>The API\<close>

text \<open>
  \<open>ListenAndServe\<close> is an argument: it takes the address and the router, runs the server on the
  world, and ends with nothing, with \<open>http.ErrServerClosed\<close> or with another error.
\<close>

datatype listen_end = ListenNil | ErrServerClosed | ListenError string

type_synonym ('r, 'd) listener =
  "string \<Rightarrow> (moment \<Rightarrow> request \<Rightarrow> 'r world \<Rightarrow> (('d response \<times> task list) \<times> 'r world) \<times> log_entry)
   \<Rightarrow> 'r world \<Rightarrow> listen_end \<times> 'r world"

definition default_redis_addr :: string where "default_redis_addr = ''redis:6379''"

text \<open>
  The dependencies are those the router is built from, without the secret, which comes from the
  environment. The error of creating the group is ignored.
\<close>

definition api_main ::
  "string strmap \<Rightarrow> (string \<Rightarrow> dial) \<Rightarrow> (string \<Rightarrow> string option) \<Rightarrow> ('r, 'd) deps \<Rightarrow> ('r, 'd) listener
   \<Rightarrow> 'r world \<Rightarrow> exit \<times> 'r world" where
  "api_main env open_db ping d listen w =
     (let dbURL = getEnv env ''DATABASE_URL'' default_database_url;
          redisAddr = getEnv env ''REDIS_URL'' default_redis_addr;
          jwtSecret = getEnv env ''JWT_SECRET'' default_secret;
          port = getEnv env ''PORT'' ''8080''
      in case fst (NewPool (open_db dbURL)) of
           Inl err \<Rightarrow> (Fatal ''failed to connect to PostgreSQL'' err, w)
         | Inr pool \<Rightarrow>
             (case NewRedisClient ping redisAddr of
                Inl err \<Rightarrow> (Fatal ''failed to connect to Redis'' err, w)
              | Inr redisClient \<Rightarrow>
                  (let w1 = snd (on_redis (Stream_CreateGroup (dp_R d) ''trades:events'' ''nevup-analytics'' ''0'') w);
                       router = NewRouter (d\<lparr>dp_jwtSecret := jwtSecret\<rparr>)
                   in case listen (CHR '':'' # port) router w1 of
                        (ListenError err, w2) \<Rightarrow> (Fatal ''server error'' err, w2)
                      | (_, w2) \<Rightarrow> (Returned, w2))))"

section \<open>The worker\<close>

definition worker_main ::
  "string strmap \<Rightarrow> (string \<Rightarrow> dial) \<Rightarrow> (string \<Rightarrow> string option) \<Rightarrow> pg_types \<Rightarrow> 'd decimal_ops \<Rightarrow> 'r redis_ops
   \<Rightarrow> ('r world \<Rightarrow> 'r world) \<Rightarrow> nat \<Rightarrow> 'r world \<Rightarrow> exit \<times> 'r world" where
  "worker_main env open_db ping T D R others polls w =
     (let dbURL = getEnv env ''DATABASE_URL'' default_database_url;
          redisAddr = getEnv env ''REDIS_URL'' default_redis_addr
      in case fst (NewPool (open_db dbURL)) of
           Inl err \<Rightarrow> (Fatal ''failed to connect to PostgreSQL'' err, w)
         | Inr pool \<Rightarrow>
             (case NewRedisClient ping redisAddr of
                Inl err \<Rightarrow> (Fatal ''failed to connect to Redis'' err, w)
              | Inr redisClient \<Rightarrow>
                  (case Run T D R others polls w of
                     (Some err, w1) \<Rightarrow> (Fatal ''worker error'' err, w1)
                   | (None, w1) \<Rightarrow> (Returned, w1))))"

section \<open>Properties\<close>

lemma NewPool_connects: "i < 10 \<Longrightarrow> dial i = Inr None \<Longrightarrow> \<exists>k. fst (NewPool dial) = Inr k"
proof -
  assume "i < 10" "dial i = Inr None"
  then have "List.find (connects dial) [0..<10] \<noteq> None" by (auto simp: find_None_iff connects_def)
  then show ?thesis using NewPool_loop_spec [of no_dials 0 dial None] by (auto simp: NewPool_def no_dials_def)
qed

lemma bearer_fields:
  "rq_method (bearer ts r) = rq_method r" "rq_path (bearer ts r) = rq_path r"
  "(bearer ts r)\<lparr>rq_params := ps\<rparr> = bearer ts (r\<lparr>rq_params := ps\<rparr>)"
  by (cases r; simp add: bearer_def)+

text \<open>A request with a bearer token that verifies reaches its endpoint as the token's subject.\<close>

lemma NewRouter_bearer:
  assumes "chi_library (dp_chi d)" "verify_token (dp_J d) (mo_now m) (dp_jwtSecret d) ts = Inr sub"
    and "segment i" "rq_method r = endpoint_method e" "rq_path r = endpoint_path e i" "e \<noteq> HealthCheck"
  shows "fst (NewRouter d m (bearer ts r) w)
    = endpoint_handler d m e (bearer ts (r\<lparr>rq_params := endpoint_params e i\<rparr>)) ((moment_ctx m)\<lparr>cx_userId := Some sub\<rparr>) w"
proof -
  have "dp_chi d (map fst route_table) (rq_method (bearer ts r)) (rq_path (bearer ts r)) = Found (endpoint_pattern e) (endpoint_params e i)"
    using chi_library.found_endpoint [OF assms(1,3), of e] assms(4,5) by (simp add: bearer_fields)
  then have "serve d m (bearer ts r) w = AuthMiddleware (dp_J d) (mo_now m) (dp_jwtSecret d) (endpoint_handler d m e)
      (bearer ts (r\<lparr>rq_params := endpoint_params e i\<rparr>)) (moment_ctx m) w"
    using route_table_endpoint [of e] assms(4,6) by (simp add: serve_eq route_handler_def bearer_fields)
  then show ?thesis by (simp add: AuthMiddleware_bearer assms(2) serve_def)
qed

text \<open>
  C40: A deployment that sets no JWT secret works with the token generator, from the environment to
  the handler: when one of ten attempts reaches the database and Redis answers, the API listens
  on the configured port, with the router of the default secret, and starting up has changed no
  table; and that router answers a request for any protected endpoint that carries a token which
  \<open>jwtgen\<close> printed less than an hour before exactly as the endpoint's handler answers it for the
  subject that was asked of \<open>jwtgen\<close> - so that anyone who has the source can act as anyone.
\<close>

theorem default_deployment:
  assumes "jwt_library (dp_J d)" and "chi_library (dp_chi d)" and "env ''JWT_SECRET'' \<in> {None, Some ''''}"
    and "i < 10" "\<And>url. open_db url i = Inr None" and "\<And>addr. ping addr = None"
    and "jwtgen_main (dp_J d) t0 [prog, sub] = Some ts" "sub \<noteq> ''''" "ascii sub" "clock_ok t0"
  shows "\<exists>w1. api_main env open_db ping d listen w
      = (case listen (CHR '':'' # getEnv env ''PORT'' ''8080'') (NewRouter (d\<lparr>dp_jwtSecret := default_secret\<rparr>)) w1 of
           (ListenError err, w2) \<Rightarrow> (Fatal ''server error'' err, w2) | (_, w2) \<Rightarrow> (Returned, w2))
    \<and> w_db w1 = w_db w
    \<and> (\<forall>m e x r w2. mo_now m < time_unix (unix (t0 + hour)) \<and> e \<noteq> HealthCheck \<and> segment x
         \<and> rq_method r = endpoint_method e \<and> rq_path r = endpoint_path e x
         \<longrightarrow> fst (NewRouter (d\<lparr>dp_jwtSecret := default_secret\<rparr>) m (bearer ts r) w2)
             = endpoint_handler d m e (bearer ts (r\<lparr>rq_params := endpoint_params e x\<rparr>))
                 ((moment_ctx m)\<lparr>cx_userId := Some sub\<rparr>) w2)"
proof -
  let ?d = "d\<lparr>dp_jwtSecret := default_secret\<rparr>"
  let ?w1 = "snd (on_redis (Stream_CreateGroup (dp_R d) ''trades:events'' ''nevup-analytics'' ''0'') w)"
  obtain k where "fst (NewPool (open_db (getEnv env ''DATABASE_URL'' default_database_url))) = Inr k"
    using NewPool_connects [OF assms(4)] assms(5) by blast
  moreover have "getEnv env ''JWT_SECRET'' default_secret = default_secret"
    using assms(3) by (auto simp: getEnv_def)
  ultimately have start: "api_main env open_db ping d listen w
      = (case listen (CHR '':'' # getEnv env ''PORT'' ''8080'') (NewRouter ?d) ?w1 of
           (ListenError err, w2) \<Rightarrow> (Fatal ''server error'' err, w2) | (_, w2) \<Rightarrow> (Returned, w2))"
    by (simp add: api_main_def NewRedisClient_def assms(6) Let_def)
  have "fst (NewRouter ?d m (bearer ts r) w2)
      = endpoint_handler d m e (bearer ts (r\<lparr>rq_params := endpoint_params e x\<rparr>)) ((moment_ctx m)\<lparr>cx_userId := Some sub\<rparr>) w2"
    if "mo_now m < time_unix (unix (t0 + hour))" "e \<noteq> HealthCheck" "segment x"
      "rq_method r = endpoint_method e" "rq_path r = endpoint_path e x" for m e x r w2
  proof -
    have "verify_token (dp_J ?d) (mo_now m) (dp_jwtSecret ?d) ts = Inr sub"
      using jwtgen_verified [OF assms(1,7-10) that(1)] by simp
    moreover have "endpoint_handler ?d m e = endpoint_handler d m e" by (cases e) simp_all
    ultimately show ?thesis using NewRouter_bearer [of ?d m ts sub x r e w2] assms(2) that by simp
  qed
  then show ?thesis using start by (intro exI [of _ ?w1]) simp
qed

theorem default_deployment_witness:
  "\<exists>ts. is_error (fst (fst (fst (NewRouter ex_deps ex_moment
       (bearer ts (ex_request\<lparr>rq_path := ''/users/bob/metrics''\<rparr>)) ex_world))))
     ((moment_ctx ex_moment)\<lparr>cx_userId := Some alice\<rparr>) 403 ''FORBIDDEN''"
proof -
  obtain ts where ts: "jwtgen_main (dp_J ex_deps) ex_time [''jwtgen'', alice] = Some ts" by (simp add: jwtgen_main_def)
  have lib: "jwt_library (dp_J ex_deps)" "chi_library (dp_chi ex_deps)"
    by (simp_all add: ex_deps_def ref_jwt.jwt_library_axioms ref_chi.chi_library_axioms)
  have fresh: "mo_now ex_moment < time_unix (unix (ex_time + hour))"
    by (simp add: ex_moment_def ex_time_def time_unix_def unix_def duration_defs)
  have sub: "alice \<noteq> ''''" "ascii alice" "clock_ok ex_time" by (simp_all add: alice_def ascii_def clock_ok_def ex_time_def)
  have zero: "(0::nat) < 10" by simp
  let ?r = "ex_request\<lparr>rq_path := ''/users/bob/metrics''\<rparr>"
  have r: "MetricsGet \<noteq> HealthCheck" "segment ''bob''" "rq_method ?r = endpoint_method MetricsGet" "rq_path ?r = endpoint_path MetricsGet ''bob''"
    by (simp_all add: segment_def ex_request_def)
  have d: "ex_deps\<lparr>dp_jwtSecret := default_secret\<rparr> = ex_deps" by (simp add: ex_deps_def)
  from default_deployment [OF lib _ zero _ _ ts sub, of Map.empty "\<lambda>url i. Inr None" "\<lambda>a. None" "\<lambda>a r w. (ListenNil, w)" ex_world]
  have "fst (NewRouter ex_deps ex_moment (bearer ts ?r) ex_world)
      = endpoint_handler ex_deps ex_moment MetricsGet (bearer ts (?r\<lparr>rq_params := endpoint_params MetricsGet ''bob''\<rparr>))
          ((moment_ctx ex_moment)\<lparr>cx_userId := Some alice\<rparr>) ex_world"
    using fresh r unfolding d by blast
  moreover have "''bob'' \<noteq> alice" by (simp add: alice_def)
  ultimately show ?thesis
    by (intro exI [of _ ts]) (simp add: Metrics_Get_def URLParam_def bearer_def UserIDFromContext_def)
qed

end
