(* ===== verification/Drain.thy ===== *)
theory Drain
  imports Worker
begin

text \<open>
  The worker catches up: on servers that answer, enough polls of its loop deliver, process and
  acknowledge the whole backlog of the stream.
\<close>

section \<open>A Redis server that answers\<close>

locale redis_live = redis_stream R entries delivered pending
  for R :: "'r redis_ops" and entries and delivered and pending +
  fixes up :: "'r \<Rightarrow> bool"
  assumes read_live: "up s \<Longrightarrow> \<exists>sts s'. rd_xreadgroup R g c st n b s = (Inr sts, s') \<and> up s'"
    and ack_live: "up s \<Longrightarrow> \<exists>s'. rd_xack R st g is s = (Inr (), s') \<and> up s'"
    and zset_live: "up s \<Longrightarrow> up (snd (rd_zaddnx R k x m s))" "up s \<Longrightarrow> up (snd (rd_zremrangebyscore R k lo hi s))"
      "up s \<Longrightarrow> up (snd (rd_zcount R k lo hi s))"
begin

lemma OvertradingCheck_up: "up s \<Longrightarrow> OvertradingCheck R k n m ms s = (r, s') \<Longrightarrow> up s'"
  using zset_live
  by (auto simp: OvertradingCheck_def split: prod.splits sum.splits) (metis snd_conv)+

lemma processMessage_live: "up (w_redis w) \<Longrightarrow> up (w_redis (snd (processMessage T D R v w)))"
  using processMessage_redis [of T D v w] OvertradingCheck_up by auto

lemma handle_message_live:
  fixes T and D :: "'d decimal_ops" and w :: "'r world" and msg
  assumes "up (w_redis w)"
  defines "w' \<equiv> handle_message T D R w msg"
  shows "up (w_redis w')" "entries (w_redis w') = entries (w_redis w)" "delivered (w_redis w') = delivered (w_redis w)"
    "pending (w_redis w') StreamName GroupName = pending (w_redis w) StreamName GroupName - {fst msg}"
proof -
  let ?w1 = "snd (processMessage T D R (snd msg) w)"
  obtain s' where ack: "rd_xack R StreamName GroupName [fst msg] (w_redis ?w1) = (Inr (), s')" "up s'"
    using ack_live [OF processMessage_live [OF assms(1), of T D "snd msg"]] by blast
  have w': "w_redis w' = s'" by (simp add: w'_def handle_message_def Stream_Ack_def ack(1) case_prod_beta)
  show "up (w_redis w')" "entries (w_redis w') = entries (w_redis w)" "delivered (w_redis w') = delivered (w_redis w)"
    "pending (w_redis w') StreamName GroupName = pending (w_redis w) StreamName GroupName - {fst msg}"
    using ack(2) xack_ok [OF ack(1)] processMessage_streams [of T D "snd msg" w] by (simp_all add: w')
qed

end

interpretation mem: redis_live mem_ops mr_entries mr_delivered "\<lambda>s st g. set (mr_pending s st g)" "\<lambda>s. mr_up s = []"
  by unfold_locales
    (auto simp: mem_ops_def mr_send_def mem_xread_def mem_xack_def mem_zadd_def mem_zrem_def Let_def
      split: float64.splits)

section \<open>A batch\<close>

text \<open>What the entries of a stream add to a bucket.\<close>

definition entries_sum :: "pg_types \<Rightarrow> 'd decimal_ops \<Rightarrow> (metrics_row \<Rightarrow> 'n::comm_monoid_add) \<Rightarrow> time \<times> string \<Rightarrow> entry list \<Rightarrow> 'n" where
  "entries_sum T D f k es = sum_list (map (\<lambda>e. row_sum f (event_row T D (snd e)) k) es)"

definition caught_up :: "pg_types \<Rightarrow> 'd decimal_ops \<Rightarrow> time \<times> string \<Rightarrow> entry list \<Rightarrow> db \<Rightarrow> db \<Rightarrow> bool" where
  "caught_up T D k es s s' \<longleftrightarrow>
     bucket_sum m_TradeCount s' k = bucket_sum m_TradeCount s k + entries_sum T D m_TradeCount k es
     \<and> bucket_sum m_WinCount s' k = bucket_sum m_WinCount s k + entries_sum T D m_WinCount k es
     \<and> bucket_sum m_LossCount s' k = bucket_sum m_LossCount s k + entries_sum T D m_LossCount k es
     \<and> bucket_sum m_RevengeCount s' k = bucket_sum m_RevengeCount s k + entries_sum T D m_RevengeCount k es
     \<and> bucket_sum m_TotalPnl s' k = bucket_sum m_TotalPnl s k + entries_sum T D m_TotalPnl k es"

lemma caught_up_append: "caught_up T D k es s s1 \<Longrightarrow> caught_up T D k fs s1 s2 \<Longrightarrow> caught_up T D k (es @ fs) s s2"
  by (simp add: caught_up_def entries_sum_def)

context backend
begin

lemma handle_all_counts:
  fixes w :: "'r world" and R :: "'r redis_ops" and es
  assumes "db_up w" "metrics_inv T (w_db w)" "bucket_room T D (w_db w) k (map snd es @ vs)"
  defines "w' \<equiv> foldl (handle_message T D R) w es"
  shows "caught_up T D k es (w_db w) (w_db w') \<and> db_up w' \<and> metrics_inv T (w_db w')
    \<and> bucket_room T D (w_db w') k vs"
  using assms(1-3) unfolding w'_def
proof (induction es arbitrary: w)
  case Nil
  then show ?case by (simp add: caught_up_def entries_sum_def)
next
  case (Cons e es)
  let ?w = "handle_message T D R w e"
  have room: "bucket_room T D (w_db w) k (snd e # (map snd es @ vs))" using Cons.prems(3) by simp
  have db: "w_db ?w = w_db (snd (processMessage T D R (snd e) w))" by (rule handle_message_db)
  have "caught_up T D k [e] (w_db w) (w_db ?w)"
    using processMessage_sum [OF Cons.prems(1,2) _ _ room, of m_TradeCount R]
      processMessage_sum [OF Cons.prems(1,2) _ _ room, of m_WinCount R]
      processMessage_sum [OF Cons.prems(1,2) _ _ room, of m_LossCount R]
      processMessage_sum [OF Cons.prems(1,2) _ _ room, of m_RevengeCount R]
      processMessage_sum [OF Cons.prems(1,2) _ _ room, of m_TotalPnl R]
    by (simp add: caught_up_def entries_sum_def db)
  moreover have "db_up ?w" "metrics_inv T (w_db ?w)" "bucket_room T D (w_db ?w) k (map snd es @ vs)"
    using processMessage_up [OF Cons.prems(1)] processMessage_metrics_inv [OF Cons.prems(2)]
      bucket_room_step [OF Cons.prems(1,2) room] by (simp_all add: db)
  note next_ok = this
  note rest = Cons.IH [OF next_ok]
  ultimately have "caught_up T D k ([e] @ es) (w_db w) (w_db (foldl (handle_message T D R) ?w es))"
    using rest by (blast intro: caught_up_append)
  with rest show ?case by simp
qed

end

lemma handle_streams_concat: "handle_streams T D R sts w = foldl (handle_message T D R) w (concat (map snd sts))"
  unfolding handle_streams_def by (induction sts arbitrary: w) simp_all

section \<open>The loop\<close>

context redis_live
begin

definition backlog :: "'r world \<Rightarrow> entry list" where
  "backlog w = drop (delivered (w_redis w) StreamName GroupName) (entries (w_redis w) StreamName)"

lemma handle_all_live:
  fixes w :: "'r world"
  assumes "up (w_redis w)"
  shows "up (w_redis (foldl (handle_message T D R) w es))
    \<and> entries (w_redis (foldl (handle_message T D R) w es)) = entries (w_redis w)
    \<and> delivered (w_redis (foldl (handle_message T D R) w es)) = delivered (w_redis w)
    \<and> pending (w_redis (foldl (handle_message T D R) w es)) StreamName GroupName
        = pending (w_redis w) StreamName GroupName - fst ` set es"
  using assms
proof (induction es arbitrary: w)
  case (Cons e es)
  with handle_message_live [OF Cons.prems, of T D e] Cons.IH [of "handle_message T D R w e"] show ?case by auto
qed simp

text \<open>One poll handles the first ten entries of the backlog.\<close>

lemma Run_loop_poll:
  fixes w :: "'r world"
  assumes "up (w_redis w)"
  obtains w2 where "Run_loop T D R (\<lambda>w. w) (Suc n) w = Run_loop T D R (\<lambda>w. w) n w2"
    "up (w_redis w2)" "entries (w_redis w2) = entries (w_redis w)" "backlog w2 = drop 10 (backlog w)"
    "pending (w_redis w2) StreamName GroupName \<subseteq> pending (w_redis w) StreamName GroupName"
    "\<exists>w1. w_db w1 = w_db w \<and> w2 = foldl (handle_message T D R) w1 (take 10 (backlog w))"
proof -
  obtain sts s1 where rd: "rd_xreadgroup R GroupName ConsumerName StreamName 10 (5 * second) (w_redis w) = (Inr sts, s1)" "up s1"
    using read_live [OF assms] by blast
  let ?w1 = "w\<lparr>w_redis := s1\<rparr>" and ?es = "concat (map snd sts)"
  have "(0::int) < 10" by simp
  note r = xread_ok [OF rd(1) this]
  have x: "entries s1 = entries (w_redis w)" "?es = take 10 (backlog w)"
    "delivered s1 StreamName GroupName = delivered (w_redis w) StreamName GroupName + length ?es"
    by (simp_all only: r [THEN conjunct1] r [THEN conjunct2, THEN conjunct1]
        r [THEN conjunct2, THEN conjunct2, THEN conjunct1] backlog_def nat_numeral)
  note p = r [THEN conjunct2, THEN conjunct2, THEN conjunct2]
  have run: "Run_loop T D R (\<lambda>w. w) (Suc n) w = Run_loop T D R (\<lambda>w. w) n (foldl (handle_message T D R) ?w1 ?es)"
    by (simp add: on_redis_def Stream_ReadGroup_def rd(1) handle_streams_concat)
  have "up (w_redis ?w1)" using rd(2) by simp
  note live = handle_all_live [OF this, of T D ?es]
  let ?w2 = "foldl (handle_message T D R) ?w1 ?es"
  have "backlog ?w2 = drop (length ?es) (backlog w)"
    using live x(1,3) by (simp add: backlog_def add.commute)
  also have "\<dots> = drop 10 (backlog w)" by (simp add: x(2) min_def)
  finally have log: "backlog ?w2 = drop 10 (backlog w)" .
  have w1: "w_redis ?w1 = s1" by simp
  have ent: "entries (w_redis ?w2) = entries (w_redis w)" using live x(1) by simp
  have "pending (w_redis ?w2) StreamName GroupName = (pending (w_redis w) StreamName GroupName \<union> fst ` set ?es) - fst ` set ?es"
    using live unfolding w1 p by blast
  then have pend: "pending (w_redis ?w2) StreamName GroupName \<subseteq> pending (w_redis w) StreamName GroupName" by blast
  have db: "w_db ?w1 = w_db w" by simp
  show thesis
    by (rule that [OF run conjunct1 [OF live] ent log pend]) (intro exI [of _ ?w1] conjI db, simp only: x(2))
qed

lemma Run_loop_caught_up:
  fixes w :: "'r world"
  assumes "backend T D" "up (w_redis w)" "db_up w" "metrics_inv T (w_db w)"
    and "bucket_room T D (w_db w) k (map snd (backlog w))" "length (backlog w) \<le> 10 * n"
  shows "backlog (snd (Run_loop T D R (\<lambda>w. w) n w)) = []
    \<and> entries (w_redis (snd (Run_loop T D R (\<lambda>w. w) n w))) = entries (w_redis w)
    \<and> pending (w_redis (snd (Run_loop T D R (\<lambda>w. w) n w))) StreamName GroupName \<subseteq> pending (w_redis w) StreamName GroupName
    \<and> caught_up T D k (backlog w) (w_db w) (w_db (snd (Run_loop T D R (\<lambda>w. w) n w)))"
  using assms(2-6)
proof (induction n arbitrary: w)
  case 0
  then show ?case by (simp add: caught_up_def entries_sum_def)
next
  case (Suc n)
  obtain w2 w1 where w2: "Run_loop T D R (\<lambda>w. w) (Suc n) w = Run_loop T D R (\<lambda>w. w) n w2"
    "up (w_redis w2)" "entries (w_redis w2) = entries (w_redis w)" "backlog w2 = drop 10 (backlog w)"
    "pending (w_redis w2) StreamName GroupName \<subseteq> pending (w_redis w) StreamName GroupName"
    and w1: "w_db w1 = w_db w" "w2 = foldl (handle_message T D R) w1 (take 10 (backlog w))"
    by (rule Run_loop_poll [OF Suc.prems(1), of T D n]) blast
  have split: "map snd (take 10 (backlog w)) @ map snd (drop 10 (backlog w)) = map snd (backlog w)"
    by (simp flip: map_append)
  have "caught_up T D k (take 10 (backlog w)) (w_db w1) (w_db w2) \<and> db_up w2 \<and> metrics_inv T (w_db w2)
      \<and> bucket_room T D (w_db w2) k (map snd (drop 10 (backlog w)))"
    unfolding w1(2) by (rule backend.handle_all_counts [OF assms(1)]) (use Suc.prems w1(1) split in simp_all)
  then have batch: "caught_up T D k (take 10 (backlog w)) (w_db w) (w_db w2)" "db_up w2" "metrics_inv T (w_db w2)"
    "bucket_room T D (w_db w2) k (map snd (backlog w2))"
    by (simp_all add: w1(1) w2(4))
  have "length (backlog w2) \<le> 10 * n" using Suc.prems(5) by (simp add: w2(4))
  note rest = Suc.IH [OF w2(2) batch(2,3,4) this]
  have "caught_up T D k (take 10 (backlog w) @ backlog w2) (w_db w) (w_db (snd (Run_loop T D R (\<lambda>w. w) n w2)))"
    using batch(1) rest by (blast intro: caught_up_append)
  then have "caught_up T D k (backlog w) (w_db w) (w_db (snd (Run_loop T D R (\<lambda>w. w) n w2)))" by (simp add: w2(4))
  with rest w2(5) show ?case unfolding w2(1) w2(3) [symmetric] by blast
qed

end

section \<open>Property\<close>

text \<open>
  C6: The worker catches up: on a database and a Redis server that answer, a run that polls once
  for every ten entries of the backlog leaves nothing behind: every entry of the stream has been
  delivered, none of them is left pending, the stream is unchanged, and every hourly bucket has
  counted each of them exactly once, as a trade, as a win or a loss, as a revenge trade when it
  is flagged, and with its P\&L. (Stated for room in the columns of the bucket and a bucket table
  that satisfies its invariant.)
\<close>

theorem Run_loop_drains:
  fixes w :: "'r world"
  assumes "redis_live R entries delivered pending up" and "postgres T" "decimal D"
    and "up (w_redis w)" "db_up w" "metrics_inv T (w_db w)"
    and "es = drop (delivered (w_redis w) StreamName GroupName) (entries (w_redis w) StreamName)"
    and "bucket_room T D (w_db w) k (map snd es)" "length es \<le> 10 * n"
    and "w' = snd (Run_loop T D R (\<lambda>w. w) n w)"
  shows "length (entries (w_redis w') StreamName) \<le> delivered (w_redis w') StreamName GroupName
    \<and> entries (w_redis w') = entries (w_redis w)
    \<and> pending (w_redis w') StreamName GroupName \<subseteq> pending (w_redis w) StreamName GroupName
    \<and> bucket_sum m_TradeCount (w_db w') k = bucket_sum m_TradeCount (w_db w) k + entries_sum T D m_TradeCount k es
    \<and> bucket_sum m_WinCount (w_db w') k = bucket_sum m_WinCount (w_db w) k + entries_sum T D m_WinCount k es
    \<and> bucket_sum m_LossCount (w_db w') k = bucket_sum m_LossCount (w_db w) k + entries_sum T D m_LossCount k es
    \<and> bucket_sum m_RevengeCount (w_db w') k = bucket_sum m_RevengeCount (w_db w) k + entries_sum T D m_RevengeCount k es
    \<and> bucket_sum m_TotalPnl (w_db w') k = bucket_sum m_TotalPnl (w_db w) k + entries_sum T D m_TotalPnl k es"
proof -
  have log: "redis_live.backlog entries delivered w = es"
    by (simp add: redis_live.backlog_def [OF assms(1)] assms(7))
  have "redis_live.backlog entries delivered w' = []" "entries (w_redis w') = entries (w_redis w)"
    "pending (w_redis w') StreamName GroupName \<subseteq> pending (w_redis w) StreamName GroupName"
    "caught_up T D k es (w_db w) (w_db w')"
    using redis_live.Run_loop_caught_up [OF assms(1) backend.intro [OF assms(2,3)] assms(4-6), of k n] assms(8,9)
    by (simp_all add: log assms(10))
  then show ?thesis by (simp add: redis_live.backlog_def [OF assms(1)] caught_up_def)
qed

theorem Run_loop_drains_witness:
  "length (mr_entries (w_redis ex_busy) StreamName) \<le> mr_delivered (w_redis (snd (Run_loop ref_pg ref_decimal mem_ops (\<lambda>w. w) 1 ex_busy))) StreamName GroupName
   \<and> bucket_sum m_TradeCount (w_db (snd (Run_loop ref_pg ref_decimal mem_ops (\<lambda>w. w) 1 ex_busy))) (ex_time - 900 * second, alice) = 2"
proof -
  let ?k = "(ex_time - 900 * second, alice)" and ?es = "[(''1-0'', ex_loss), (''2-0'', ex_loss)]"
  have up: "mr_up (w_redis ex_busy) = []" "db_up ex_busy" by (simp_all add: ex_busy_def ex_defs)
  have inv: "metrics_inv ref_pg (w_db ex_busy)" by (simp add: ex_busy_def ex_defs metrics_inv_def metrics_ok_def)
  have es: "?es = drop (mr_delivered (w_redis ex_busy) StreamName GroupName) (mr_entries (w_redis ex_busy) StreamName)"
    by (simp add: ex_busy_def ex_defs)
  have db: "w_db ex_busy = w_db ex_world" by (simp add: ex_busy_def)
  have room: "bucket_room ref_pg ref_decimal (w_db ex_busy) ?k (map snd ?es)" unfolding db by code_simp
  have sum: "bucket_sum m_TradeCount (w_db ex_busy) ?k + entries_sum ref_pg ref_decimal m_TradeCount ?k ?es = 2"
    unfolding db by code_simp
  have len: "length ?es \<le> 10 * 1" by simp
  define w' where "w' = snd (Run_loop ref_pg ref_decimal mem_ops (\<lambda>w. w) 1 ex_busy)"
  from Run_loop_drains [OF mem.redis_live_axioms ref_pg.postgres_axioms ref.decimal_axioms up inv es room len w'_def] sum
  have "length (mr_entries (w_redis ex_busy) StreamName) \<le> mr_delivered (w_redis w') StreamName GroupName
      \<and> bucket_sum m_TradeCount (w_db w') ?k = 2" by (elim conjE) simp
  then show ?thesis by (simp only: w'_def)
qed

end
