(* ===== verification/Ledger_View.thy ===== *)
theory Ledger_View
  imports Drain Event_Flow
begin

text \<open>
  The hourly buckets as a view of the ledger. The worker maintains them one event at a time; the
  reference is the query it replaces, a \<open>GROUP BY\<close> over the stored closed trades of a user and an
  hour. Both agree once the worker has caught up with the events of the stored trades.
\<close>

section \<open>The reference: grouping the ledger\<close>

definition hour_group :: "time \<times> string \<Rightarrow> rat Trade list \<Rightarrow> rat Trade list" where
  "hour_group k rows = filter (\<lambda>r. Status r = ''closed'' \<and> (time_truncate (EntryAt r) hour, UserID r) = k) rows"

definition pnl_or_0 :: "rat Trade \<Rightarrow> rat" where "pnl_or_0 r = opt_else 0 (PnL r)"

text \<open>The bucket row of a key holds what the grouping query computes from the rows.\<close>

definition bucket_agrees :: "time \<times> string \<Rightarrow> rat Trade list \<Rightarrow> db \<Rightarrow> bool" where
  "bucket_agrees k rows s \<longleftrightarrow>
     bucket_sum m_TradeCount s k = int (length (hour_group k rows))
     \<and> bucket_sum m_WinCount s k = int (length (filter (\<lambda>r. Outcome r = Some ''win'') (hour_group k rows)))
     \<and> bucket_sum m_LossCount s k = int (length (filter (\<lambda>r. Outcome r \<noteq> Some ''win'') (hour_group k rows)))
     \<and> bucket_sum m_RevengeCount s k = int (length (filter RevengeFlag (hour_group k rows)))
     \<and> bucket_sum m_TotalPnl s k = sum_list (map pnl_or_0 (hour_group k rows))"

text \<open>The ledger fits the columns of a bucket.\<close>

definition ledger_room :: "time \<times> string \<Rightarrow> rat Trade list \<Rightarrow> bool" where
  "ledger_room k rows \<longleftrightarrow>
     int (length rows) < 2 ^ 31 \<and> sum_list (map (\<lambda>r. \<bar>pnl_or_0 r\<bar>) (hour_group k rows)) < 10 ^ 10"

lemma hour_group_simps [simp]:
  "hour_group k [] = []"
  "hour_group k (r # rows) = (if Status r = ''closed'' \<and> (time_truncate (EntryAt r) hour, UserID r) = k
     then r # hour_group k rows else hour_group k rows)"
  "hour_group k (rows @ rows') = hour_group k rows @ hour_group k rows'"
  by (simp_all add: hour_group_def)

lemma hour_group_length: "length (hour_group k rows) \<le> length rows"
  by (simp add: hour_group_def)

text \<open>The grouping query does not depend on the order of the rows.\<close>

lemma hour_group_mset: "mset (hour_group k rows) = filter_mset (\<lambda>r. Status r = ''closed'' \<and> (time_truncate (EntryAt r) hour, UserID r) = k) (mset rows)"
  by (simp add: hour_group_def)

lemma length_filter_mset: "length (filter P xs) = size (filter_mset P (mset xs))"
  by (metis mset_filter size_mset)

lemma sum_list_mset: "sum_list (map f xs) = sum_mset (image_mset f (mset xs))"
  for f :: "'a \<Rightarrow> 'n::comm_monoid_add"
  by (metis mset_map sum_mset_sum_list)

lemma grouping_permuted:
  assumes "mset rows = mset rows'"
  shows "bucket_agrees k rows s = bucket_agrees k rows' s" "ledger_room k rows = ledger_room k rows'"
proof -
  have m: "mset (hour_group k rows) = mset (hour_group k rows')" by (simp add: hour_group_mset assms)
  have l: "length (hour_group k rows) = length (hour_group k rows')" "length rows = length rows'"
    using m assms by (metis size_mset)+
  show "bucket_agrees k rows s = bucket_agrees k rows' s" "ledger_room k rows = ledger_room k rows'"
    by (simp_all only: bucket_agrees_def ledger_room_def l length_filter_mset [of _ "hour_group k _"]
        sum_list_mset m)
qed

section \<open>The events of stored trades\<close>

text \<open>The event of a row, as the worker receives it, and the bucket row it stands for.\<close>

definition row_event :: "'d decimal_ops \<Rightarrow> rat Trade \<Rightarrow> string strmap" where
  "row_event D r = received D (scanTrade D r)"

definition hour_row :: "rat Trade \<Rightarrow> metrics_row" where
  "hour_row r =
     \<lparr> m_Bucket = time_truncate (EntryAt r) hour, m_UserID = UserID r, m_TradeCount = 1,
       m_WinCount = (if Outcome r = Some ''win'' then 1 else 0),
       m_LossCount = (if Outcome r = Some ''win'' then 0 else 1), m_TotalPnl = pnl_or_0 r,
       m_AvgPlanAdherence = None, m_SessionTiltIndex = None,
       m_RevengeCount = (if RevengeFlag r then 1 else 0), m_OvertradingEvents = 0 \<rparr>"

context backend
begin

text \<open>The hour of a storable time is storable.\<close>

lemma hour_timestamptz:
  assumes "rfc3339_range t"
  shows "pg_timestamptz T (time_truncate t hour) = Some (time_truncate t hour)"
proof (rule timestamptz_exact)
  show "rfc3339_range (time_truncate t hour)"
    using assms by (simp add: rfc3339_range_def year_of_truncate_hour)
  have "0 < hour" by (simp add: duration_defs)
  then have "time_truncate t hour = 1000 * (zero_time div 1000 + 3600000000 * ((t - zero_time) div hour))"
    by (simp add: time_truncate_mult duration_defs zero_time_def)
  then show "time_truncate t hour mod 1000 = 0" by (simp only: mod_mult_self1_is_0)
qed

lemma row_event_row:
  assumes ok: "trade_row_ok T s r" and t: "rfc3339_range (EntryAt r)"
  shows "event_row T D (row_event D r) =
    (if Status r = ''closed'' then map_option (\<lambda>p. (hour_row r)\<lparr>m_TotalPnl := p\<rparr>) (pg_numeric18_8 T (pnl_or_0 r)) else None)"
proof -
  have p: "dec_value D (opt_else (dec_zero D) (map_option (dec_scan D) (PnL r))) = pnl_or_0 r"
    using ok value_scan value_zero by (cases "PnL r") (auto simp: trade_row_ok_def pnl_or_0_def)
  have u: "pg_uuid T (UserID r) = Some (UserID r)" using ok by (simp add: trade_row_ok_def)
  have "rfc3339_range (EntryAt (scanTrade D r))" using t by simp
  note e = event_row_of_trade [OF decimal_axioms this, of T, folded row_event_def]
  show ?thesis
    by (cases "pg_numeric18_8 T (pnl_or_0 r)")
      (simp_all add: e metrics_to_row_def u p hour_timestamptz [OF t] hour_row_def opt_col_def)
qed

lemma row_event_sum:
  fixes f :: "metrics_row \<Rightarrow> 'n::comm_monoid_add"
  assumes ok: "trade_row_ok T s r" and t: "rfc3339_range (EntryAt r)"
    and p: "(time_truncate (EntryAt r) hour, UserID r) = k \<Longrightarrow> Status r = ''closed'' \<Longrightarrow> \<bar>pnl_or_0 r\<bar> < 10 ^ 10"
  shows "row_sum f (event_row T D (row_event D r)) k = sum_list (map (f \<circ> hour_row) (hour_group k [r]))"
proof (cases "Status r = ''closed'' \<and> (time_truncate (EntryAt r) hour, UserID r) = k")
  case True
  have "scale8 (pnl_or_0 r)" using ok by (cases "PnL r") (auto simp: trade_row_ok_def pnl_or_0_def)
  with p True have "pg_numeric18_8 T (pnl_or_0 r) = Some (pnl_or_0 r)" by (intro numeric_exact) auto
  moreover have "(hour_row r)\<lparr>m_TotalPnl := pnl_or_0 r\<rparr> = hour_row r" by (simp add: hour_row_def)
  moreover have "metrics_key (hour_row r) = k" using True by (simp add: metrics_key_def hour_row_def)
  ultimately show ?thesis using True by (simp add: row_event_row [OF ok t] row_sum_def)
next
  case False
  have "metrics_key ((hour_row r)\<lparr>m_TotalPnl := q\<rparr>) = (time_truncate (EntryAt r) hour, UserID r)" for q
    by (simp add: metrics_key_def hour_row_def)
  with False show ?thesis
    by (auto simp: row_event_row [OF ok t] row_sum_def split: option.splits)
qed

end

section \<open>Summing the events\<close>

lemma hour_row_sums:
  "sum_list (map (m_TradeCount \<circ> hour_row) g) = int (length g)"
  "sum_list (map (m_WinCount \<circ> hour_row) g) = int (length (filter (\<lambda>r. Outcome r = Some ''win'') g))"
  "sum_list (map (m_LossCount \<circ> hour_row) g) = int (length (filter (\<lambda>r. Outcome r \<noteq> Some ''win'') g))"
  "sum_list (map (m_RevengeCount \<circ> hour_row) g) = int (length (filter RevengeFlag g))"
  "sum_list (map (m_TotalPnl \<circ> hour_row) g) = sum_list (map pnl_or_0 g)"
  "sum_list (map ((\<lambda>r. \<bar>m_TotalPnl r\<bar>) \<circ> hour_row) g) = sum_list (map (\<lambda>r. \<bar>pnl_or_0 r\<bar>) g)"
  by (induction g) (simp_all add: hour_row_def)

lemma abs_row_sum: "\<bar>row_sum m_TotalPnl row k\<bar> = row_sum (\<lambda>r. \<bar>m_TotalPnl r\<bar>) row k"
  by (simp add: row_sum_def split: option.splits)

lemma member_le_abs_sum: "x \<in> set xs \<Longrightarrow> \<bar>f x :: rat\<bar> \<le> sum_list (map (\<lambda>x. \<bar>f x\<bar>) xs)"
proof (induction xs)
  case (Cons a xs)
  have "0 \<le> sum_list (map (\<lambda>x. \<bar>f x\<bar>) xs)" by (rule sum_list_nonneg) auto
  with Cons show ?case by auto
qed simp

text \<open>Rows that the worker can count: stored rows whose entry times can be printed.\<close>

definition countable_rows :: "pg_types \<Rightarrow> db \<Rightarrow> rat Trade list \<Rightarrow> bool" where
  "countable_rows T s rows \<longleftrightarrow> list_all (\<lambda>r. trade_row_ok T s r \<and> rfc3339_range (EntryAt r)) rows"

lemma countable_rows_mset: "mset rows = mset rows' \<Longrightarrow> countable_rows T s rows = countable_rows T s rows'"
  by (simp add: countable_rows_def list_all_iff) (metis set_mset_mset)

context backend
begin

lemma rows_sum:
  fixes f :: "metrics_row \<Rightarrow> 'n::comm_monoid_add"
  assumes "countable_rows T s rows" "\<And>r. r \<in> set (hour_group k rows) \<Longrightarrow> \<bar>pnl_or_0 r\<bar> < 10 ^ 10"
  shows "sum_list (map (\<lambda>v. row_sum f (event_row T D v) k) (map (row_event D) rows))
      = sum_list (map (f \<circ> hour_row) (hour_group k rows))"
  using assms
proof (induction rows)
  case (Cons r rows)
  have r: "trade_row_ok T s r" "rfc3339_range (EntryAt r)" and rows: "countable_rows T s rows"
    using Cons.prems(1) by (simp_all add: countable_rows_def)
  have "row_sum f (event_row T D (row_event D r)) k = sum_list (map (f \<circ> hour_row) (hour_group k [r]))"
    by (rule row_event_sum [OF r]) (use Cons.prems(2) in auto)
  moreover have "sum_list (map (\<lambda>v. row_sum f (event_row T D v) k) (map (row_event D) rows))
      = sum_list (map (f \<circ> hour_row) (hour_group k rows))"
    by (rule Cons.IH [OF rows]) (use Cons.prems(2) in \<open>simp split: if_splits\<close>)
  ultimately show ?case by (simp add: comp_def)
qed simp

text \<open>The events of rows that the grouping query has room for fit their bucket.\<close>

lemma ledger_room_bucket:
  assumes agree: "bucket_agrees k counted s" and room: "ledger_room k (counted @ rest)"
    and rows: "countable_rows T s' rest" and vs: "mset vs = mset (map (row_event D) rest)"
  shows "bucket_room T D s k vs"
proof -
  let ?pnl = "\<lambda>rows. sum_list (map (\<lambda>r. \<bar>pnl_or_0 r\<bar>) (hour_group k rows))"
  have nn: "0 \<le> ?pnl rows" for rows by (rule sum_list_nonneg) auto
  have sum: "?pnl counted + ?pnl rest < 10 ^ 10" using room by (simp add: ledger_room_def)
  have "\<bar>pnl_or_0 r\<bar> < 10 ^ 10" if "r \<in> set (hour_group k rest)" for r
    using member_le_abs_sum [OF that, of pnl_or_0] sum nn [of counted] by linarith
  note abs = rows_sum [where f = "\<lambda>r. \<bar>m_TotalPnl r\<bar>", OF rows this, unfolded hour_row_sums]
  have "sum_list (map (\<lambda>v. \<bar>row_sum m_TotalPnl (event_row T D v) k\<bar>) vs)
      = sum_list (map (\<lambda>v. row_sum (\<lambda>r. \<bar>m_TotalPnl r\<bar>) (event_row T D v) k) (map (row_event D) rest))"
    unfolding abs_row_sum sum_list_mset vs ..
  then have pnl: "sum_list (map (\<lambda>v. \<bar>row_sum m_TotalPnl (event_row T D v) k\<bar>) vs) = ?pnl rest"
    using abs by simp
  have "\<bar>bucket_sum m_TotalPnl s k\<bar> \<le> ?pnl counted"
    using agree sum_list_abs [of "map pnl_or_0 (hour_group k counted)"] by (simp add: bucket_agrees_def comp_def)
  moreover have len: "length vs = length rest" using vs by (metis length_map size_mset)
  moreover have "bucket_sum m_TradeCount s k \<le> int (length counted)"
    using agree hour_group_length [of k counted] by (simp add: bucket_agrees_def)
  moreover have "int (length counted) + int (length rest) < 2 ^ 31" using room by (simp add: ledger_room_def)
  ultimately show ?thesis using pnl sum by (simp only: bucket_room_def) linarith
qed

lemma caught_up_agrees:
  assumes agree: "bucket_agrees k counted s" and room: "ledger_room k (counted @ rest)"
    and rows: "countable_rows T s' rest" and es: "mset (map snd es) = mset (map (row_event D) rest)"
    and up: "caught_up T D k es s s1"
  shows "bucket_agrees k (counted @ rest) s1"
proof -
  let ?pnl = "\<lambda>rows. sum_list (map (\<lambda>r. \<bar>pnl_or_0 r\<bar>) (hour_group k rows))"
  have nn: "0 \<le> ?pnl rows" for rows by (rule sum_list_nonneg) auto
  have "?pnl counted + ?pnl rest < 10 ^ 10" using room by (simp add: ledger_room_def)
  then have "\<bar>pnl_or_0 r\<bar> < 10 ^ 10" if "r \<in> set (hour_group k rest)" for r
    using member_le_abs_sum [OF that, of pnl_or_0] nn [of counted] by linarith
  note sums = rows_sum [OF rows this, symmetric]
  have e: "entries_sum T D f k es = sum_list (map (f \<circ> hour_row) (hour_group k rest))"
    for f :: "metrics_row \<Rightarrow> 'n::comm_monoid_add"
  proof -
    have "entries_sum T D f k es = sum_list (map (\<lambda>v. row_sum f (event_row T D v) k) (map snd es))"
      by (simp add: entries_sum_def comp_def)
    also have "\<dots> = sum_list (map (\<lambda>v. row_sum f (event_row T D v) k) (map (row_event D) rest))"
      by (simp only: sum_list_mset es)
    finally show ?thesis by (simp only: sums)
  qed
  show ?thesis
    using agree up unfolding caught_up_def bucket_agrees_def e hour_row_sums hour_group_simps
    by (simp add: hour_group_simps)
qed

end

section \<open>A Redis server that answers the API\<close>

locale redis_app = redis_live R entries delivered pending up
  for R :: "'r redis_ops" and entries and delivered and pending and up +
  assumes xadd_live: "up s \<Longrightarrow> \<exists>i s'. rd_xadd R st vs s = (Inr i, s') \<and> up s'"
    and key_live: "up s \<Longrightarrow> up (snd (rd_get R k s))" "up s \<Longrightarrow> up (snd (rd_set R k v ttl s))"
    and get_streams: "entries (snd (rd_get R k s)) = entries s \<and> delivered (snd (rd_get R k s)) = delivered s"
    and set_streams: "entries (snd (rd_set R k v ttl s)) = entries s \<and> delivered (snd (rd_set R k v ttl s)) = delivered s"

interpretation mem: redis_app mem_ops mr_entries mr_delivered "\<lambda>s st g. set (mr_pending s st g)" "\<lambda>s. mr_up s = []"
proof
  note keeps = mr_send_keeps [where V = "\<lambda>s. (mr_entries s, mr_delivered s)"]
  show "mr_entries (snd (rd_get mem_ops k s)) = mr_entries s \<and> mr_delivered (snd (rd_get mem_ops k s)) = mr_delivered s" for k s
    using keeps [of "\<lambda>s. (Inr (live_value mem_kv mr_clock s k), s)" s] by (simp add: mem_ops_def)
  show "mr_entries (snd (rd_set mem_ops k v ttl s)) = mr_entries s \<and> mr_delivered (snd (rd_set mem_ops k v ttl s)) = mr_delivered s"
    for k v ttl s
    using keeps [of "\<lambda>s. (Inr (), s\<lparr>mr_kv := (k, (v, mr_clock s + ttl)) # mr_kv s\<rparr>)" s] by (simp add: mem_ops_def)
qed (auto simp: mem_ops_def mr_send_def mem_xadd_def Let_def)

text \<open>The events that a task adds to a stream.\<close>

fun task_events :: "string \<Rightarrow> task \<Rightarrow> string strmap list" where
  "task_events st (PublishTask st' vs) = (if st' = st then [\<lambda>k. map_option arg_string (vs k)] else [])"
| "task_events st _ = []"

lemma trade_tasks_events: "concat (map (task_events StreamName) (trade_tasks D (scanTrade D r))) = [row_event D r]"
  by (auto simp: trade_tasks_def last_loss_task_def publish_task_def window_task_def row_event_def received_def StreamName_def
      split: option.splits)

lemma mset_concat_map: "mset ts = mset us \<Longrightarrow> mset (concat (map g ts)) = mset (concat (map g us))"
  by (metis mset_concat mset_map sum_mset_sum_list)

text \<open>The goroutines of a stored trade run in any order; its one event is published.\<close>

lemma shuffled_events:
  assumes "mset ts = mset (trade_tasks D (scanTrade D r))"
  shows "concat (map (task_events StreamName) ts) = [row_event D r]"
proof -
  have "mset (concat (map (task_events StreamName) ts)) = {#row_event D r#}"
    using mset_concat_map [OF assms, of "task_events StreamName"] by (simp add: trade_tasks_events)
  then show ?thesis by simp
qed

context redis_app
begin

lemma run_task_live:
  assumes "up (w_redis w)"
  shows "up (w_redis (run_task R t w)) \<and> delivered (w_redis (run_task R t w)) = delivered (w_redis w)
    \<and> map snd (entries (w_redis (run_task R t w)) st) = map snd (entries (w_redis w) st) @ task_events st t"
proof (cases t)
  case (SetLastLossTask u n)
  then show ?thesis using key_live(2) [OF assms] set_streams by (simp add: SetLastLoss_def)
next
  case (PublishTask st' vs)
  obtain i s' where x: "rd_xadd R st' vs (w_redis w) = (Inr i, s')" "up s'" using xadd_live [OF assms] by blast
  with xadd_ok [OF x(1)] show ?thesis by (simp add: PublishTask Stream_Add_def)
next
  case (AddNXTask k x m)
  then show ?thesis using zset_live(1) [OF assms] zaddnx_streams by (simp add: ZSet_AddNX_def)
next
  case (CacheSetTask k b)
  then show ?thesis using key_live(2) [OF assms] set_streams by (simp add: Cache_Set_def)
qed

lemma run_tasks_live:
  "up (w_redis w) \<Longrightarrow> up (w_redis (foldl (\<lambda>w t. run_task R t w) w ts))
    \<and> w_db (foldl (\<lambda>w t. run_task R t w) w ts) = w_db w
    \<and> delivered (w_redis (foldl (\<lambda>w t. run_task R t w) w ts)) = delivered (w_redis w)
    \<and> map snd (entries (w_redis (foldl (\<lambda>w t. run_task R t w) w ts)) st)
        = map snd (entries (w_redis w) st) @ concat (map (task_events st) ts)"
proof (induction ts arbitrary: w)
  case (Cons t ts)
  from run_task_live [OF Cons.prems, of t st] Cons.IH [of "run_task R t w"] show ?case by simp
qed simp

lemma check_revenge_live:
  assumes "up (w_redis w)" "check_revenge R t w = (t', w1)"
  shows "w_db w1 = w_db w \<and> up (w_redis w1) \<and> delivered (w_redis w1) = delivered (w_redis w)
    \<and> entries (w_redis w1) = entries (w_redis w) \<and> TradeID t' = TradeID t"
proof (cases "EmotionalState t")
  case (Some e)
  obtain x w2 where l: "on_redis (GetLastLoss R (UserID t)) w = (x, w2)" by fastforce
  have "w2 = w\<lparr>w_redis := snd (GetLastLoss R (UserID t) (w_redis w))\<rparr>"
    using l by (auto simp: on_redis_def split: prod.splits)
  moreover have "snd (GetLastLoss R u s) = snd (rd_get R (last_loss_key u) s)" for u s
    by (simp add: GetLastLoss_def split: prod.splits sum.splits option.splits bool.splits)
  ultimately have "w_db w2 = w_db w \<and> up (w_redis w2) \<and> delivered (w_redis w2) = delivered (w_redis w)
    \<and> entries (w_redis w2) = entries (w_redis w)"
    using key_live(1) [OF assms(1)] get_streams by simp
  then show ?thesis using assms(2) Some l by (auto simp: check_revenge_def split: sum.splits if_splits)
qed (use assms in \<open>simp add: check_revenge_def\<close>)

end

section \<open>A sequence of POSTs\<close>

text \<open>A request, its context, and the order in which the tasks of its response happen to run.\<close>

type_synonym post = "request \<times> reqctx \<times> (task list \<Rightarrow> task list)"

definition post_trade ::
  "pg_types \<Rightarrow> 'd decimal_ops \<Rightarrow> 'r redis_ops \<Rightarrow> (string \<Rightarrow> string + 'd TradeInput) \<Rightarrow> 'r world \<Rightarrow> post \<Rightarrow> 'r world" where
  "post_trade T D R decode w p =
     (case p of (r, c, order) \<Rightarrow>
        (case Trade_Create T D R decode r c w of
           ((resp, tasks), w1) \<Rightarrow> foldl (\<lambda>w t. run_task R t w) w1 (order tasks)))"

text \<open>The keys that the bodies name.\<close>

definition posted_ids :: "pg_types \<Rightarrow> (string \<Rightarrow> string + 'd TradeInput) \<Rightarrow> post list \<Rightarrow> string list" where
  "posted_ids T decode posts =
     List.map_filter (\<lambda>p. case decode (rq_body (fst p)) of Inl _ \<Rightarrow> None | Inr input \<Rightarrow> pg_uuid T (TradeID input)) posts"

definition shuffles :: "post \<Rightarrow> bool" where
  "shuffles p \<longleftrightarrow> (\<forall>ts. mset (snd (snd p) ts) = mset ts)"

text \<open>What POSTs have added: rows at the end of the ledger, and as many events to the stream.\<close>


context redis_app
begin

definition added :: "'d decimal_ops \<Rightarrow> rat Trade list \<Rightarrow> 'r world \<Rightarrow> 'r world \<Rightarrow> bool" where
  "added D rest w w' \<longleftrightarrow>
     w_db w' = (w_db w)\<lparr>trades := trades (w_db w) @ rest\<rparr> \<and> up (w_redis w')
     \<and> delivered (w_redis w') = delivered (w_redis w)
     \<and> map snd (entries (w_redis w') StreamName) = map snd (entries (w_redis w) StreamName) @ map (row_event D) rest"

lemma added_trans: "added D xs w w1 \<Longrightarrow> added D ys w1 w2 \<Longrightarrow> added D (xs @ ys) w w2"
  by (simp add: added_def)

lemma added_tasks:
  assumes "added D [] w w1" "w_db w2 = (w_db w1)\<lparr>trades := trades (w_db w1) @ rest\<rparr>" "w_redis w2 = w_redis w1"
    and "concat (map (task_events StreamName) ts) = map (row_event D) rest"
  shows "added D rest w (foldl (\<lambda>w t. run_task R t w) w2 ts)"
proof -
  have "up (w_redis w2)" using assms(1,3) by (simp add: added_def)
  from run_tasks_live [OF this, of ts StreamName] assms show ?thesis by (simp add: added_def)
qed

text \<open>A POST that does not repeat a stored ID adds nothing, or one row and its event.\<close>

lemma post_trade_added:
  fixes w :: "'r world"
  assumes live: "up (w_redis w)" "db_up w" and p: "shuffles p"
    and new: "\<And>input u. decode (rq_body (fst p)) = Inr input \<Longrightarrow> pg_uuid T (TradeID input) = Some u \<Longrightarrow>
        u \<notin> TradeID ` set (trades (w_db w))"
  shows "\<exists>rest. added D rest w (post_trade T D R decode w p) \<and> length rest \<le> 1
    \<and> (\<forall>r \<in> set rest. \<exists>t. inserts_row T D t (w_db w) r)
    \<and> set (map TradeID rest) \<subseteq> set (posted_ids T decode [p])"
proof -
  obtain r c order where p_def: "p = (r, c, order)" by (cases p) auto
  have order: "mset (order ts) = mset ts" for ts using p by (simp add: shuffles_def p_def)
  then have none: "order [] = []" by (metis mset_zero_iff)
  have same: "added D [] w w" using live by (simp add: added_def)
  show ?thesis
  proof (rule Create_cases [of T D R decode r c w])
    fix status code resp assume "Trade_Create T D R decode r c w = ((resp, []), w)"
    then have "post_trade T D R decode w p = w" by (simp add: post_trade_def p_def none)
    then show ?thesis using same by (intro exI [of _ "[]"]) simp
  next
    fix input assume acc: "accepted D decode r c input"
      and run: "Trade_Create T D R decode r c w = save_trade T D R input c w"
    obtain t w1 where rev: "check_revenge R (close_trade D (build_trade input)) w = (t, w1)" by fastforce
    note w1 = check_revenge_live [OF live(1) rev]
    have w1_same: "added D [] w w1" using w1 by (simp add: added_def)
    show ?thesis
    proof (rule insert_trade_cases [of T D t "w_db w"])
      fix row assume ins: "inserts_row T D t (w_db w) row"
      let ?w2 = "w1\<lparr>w_db := (w_db w)\<lparr>trades := trades (w_db w) @ [row]\<rparr>\<rparr>"
      have "post_trade T D R decode w p
          = foldl (\<lambda>w t. run_task R t w) ?w2 (order (trade_tasks D (scanTrade D row)))"
        using save_trade_fresh [OF live(2) rev ins] by (simp add: post_trade_def p_def run)
      moreover have "added D [row] w \<dots>"
        by (rule added_tasks [OF w1_same]) (simp_all add: w1 shuffled_events [OF order])
      moreover have "pg_uuid T (TradeID input) = Some (TradeID row)"
        using ins w1 trade_to_row_key [of T D "db_now (w_db w)" t row] by (simp add: inserts_row_def)
      then have "TradeID row \<in> set (posted_ids T decode [p])"
        using acc by (simp add: posted_ids_def map_filter_simps p_def accepted_def)
      ultimately show ?thesis using ins by (intro exI [of _ "[row]"]) auto
    next
      fix row old assume row: "trade_to_row T D (db_now (w_db w)) t = Some row"
        and old: "tbl_lookup TradeID (TradeID row) (trades (w_db w)) = Some old"
      have "pg_uuid T (TradeID input) = Some (TradeID row)" using trade_to_row_key [OF row] w1 by simp
      moreover have "TradeID row \<in> TradeID ` set (trades (w_db w))"
        using tbl_lookup_Some [OF old] by (metis imageI)
      ultimately show ?thesis using new [of input "TradeID row"] acc by (simp add: p_def accepted_def)
    next
      fix f assume ref: "insert_trade T D t (w_db w) = (Inl (pg_error T f), w_db w)"
      have "w1\<lparr>w_db := w_db w\<rparr> = w1" using w1 by (cases w1) simp
      then have "on_db (Upsert T D t) w1 = (Inl (pg_error T f), w1)"
        using ref w1 live(2) by (simp add: on_db_def Upsert_def)
      then have "post_trade T D R decode w p = w1" by (simp add: post_trade_def p_def run save_trade_def rev none)
      with w1_same show ?thesis by (intro exI [of _ "[]"]) simp
    qed
  qed
qed

end

text \<open>A sequence of POSTs none of which repeats an ID.\<close>

lemma posted_ids_Cons: "posted_ids T decode (p # posts) = posted_ids T decode [p] @ posted_ids T decode posts"
  by (simp add: posted_ids_def map_filter_simps split: option.splits)

lemma distinct_middle:
  "distinct (xs @ ys @ zs) \<Longrightarrow> set us \<subseteq> set ys \<Longrightarrow> distinct us \<Longrightarrow> distinct (xs @ us @ zs)"
  by auto

lemma posted_id_fresh:
  assumes "distinct (map TradeID rows @ posted_ids T decode (p # posts))"
    and "decode (rq_body (fst p)) = Inr input" "pg_uuid T (TradeID input) = Some u"
  shows "u \<notin> TradeID ` set rows"
  using assms by (auto simp: posted_ids_def map_filter_simps)

context redis_app
begin

lemma posts_added:
  fixes w :: "'r world"
  assumes "up (w_redis w)" "db_up w" "list_all shuffles posts"
    and "distinct (map TradeID (trades (w_db w)) @ posted_ids T decode posts)"
  shows "\<exists>rest. added D rest w (foldl (post_trade T D R decode) w posts) \<and> length rest \<le> length posts
    \<and> (postgres T \<longrightarrow> trades_ok T (w_db w) \<longrightarrow> trades_ok T (w_db (foldl (post_trade T D R decode) w posts)))"
  using assms
proof (induction posts arbitrary: w)
  case Nil
  then show ?case by (intro exI [of _ "[]"]) (simp add: added_def)
next
  case (Cons p posts)
  let ?w1 = "post_trade T D R decode w p"
  have p: "shuffles p" and ps: "list_all shuffles posts" using Cons.prems(3) by simp_all
  obtain xs where xs: "added D xs w ?w1" "length xs \<le> 1" "\<forall>r \<in> set xs. \<exists>t. inserts_row T D t (w_db w) r"
    "set (map TradeID xs) \<subseteq> set (posted_ids T decode [p])"
    using post_trade_added [where D = D and T = T and decode = decode, OF Cons.prems(1,2) p]
      posted_id_fresh [OF Cons.prems(4)] by blast
  have w1: "up (w_redis ?w1)" "db_up ?w1" "trades (w_db ?w1) = trades (w_db w) @ xs"
    using xs(1) Cons.prems(2) by (simp_all add: added_def)
  have "distinct (map TradeID xs)" using xs(2) by (cases xs) simp_all
  then have "distinct (map TradeID (trades (w_db ?w1)) @ posted_ids T decode posts)"
    unfolding w1(3) map_append append_assoc
    by (rule distinct_middle [OF Cons.prems(4) [unfolded posted_ids_Cons [of T decode p posts]] xs(4)])
  from Cons.IH [OF w1(1,2) ps this] obtain ys where ys: "added D ys ?w1 (foldl (post_trade T D R decode) ?w1 posts)"
    "length ys \<le> length posts"
    "postgres T \<longrightarrow> trades_ok T (w_db ?w1) \<longrightarrow> trades_ok T (w_db (foldl (post_trade T D R decode) ?w1 posts))"
    by blast
  have "trades_ok T (w_db ?w1)" if "postgres T" "trades_ok T (w_db w)"
  proof (cases xs)
    case (Cons r zs)
    then have "xs = [r]" "\<exists>t. inserts_row T D t (w_db w) r" using xs(2,3) by simp_all
    then show ?thesis using xs(1) postgres.trades_ok_append [OF that] by (auto simp: added_def)
  qed (use xs(1) that in \<open>simp add: added_def\<close>)
  then show ?case
    using added_trans [OF xs(1) ys(1)] xs(2) ys(2,3) by (intro exI [of _ "xs @ ys"]) simp
qed

end


text \<open>A run of the worker that drains a backlog of the events of some rows.\<close>

context redis_live
begin

lemma drained_view:
  fixes w :: "'r world" and n and T and D :: "'d decimal_ops"
  defines "w' \<equiv> snd (Run_loop T D R (\<lambda>w. w) n w)"
  assumes be: "backend T D" and w: "up (w_redis w)" "db_up w" "metrics_inv T (w_db w)"
    and view: "bucket_agrees k counted (w_db w)" "ledger_room k (counted @ rest)" "countable_rows T (w_db w) rest"
    and es: "mset (map snd (backlog w)) = mset (map (row_event D) rest)" and len: "length rest \<le> 10 * n"
  shows "trades (w_db w') = trades (w_db w) \<and> backlog w' = [] \<and> bucket_agrees k (counted @ rest) (w_db w')"
proof -
  have "length (backlog w) \<le> 10 * n" using es len by (metis length_map size_mset)
  note up = Run_loop_caught_up [OF be w backend.ledger_room_bucket [OF be view es] this, folded w'_def]
  have "ledger (w_db w') = ledger (w_db w)"
    unfolding w'_def by (rule Run_loop_keeps [where P = "\<lambda>s. ledger s = ledger (w_db w)"]) (simp_all add: handle_message_ledger)
  moreover have "bucket_agrees k (counted @ rest) (w_db w')"
    by (rule backend.caught_up_agrees [OF be view es]) (use up in blast)
  ultimately show ?thesis using up by (simp add: ledger_def)
qed

lemma drained_agrees:
  fixes w :: "'r world" and n and T and D :: "'d decimal_ops"
  defines "w' \<equiv> snd (Run_loop T D R (\<lambda>w. w) n w)"
  assumes be: "backend T D" and w: "up (w_redis w)" "db_up w" "metrics_inv T (w_db w)" "trades_ok T (w_db w)"
    and times: "list_all (\<lambda>r. rfc3339_range (EntryAt r)) (trades (w_db w))"
    and agree: "bucket_agrees k counted (w_db w)"
    and rows: "mset (trades (w_db w)) = mset (counted @ rest)"
    and es: "mset (map snd (backlog w)) = mset (map (row_event D) rest)"
    and room: "ledger_room k (trades (w_db w))" and len: "length rest \<le> 10 * n"
  shows "trades (w_db w') = trades (w_db w) \<and> backlog w' = [] \<and> bucket_agrees k (trades (w_db w')) (w_db w')"
proof -
  have "countable_rows T (w_db w) (counted @ rest)"
    using w(4) times countable_rows_mset [OF rows, of T "w_db w"]
    by (simp add: trades_ok_def countable_rows_def list_all_iff)
  then have "countable_rows T (w_db w) rest" by (simp add: countable_rows_def)
  from drained_view [OF be w(1-3) agree room [unfolded grouping_permuted(2) [OF rows]] this es len, folded w'_def]
  show ?thesis by (simp add: grouping_permuted(1) [OF rows])
qed

end

text \<open>A bucket cannot agree with the ledger and with the ledger and one more row of its group.\<close>

lemma agrees_again:
  assumes "bucket_agrees k (rows @ [r]) s"
  shows "bucket_agrees k rows s = (hour_group k [r] = [])"
proof (cases "hour_group k [r] = []")
  case True
  then have "hour_group k (rows @ [r]) = hour_group k rows" by (simp split: if_splits)
  with True assms show ?thesis by (simp add: bucket_agrees_def)
next
  case False
  then have "length (hour_group k (rows @ [r])) = Suc (length (hour_group k rows))" by (simp split: if_splits)
  with False assms show ?thesis by (simp add: bucket_agrees_def)
qed

section \<open>Properties\<close>

text \<open>
  C4: The worker's buckets are the grouping query over the ledger. Let the hourly bucket of a user
  agree with what \<open>GROUP BY\<close> would compute from some of the stored trades (none, say), and let the
  unread part of the stream hold one event of each other stored trade, in any order. Then once the
  worker has polled often enough, the bucket agrees with the whole ledger - its trade, win, loss
  and revenge counts and the exact sum of its P\&L - and the worker has not touched a trade. (On
  servers that answer; the entry times must have years that RFC 3339 can print and the columns
  must have room for the ledger.)
\<close>

theorem buckets_equal_ledger:
  fixes w :: "'r world"
  assumes "redis_live R entries delivered pending up" "postgres T" "decimal D"
    and "up (w_redis w)" "db_up w" "metrics_inv T (w_db w)" "trades_ok T (w_db w)"
    and "list_all (\<lambda>r. rfc3339_range (EntryAt r)) (trades (w_db w))"
    and "bucket_agrees k counted (w_db w)" "mset (trades (w_db w)) = mset (counted @ rest)"
    and "mset (map snd (drop (delivered (w_redis w) StreamName GroupName) (entries (w_redis w) StreamName)))
        = mset (map (row_event D) rest)"
    and "ledger_room k (trades (w_db w))" "length rest \<le> 10 * n"
    and "w' = snd (Run_loop T D R (\<lambda>w. w) n w)"
  shows "trades (w_db w') = trades (w_db w) \<and> bucket_agrees k (trades (w_db w')) (w_db w')"
proof -
  have "mset (map snd (redis_live.backlog entries delivered w)) = mset (map (row_event D) rest)"
    using assms(11) by (simp add: redis_live.backlog_def [OF assms(1)])
  from redis_live.drained_agrees [OF assms(1) backend.intro [OF assms(2,3)] assms(4-10) this assms(12,13)]
  show ?thesis unfolding assms(14) by blast
qed

definition ex_published :: "mem_redis world" where
  "ex_published = ex_traded\<lparr>w_redis := (mem_init ex_time)
     \<lparr>mr_entries := (\<lambda>_. [(''1-0'', row_event ref_decimal ex_trade)])\<rparr>\<rparr>"

abbreviation ex_hour :: "time \<times> string" where "ex_hour \<equiv> (ex_time - 900 * second, alice)"

lemma ex_hour_group: "hour_group ex_hour [ex_trade] = [ex_trade]"
  by (simp add: ex_trade_def) (simp add: time_truncate_def ex_time_def zero_time_def duration_defs)

theorem buckets_equal_ledger_witness:
  "bucket_agrees ex_hour [ex_trade] (w_db (snd (Run_loop ref_pg ref_decimal mem_ops (\<lambda>w. w) 1 ex_published)))
   \<and> hour_group ex_hour [ex_trade] = [ex_trade]"
proof -
  let ?w = ex_published
  have up: "mr_up (w_redis ?w) = []" "db_up ?w" by (simp_all add: ex_published_def ex_traded_def ex_defs)
  have db: "w_db ?w = w_db ex_traded" by (simp add: ex_published_def)
  have inv: "metrics_inv ref_pg (w_db ?w)" by (simp add: db ex_traded_def ex_defs metrics_inv_def metrics_ok_def)
  have ok: "trades_ok ref_pg (w_db ?w)" unfolding db by code_simp
  have t: "trades (w_db ?w) = [ex_trade]" by (simp add: db ex_traded_def)
  have times: "list_all (\<lambda>r. rfc3339_range (EntryAt r)) (trades (w_db ?w))" unfolding t by code_simp
  have agree: "bucket_agrees ex_hour [] (w_db ?w)"
    by (simp add: db bucket_agrees_def bucket_sum_def ex_traded_def ex_db_def)
  have rows: "mset (trades (w_db ?w)) = mset ([] @ [ex_trade])" by (simp add: t)
  have es: "mset (map snd (drop (mr_delivered (w_redis ?w) StreamName GroupName) (mr_entries (w_redis ?w) StreamName)))
      = mset (map (row_event ref_decimal) [ex_trade])"
    by (simp add: ex_published_def mem_init_def)
  have room: "ledger_room ex_hour (trades (w_db ?w))" unfolding t by code_simp
  have "length [ex_trade] \<le> 10 * 1" by simp
  from buckets_equal_ledger [OF mem.redis_live_axioms ref_pg.postgres_axioms ref.decimal_axioms up inv ok times agree rows es room this refl]
  show ?thesis unfolding t by (elim conjE) (simp only: ex_hour_group simp_thms)
qed

text \<open>
  C3: From the request to the metrics: start with a system that has caught up (every entry
  delivered, the bucket equal to the grouping of the ledger), send it any POSTs, valid or not,
  that do not repeat a trade ID, run the tasks of each response in any order, and let the worker
  poll once for every ten of them. Then everything has been delivered again, the bucket equals the
  grouping of the ledger that the POSTs left, and no earlier trade has changed. (Stated for servers
  that answer, entry times that RFC 3339 can print and room in the columns of the bucket.)
\<close>

theorem posts_reach_buckets:
  fixes w :: "'r world"
  assumes "redis_app R entries delivered pending up" "postgres T" "decimal D"
    and "up (w_redis w)" "db_up w" "metrics_inv T (w_db w)" "trades_ok T (w_db w)"
    and "delivered (w_redis w) StreamName GroupName = length (entries (w_redis w) StreamName)"
    and "bucket_agrees k (trades (w_db w)) (w_db w)"
    and "list_all shuffles posts" "distinct (map TradeID (trades (w_db w)) @ posted_ids T decode posts)"
    and "w1 = foldl (post_trade T D R decode) w posts"
    and "list_all (\<lambda>r. rfc3339_range (EntryAt r)) (trades (w_db w1))" "ledger_room k (trades (w_db w1))"
    and "length posts \<le> 10 * n" "w' = snd (Run_loop T D R (\<lambda>w. w) n w1)"
  shows "length (entries (w_redis w') StreamName) \<le> delivered (w_redis w') StreamName GroupName
    \<and> (\<exists>rest. trades (w_db w') = trades (w_db w) @ rest) \<and> trades (w_db w') = trades (w_db w1)
    \<and> bucket_agrees k (trades (w_db w')) (w_db w')"
proof -
  have live: "redis_live R entries delivered pending up" using assms(1) by (simp add: redis_app_def)
  obtain rest where rest: "redis_app.added entries delivered up D rest w w1" "length rest \<le> length posts"
    "trades_ok T (w_db w1)"
    using redis_app.posts_added [OF assms(1,4,5,10,11), of D] assms(2,7) by (auto simp: assms(12))
  then have w1: "w_db w1 = (w_db w)\<lparr>trades := trades (w_db w) @ rest\<rparr>" "up (w_redis w1)"
    "delivered (w_redis w1) = delivered (w_redis w)"
    "map snd (entries (w_redis w1) StreamName) = map snd (entries (w_redis w) StreamName) @ map (row_event D) rest"
    by (simp_all add: redis_app.added_def [OF assms(1)])
  have same: "behavioral_metrics (w_db w1) = behavioral_metrics (w_db w)" "db_up w1"
    and t: "trades (w_db w1) = trades (w_db w) @ rest"
    using assms(5) by (simp_all add: w1(1))
  have inv: "metrics_inv T (w_db w1)" using assms(6) metrics_inv_cong [OF same(1)] by blast
  have agree: "bucket_agrees k (trades (w_db w)) (w_db w1)"
    using assms(9) same(1) by (simp add: bucket_agrees_def bucket_sum_def)
  have "map snd (redis_live.backlog entries delivered w1) = map (row_event D) rest"
    unfolding redis_live.backlog_def [OF live] drop_map [symmetric] w1(3,4) assms(8) by simp
  then have es: "mset (map snd (redis_live.backlog entries delivered w1)) = mset (map (row_event D) rest)" by simp
  have rows: "mset (trades (w_db w1)) = mset (trades (w_db w) @ rest)" by (simp only: t)
  have "length rest \<le> 10 * n" using rest(2) assms(15) by linarith
  from redis_live.drained_agrees [OF live backend.intro [OF assms(2,3)] w1(2) same(2) inv rest(3) assms(13) agree rows es assms(14) this]
  show ?thesis
    unfolding assms(16) redis_live.backlog_def [OF live] by (elim conjE, intro conjI exI [of _ rest]) (simp_all add: t)
qed

definition ex_posts :: "post list" where "ex_posts = [(ex_request, as_user alice, rev)]"

lemma foldl_tasks_db: "w_db (foldl (\<lambda>w t. run_task R t w) w ts) = w_db w"
  by (induction ts arbitrary: w) simp_all

lemma post_trade_db: "w_db (post_trade T D R decode w (r, c, order)) = w_db (snd (Trade_Create T D R decode r c w))"
  by (simp add: post_trade_def foldl_tasks_db split: prod.splits)

lemma ex_posted:
  obtains row where "trades (w_db (foldl (post_trade ref_pg ref_decimal mem_ops ex_decode) ex_world ex_posts)) = [row]"
    "UserID row = alice" "Status row = ''closed''" "EntryAt row = ex_time" "PnL row = Some (- 20)"
proof -
  let ?t = "close_trade ref_decimal (build_trade ex_input)"
  obtain row where row: "trade_to_row ref_pg ref_decimal ex_time ?t = Some row" "TradeID row = ex_trade_id"
    "UserID row = alice" "SessionID row = alice_session" "trade_check row"
    by (rule ex_row)
  have "map_option (\<lambda>row. (Status row, EntryAt row, PnL row)) (trade_to_row ref_pg ref_decimal ex_time ?t)
      = Some (''closed'', ex_time, Some (- 20))"
    by code_simp
  then have f: "Status row = ''closed''" "EntryAt row = ex_time" "PnL row = Some (- 20)" using row(1) by simp_all
  obtain b w1 where rev: "check_revenge mem_ops ?t ex_world = (?t\<lparr>RevengeFlag := b\<rparr>, w1)" using check_revenge_cases by blast
  have "inserts_row ref_pg ref_decimal (?t\<lparr>RevengeFlag := b\<rparr>) (w_db ex_world) (row\<lparr>RevengeFlag := b\<rparr>)"
    using trade_to_row_flag [OF row(1), of b] row
    by (simp add: inserts_row_def trade_check_def trade_fk_def ex_world_def ex_db_def)
  note ins = this
  have up: "db_up ex_world" by (simp add: ex_defs)
  have "trades (w_db (foldl (post_trade ref_pg ref_decimal mem_ops ex_decode) ex_world ex_posts)) = [row\<lparr>RevengeFlag := b\<rparr>]"
    using save_trade_fresh [OF up rev ins, of "as_user alice"]
    by (simp add: ex_posts_def post_trade_db Create_accepted [OF ex_accepted]) (simp add: ex_world_def ex_db_def)
  then show thesis by (rule that) (simp_all add: row f)
qed

theorem posts_reach_buckets_witness:
  "bucket_sum m_TradeCount (w_db (snd (Run_loop ref_pg ref_decimal mem_ops (\<lambda>w. w) 1
      (foldl (post_trade ref_pg ref_decimal mem_ops ex_decode) ex_world ex_posts)))) ex_hour = 1"
proof -
  define w1 where "w1 = foldl (post_trade ref_pg ref_decimal mem_ops ex_decode) ex_world ex_posts"
  have up: "mr_up (w_redis ex_world) = []" "db_up ex_world" by (simp_all add: ex_defs)
  have inv: "metrics_inv ref_pg (w_db ex_world)" by (simp add: ex_defs metrics_inv_def metrics_ok_def)
  have ok: "trades_ok ref_pg (w_db ex_world)" by (simp add: ex_defs trades_ok_def)
  have dlv: "mr_delivered (w_redis ex_world) StreamName GroupName = length (mr_entries (w_redis ex_world) StreamName)"
    by (simp add: ex_defs)
  have agree: "bucket_agrees ex_hour (trades (w_db ex_world)) (w_db ex_world)"
    by (simp add: bucket_agrees_def bucket_sum_def ex_world_def ex_db_def)
  have sh: "list_all shuffles ex_posts" by (simp add: ex_posts_def shuffles_def)
  have ids: "distinct (map TradeID (trades (w_db ex_world)) @ posted_ids ref_pg ex_decode ex_posts)"
    by (simp add: posted_ids_def ex_posts_def ex_world_def ex_db_def map_filter_simps split: sum.splits option.splits)
  obtain row where row: "trades (w_db w1) = [row]" "UserID row = alice" "Status row = ''closed''" "EntryAt row = ex_time"
    "PnL row = Some (- 20)"
    unfolding w1_def by (rule ex_posted)
  have h: "time_truncate ex_time hour = ex_time - 900 * second"
    by (simp add: time_truncate_def ex_time_def zero_time_def duration_defs)
  have "rfc3339_range ex_time" by code_simp
  then have times: "list_all (\<lambda>r. rfc3339_range (EntryAt r)) (trades (w_db w1))" by (simp add: row)
  have one: "hour_group ex_hour (trades (w_db w1)) = [row]" by (simp add: row h)
  have room: "ledger_room ex_hour (trades (w_db w1))" unfolding ledger_room_def one by (simp add: row pnl_or_0_def)
  have "length ex_posts \<le> 10 * 1" by (simp add: ex_posts_def)
  from posts_reach_buckets [OF mem.redis_app_axioms ref_pg.postgres_axioms ref.decimal_axioms up inv ok dlv agree sh ids w1_def times room this refl]
  show ?thesis by (elim conjE) (simp add: bucket_agrees_def one flip: w1_def)
qed

text \<open>
  C5: A retried request is counted twice. Take a system that has caught up and a POST of a trade
  that is stored already (a client that did not see the first answer): the ledger stays as it is,
  but the response's goroutine publishes the event again, and after the worker's next poll every
  bucket is what the ledger would give if it held the stored trade a second time - so the bucket of
  a closed trade's hour no longer agrees with the ledger. (Stated for servers that answer, entry
  times that RFC 3339 can print and room in the columns of the bucket.)
\<close>

theorem repeated_post_recounts:
  fixes w :: "'r world"
  assumes "redis_app R entries delivered pending up" "postgres T" "decimal D"
    and "up (w_redis w)" "db_up w" "metrics_inv T (w_db w)" "trades_ok T (w_db w)"
    and "delivered (w_redis w) StreamName GroupName = length (entries (w_redis w) StreamName)"
    and "bucket_agrees k (trades (w_db w)) (w_db w)"
    and "accepted D decode r c input" "mset (order (trade_tasks D (scanTrade D old))) = mset (trade_tasks D (scanTrade D old))"
    and "trade_to_row T D (db_now (w_db w)) (close_trade D (build_trade input)) = Some row" "trade_check row"
    and "tbl_lookup TradeID (TradeID row) (trades (w_db w)) = Some old"
    and "list_all (\<lambda>r. rfc3339_range (EntryAt r)) (trades (w_db w))" "ledger_room k (trades (w_db w) @ [old])"
    and "w' = snd (Run_loop T D R (\<lambda>w. w) 1 (post_trade T D R decode w (r, c, order)))"
  shows "trades (w_db w') = trades (w_db w) \<and> bucket_agrees k (trades (w_db w) @ [old]) (w_db w')
    \<and> bucket_agrees k (trades (w_db w')) (w_db w') = (hour_group k [old] = [])"
proof -
  let ?t = "close_trade D (build_trade input)"
  note app = assms(1)
  have live: "redis_live R entries delivered pending up" using app by (simp add: redis_app_def)
  obtain b w1 where rev: "check_revenge R ?t w = (?t\<lparr>RevengeFlag := b\<rparr>, w1)" using check_revenge_cases by blast
  note w1 = redis_app.check_revenge_live [OF app assms(4) rev]
  have "save_trade T D R input c w = ((respondJSON 200 (PTrade (scanTrade D old)), trade_tasks D (scanTrade D old)), w1)"
    using save_trade_existing [OF assms(5) rev trade_to_row_flag [OF assms(12)]] assms(13,14) by (simp add: trade_check_def)
  then have post: "post_trade T D R decode w (r, c, order)
      = foldl (\<lambda>w t. run_task R t w) w1 (order (trade_tasks D (scanTrade D old)))"
    by (simp add: post_trade_def Create_accepted [OF assms(10)])
  define w2 where "w2 = post_trade T D R decode w (r, c, order)"
  have w2: "up (w_redis w2)" "w_db w2 = w_db w" "delivered (w_redis w2) = delivered (w_redis w)"
    "map snd (entries (w_redis w2) StreamName) = map snd (entries (w_redis w) StreamName) @ [row_event D old]"
    using redis_app.run_tasks_live [OF app, of w1 "order (trade_tasks D (scanTrade D old))" StreamName] w1
    by (simp_all add: w2_def post shuffled_events [OF assms(11)])
  have "map snd (redis_live.backlog entries delivered w2) = map (row_event D) [old]"
    unfolding redis_live.backlog_def [OF live] drop_map [symmetric] w2(3,4) assms(8) by simp
  then have es: "mset (map snd (redis_live.backlog entries delivered w2)) = mset (map (row_event D) [old])" by simp
  have "old \<in> set (trades (w_db w))" using tbl_lookup_Some [OF assms(14)] by blast
  then have rows: "countable_rows T (w_db w2) [old]"
    using assms(7,15) by (simp add: w2(2) countable_rows_def trades_ok_def list_all_iff)
  have "length [old] \<le> 10 * 1" by simp
  from redis_live.drained_view [OF live backend.intro [OF assms(2,3)] w2(1) _ _ _ assms(16) rows es this] assms(5,6,9)
  have "trades (w_db w') = trades (w_db w) \<and> bucket_agrees k (trades (w_db w) @ [old]) (w_db w')"
    by (simp add: w2(2) assms(17) flip: w2_def)
  then show ?thesis using agrees_again by metis
qed

text \<open>Alice's trade is stored and counted, and she posts it again.\<close>

definition ex_counted :: "mem_redis world" where
  "ex_counted = ex_traded\<lparr>w_db := (w_db ex_traded)\<lparr>behavioral_metrics := [hour_row ex_trade]\<rparr>\<rparr>"

theorem repeated_post_recounts_witness:
  "bucket_agrees ex_hour [ex_trade, ex_trade] (w_db (snd (Run_loop ref_pg ref_decimal mem_ops (\<lambda>w. w) 1
      (post_trade ref_pg ref_decimal mem_ops ex_decode ex_counted (ex_request, as_user alice, rev)))))"
proof -
  let ?w = ex_counted and ?t = "close_trade ref_decimal (build_trade ex_input)"
  have up: "mr_up (w_redis ?w) = []" "db_up ?w" by (simp_all add: ex_counted_def ex_traded_def ex_defs)
  have t: "trades (w_db ?w) = [ex_trade]" by (simp add: ex_counted_def ex_traded_def)
  have now: "db_now (w_db ?w) = ex_time" by (simp add: ex_counted_def ex_traded_def ex_db_def)
  have inv: "metrics_inv ref_pg (w_db ?w)" by code_simp
  have ok: "trades_ok ref_pg (w_db ?w)" by code_simp
  have dlv: "mr_delivered (w_redis ?w) StreamName GroupName = length (mr_entries (w_redis ?w) StreamName)"
    by (simp add: ex_counted_def ex_traded_def ex_defs)
  have agree: "bucket_agrees ex_hour (trades (w_db ?w)) (w_db ?w)" unfolding t by code_simp
  have sh: "mset (rev (trade_tasks ref_decimal (scanTrade ref_decimal ex_trade))) = mset (trade_tasks ref_decimal (scanTrade ref_decimal ex_trade))"
    by simp
  obtain row where row: "trade_to_row ref_pg ref_decimal ex_time ?t = Some row" "TradeID row = ex_trade_id" "trade_check row"
    by (rule ex_row)
  have old: "tbl_lookup TradeID (TradeID row) (trades (w_db ?w)) = Some ex_trade" by (simp add: t row ex_trade_def)
  have times: "list_all (\<lambda>r. rfc3339_range (EntryAt r)) (trades (w_db ?w))" unfolding t by code_simp
  have room: "ledger_room ex_hour (trades (w_db ?w) @ [ex_trade])" unfolding t by code_simp
  from repeated_post_recounts [where order = rev and old = ex_trade, OF mem.redis_app_axioms ref_pg.postgres_axioms ref.decimal_axioms up inv ok dlv agree ex_accepted sh
      row(1) [folded now] row(3) old times room refl]
  show ?thesis unfolding t by (elim conjE) (simp only: append_Cons append_Nil)
qed

end
