(* ===== verification/Programs.thy ===== *)
theory Programs
  imports Router Worker
begin

text \<open>
  The handlers and the worker as programs: trees of actions, where each action is one statement
  or command that is sent to a server, and the code between two of them belongs to the action in
  front of it. Run without interference, a program is the handler or the step it is made from.
\<close>

section \<open>Programs\<close>

datatype ('r, 'a) prog = Ret 'a | Act "'r world \<Rightarrow> ('r, 'a) prog \<times> 'r world"

primrec run_prog :: "('r, 'a) prog \<Rightarrow> 'r world \<Rightarrow> 'a \<times> 'r world" where
  "run_prog (Ret a) = (\<lambda>w. (a, w))"
| "run_prog (Act f) = (\<lambda>w. case (map_prod run_prog id \<circ> f) w of (run, w1) \<Rightarrow> run w1)"

definition act_db :: "'a stmt \<Rightarrow> (go_error + 'a \<Rightarrow> ('r, 'b) prog) \<Rightarrow> ('r, 'b) prog" where
  "act_db q k = Act (\<lambda>w. case on_db q w of (x, w1) \<Rightarrow> (k x, w1))"

definition act_redis :: "('r, 'a) rcmd \<Rightarrow> (string + 'a \<Rightarrow> ('r, 'b) prog) \<Rightarrow> ('r, 'b) prog" where
  "act_redis q k = Act (\<lambda>w. case on_redis q w of (x, w1) \<Rightarrow> (k x, w1))"

lemma run_act [simp]:
  "run_prog (act_db q k) w = (case on_db q w of (x, w1) \<Rightarrow> run_prog (k x) w1)"
  "run_prog (act_redis c h) w = (case on_redis c w of (y, w1) \<Rightarrow> run_prog (h y) w1)"
  by (simp_all add: act_db_def act_redis_def split: prod.splits)

section \<open>POST of a trade\<close>

definition Upsert_prog ::
  "pg_types \<Rightarrow> 'd decimal_ops \<Rightarrow> 'd Trade \<Rightarrow> (go_error + 'd Trade \<Rightarrow> ('r, 'b) prog) \<Rightarrow> ('r, 'b) prog" where
  "Upsert_prog T D t k =
     act_db (pg_send T (insert_trade T D t)) (\<lambda>x. case x of
         Inr r \<Rightarrow> k (Inr (scanTrade D r))
       | Inl e \<Rightarrow>
           if error_is e ErrNoRows
           then act_db (pg_send T (select_trade T (TradeID t))) (\<lambda>y. case y of
                  Inr r \<Rightarrow> k (Inr (scanTrade D r)) | Inl e2 \<Rightarrow> k (Inl e2))
           else k (Inl e))"

lemma run_Upsert_prog:
  "run_prog (Upsert_prog T D t k) w = (case on_db (Upsert T D t) w of (x, w1) \<Rightarrow> run_prog (k x) w1)"
  by (auto simp: Upsert_prog_def Upsert_def on_db_def split: prod.splits sum.splits)

definition check_revenge_prog :: "'r redis_ops \<Rightarrow> 'd Trade \<Rightarrow> ('d Trade \<Rightarrow> ('r, 'b) prog) \<Rightarrow> ('r, 'b) prog" where
  "check_revenge_prog R t k =
     (case EmotionalState t of
        None \<Rightarrow> k t
      | Some emotionalState \<Rightarrow>
          act_redis (GetLastLoss R (UserID t)) (\<lambda>x. case x of
              Inr lastLossUnix \<Rightarrow>
                if 0 < lastLossUnix \<and> IsRevenge (time_unix lastLossUnix) (EntryAt t) emotionalState
                then k (t\<lparr>RevengeFlag := True\<rparr>) else k t
            | Inl _ \<Rightarrow> k t))"

lemma run_check_revenge_prog:
  "run_prog (check_revenge_prog R t k) w = (case check_revenge R t w of (t1, w1) \<Rightarrow> run_prog (k t1) w1)"
  by (auto simp: check_revenge_prog_def check_revenge_def split: option.splits prod.splits sum.splits)

type_synonym ('r, 'd) request_prog = "('r, 'd response \<times> task list) prog"

definition save_trade_prog ::
  "pg_types \<Rightarrow> 'd decimal_ops \<Rightarrow> 'r redis_ops \<Rightarrow> 'd TradeInput \<Rightarrow> reqctx \<Rightarrow> ('r, 'd) request_prog" where
  "save_trade_prog T D R input c =
     check_revenge_prog R (close_trade D (build_trade input)) (\<lambda>trade.
       Upsert_prog T D trade (\<lambda>x. Ret (case x of
           Inl err \<Rightarrow>
             (respondError c StatusInternalServerError ''INTERNAL_ERROR''
                (''Failed to save trade: '' @ error_string err), [])
         | Inr result \<Rightarrow>
             (respondJSON StatusOK (PTrade result),
              last_loss_task result @ [publish_task D result, window_task result]))))"

definition Create_prog ::
  "pg_types \<Rightarrow> 'd decimal_ops \<Rightarrow> 'r redis_ops \<Rightarrow> (string \<Rightarrow> string + 'd TradeInput) \<Rightarrow> request \<Rightarrow> reqctx
   \<Rightarrow> ('r, 'd) request_prog" where
  "Create_prog T D R decode r c =
     (case decode (rq_body r) of
        Inl err \<Rightarrow> Ret (respondBadRequest c (''Invalid request body: '' @ err), [])
      | Inr input \<Rightarrow>
          (case Validate D input of
             Some err \<Rightarrow> Ret (respondBadRequest c (error_string err), [])
           | None \<Rightarrow>
               if UserID input \<noteq> UserIDFromContext c then Ret (respondForbidden c, [])
               else save_trade_prog T D R input c))"

lemma run_Create_prog: "run_prog (Create_prog T D R decode r c) w = Trade_Create T D R decode r c w"
  by (auto simp: Create_prog_def Trade_Create_def save_trade_prog_def save_trade_def Let_def
      run_check_revenge_prog run_Upsert_prog split: sum.splits option.splits prod.splits)

section \<open>POST of a debrief\<close>

definition save_debrief_prog ::
  "pg_types \<Rightarrow> (string \<Rightarrow> string + DebriefInput) \<Rightarrow> string \<Rightarrow> request \<Rightarrow> reqctx \<Rightarrow> ('r, 'd) request_prog" where
  "save_debrief_prog T decode sessionID r c =
     (case decode (rq_body r) of
        Inl err \<Rightarrow> Ret (respondBadRequest c ''Invalid request body'', [])
      | Inr input \<Rightarrow>
          if \<not> IsValidEmotionalState (di_OverallMood input)
          then Ret (respondBadRequest c ''Invalid overallMood'', [])
          else act_db (InsertDebrief T sessionID (debrief_of_input input)) (\<lambda>x. Ret (case x of
                   Inl err \<Rightarrow>
                     (respondError c StatusInternalServerError ''INTERNAL_ERROR'' ''Failed to save debrief'', [])
                 | Inr result \<Rightarrow>
                     (respondJSON StatusCreated
                        (PDebrief (de_DebriefID result) (de_SessionID result) (de_SavedAt result)), []))))"

definition Debrief_prog ::
  "pg_types \<Rightarrow> (string \<Rightarrow> string + DebriefInput) \<Rightarrow> request \<Rightarrow> reqctx \<Rightarrow> ('r, 'd) request_prog" where
  "Debrief_prog T decode r c =
     (let sessionID = URLParam r ''sessionId''
      in act_db (GetSession T sessionID) (\<lambda>x. case x of
             Inl err \<Rightarrow> Ret (session_error c err, [])
           | Inr sess \<Rightarrow>
               if se_UserID sess \<noteq> UserIDFromContext c then Ret (respondForbidden c, [])
               else save_debrief_prog T decode sessionID r c))"

lemma run_Debrief_prog: "run_prog (Debrief_prog T decode r c) w = Session_Debrief T decode r c w"
  by (auto simp: Debrief_prog_def Session_Debrief_def save_debrief_prog_def save_debrief_def Let_def
      split: sum.splits prod.splits)

section \<open>The requests that read\<close>

definition Trade_Get_prog :: "pg_types \<Rightarrow> 'd decimal_ops \<Rightarrow> request \<Rightarrow> reqctx \<Rightarrow> ('r, 'd) request_prog" where
  "Trade_Get_prog T D r c =
     act_db (GetByID T D (URLParam r ''tradeId'')) (\<lambda>x. Ret (case x of
         Inl err \<Rightarrow>
           if error_is err ErrNotFound
           then (respondNotFound c ''Trade with the given tradeId does not exist.'', [])
           else (respondError c StatusInternalServerError ''INTERNAL_ERROR'' ''Failed to fetch trade'', [])
       | Inr trade \<Rightarrow>
           if UserID trade \<noteq> UserIDFromContext c then (respondForbidden c, [])
           else (respondJSON StatusOK (PTrade trade), [])))"

lemma run_Trade_Get_prog: "run_prog (Trade_Get_prog T D r c) w = Trade_Get T D r c w"
  by (simp add: Trade_Get_prog_def Trade_Get_def split: prod.splits sum.splits)

definition GetWithTrades_prog ::
  "pg_types \<Rightarrow> 'd decimal_ops \<Rightarrow> string \<Rightarrow> (go_error + 'd SessionSummary \<Rightarrow> ('r, 'b) prog) \<Rightarrow> ('r, 'b) prog" where
  "GetWithTrades_prog T D sessionID k =
     act_db (GetSession T sessionID) (\<lambda>x. case x of
         Inl e \<Rightarrow> k (Inl e)
       | Inr sess \<Rightarrow>
           act_db (ListBySession T D sessionID) (\<lambda>y. case y of
               Inl e \<Rightarrow> k (Inl e) | Inr ts \<Rightarrow> k (Inr (summarize D sess ts))))"

definition Session_Get_prog :: "pg_types \<Rightarrow> 'd decimal_ops \<Rightarrow> request \<Rightarrow> reqctx \<Rightarrow> ('r, 'd) request_prog" where
  "Session_Get_prog T D r c =
     GetWithTrades_prog T D (URLParam r ''sessionId'') (\<lambda>x. Ret (case x of
         Inl err \<Rightarrow> (session_error c err, [])
       | Inr summary \<Rightarrow>
           if ss_UserID summary \<noteq> UserIDFromContext c then (respondForbidden c, [])
           else (respondJSON StatusOK (PSummary summary), [])))"

lemma run_Session_Get_prog: "run_prog (Session_Get_prog T D r c) w = Session_Get T D r c w"
  by (auto simp: Session_Get_prog_def GetWithTrades_prog_def Session_Get_def GetWithTrades_def on_db_def
      split: prod.splits sum.splits)

definition Coaching_prog ::
  "pg_types \<Rightarrow> (nat \<Rightarrow> bool) \<Rightarrow> bool \<Rightarrow> request \<Rightarrow> reqctx \<Rightarrow> ('r, 'd) request_prog" where
  "Coaching_prog T cancelled flusher r c =
     act_db (GetSession T (URLParam r ''sessionId'')) (\<lambda>x. Ret (case x of
         Inl err \<Rightarrow> (session_error c err, [])
       | Inr session \<Rightarrow>
           if se_UserID session \<noteq> UserIDFromContext c then (respondForbidden c, [])
           else (\<lparr>rs_status = StatusOK, rs_contentType = ''text/event-stream'',
                   rs_payload = PEvents (if \<not> flusher then [] else coaching_events cancelled session)\<rparr>, [])))"

lemma run_Coaching_prog: "run_prog (Coaching_prog T cancelled flusher r c) w = Session_Coaching T cancelled flusher r c w"
  by (auto simp: Coaching_prog_def Session_Coaching_def split: prod.splits sum.splits)

definition query_metrics_prog ::
  "pg_types \<Rightarrow> 'd decimal_ops \<Rightarrow> string \<Rightarrow> metrics_params \<Rightarrow> (string + MetricsResponse \<Rightarrow> ('r, 'b) prog) \<Rightarrow> ('r, 'b) prog" where
  "query_metrics_prog T D userID p k =
     act_db (QueryRange T D userID (mp_from p) (mp_to p) (mp_interval p)) (\<lambda>x. case x of
         Inl err \<Rightarrow> k (Inl ''Failed to query metrics'')
       | Inr buckets \<Rightarrow>
           act_db (QueryEmotionWinRates T userID (mp_from p) (mp_to p)) (\<lambda>y. case y of
               Inl err \<Rightarrow> k (Inl ''Failed to query emotion win rates'')
             | Inr emotionRates \<Rightarrow>
                 act_db (CountRevengeTrades T userID (mp_from p) (mp_to p)) (\<lambda>revenge.
                 act_db (CountOvertradingEvents T userID (mp_from p) (mp_to p)) (\<lambda>overtrading.
                   k (Inr (metrics_response D userID p buckets emotionRates (ignore_error revenge)
                        (ignore_error overtrading)))))))"

definition Metrics_prog ::
  "pg_types \<Rightarrow> 'd decimal_ops \<Rightarrow> 'r redis_ops \<Rightarrow> (MetricsResponse \<Rightarrow> string) \<Rightarrow> request \<Rightarrow> reqctx \<Rightarrow> ('r, 'd) request_prog" where
  "Metrics_prog T D R marshal r c =
     (let userID = URLParam r ''userId''
      in if userID \<noteq> UserIDFromContext c then Ret (respondForbidden c, [])
         else (case parse_params r of
                 Inl message \<Rightarrow> Ret (respondBadRequest c message, [])
               | Inr p \<Rightarrow>
                   act_redis (Cache_Get R (metrics_cache_key userID p)) (\<lambda>x. case x of
                       Inr (Some cached) \<Rightarrow> Ret (respondBytes cached, [])
                     | _ \<Rightarrow>
                         query_metrics_prog T D userID p (\<lambda>y. Ret (case y of
                             Inl message \<Rightarrow> (respondError c StatusInternalServerError ''INTERNAL_ERROR'' message, [])
                           | Inr response \<Rightarrow>
                               (let jsonBytes = marshal response
                                in (respondBytes jsonBytes, [CacheSetTask (metrics_cache_key userID p) jsonBytes])))))))"

lemma run_query_metrics_prog:
  "run_prog (query_metrics_prog T D u p k) w = (case query_metrics T D u p w of (x, w1) \<Rightarrow> run_prog (k x) w1)"
  by (auto simp: query_metrics_prog_def query_metrics_def split: prod.splits sum.splits)

lemma run_Metrics_prog: "run_prog (Metrics_prog T D R marshal r c) w = Metrics_Get T D R marshal r c w"
  by (auto simp: Metrics_prog_def Metrics_Get_def Let_def run_query_metrics_prog
      split: prod.splits sum.splits option.splits)

primrec find_pathologies_prog ::
  "pg_types \<Rightarrow> string \<Rightarrow> int \<Rightarrow> string list \<Rightarrow> (Pathology list \<Rightarrow> ('r, 'b) prog) \<Rightarrow> ('r, 'b) prog" where
  "find_pathologies_prog T userID totalTrades [] k = k []"
| "find_pathologies_prog T userID totalTrades (pType # pTypes) k =
     act_db (GetEvidenceForPathology T userID pType) (\<lambda>x.
       (let found = (case x of
              Inl err \<Rightarrow> []
            | Inr evidence \<Rightarrow>
                if length (TradeIDs evidence) = 0 then []
                else if 2 \<le> length (TradeIDs evidence)
                then [\<lparr> pa_Pathology = pType,
                        pa_Confidence = profile_confidence (int (length (TradeIDs evidence))) totalTrades,
                        pa_EvidenceSessions = SessionIDs evidence, pa_EvidenceTrades = TradeIDs evidence \<rparr>]
                else [])
        in find_pathologies_prog T userID totalTrades pTypes (\<lambda>rest. k (found @ rest))))"

lemma run_find_pathologies_prog:
  "run_prog (find_pathologies_prog T u n ps k) w = (case find_pathologies T u n ps w of (x, w1) \<Rightarrow> run_prog (k x) w1)"
  by (induction ps arbitrary: k w) (simp_all add: Let_def split: prod.splits)

definition build_profile_prog ::
  "pg_types \<Rightarrow> time \<Rightarrow> string \<Rightarrow> (ProfileResponse \<Rightarrow> ('r, 'b) prog) \<Rightarrow> ('r, 'b) prog" where
  "build_profile_prog T now userID k =
     act_db (GetEvidenceForPathology T userID '''') (\<lambda>x.
       (let n = (case x of Inl err \<Rightarrow> 0 | Inr allEvidence \<Rightarrow> int (length (TradeIDs allEvidence)));
            totalTrades = (if n = 0 then 1 else n)
        in find_pathologies_prog T userID totalTrades allPathologyTypes (\<lambda>pathologies.
             k \<lparr> pr_UserID = userID, pr_GeneratedAt = now, pr_DominantPathologies = pathologies,
                 pr_Strengths = find_strengths pathologies,
                 pr_PeakPerformanceWindow = \<lparr>pw_StartHour = 9, pw_EndHour = 11, pw_WinRate = f64_of_rat (65 / 100)\<rparr> \<rparr>)))"

definition Profile_prog ::
  "pg_types \<Rightarrow> 'r redis_ops \<Rightarrow> (ProfileResponse \<Rightarrow> string) \<Rightarrow> time \<Rightarrow> request \<Rightarrow> reqctx \<Rightarrow> ('r, 'd) request_prog" where
  "Profile_prog T R marshal now r c =
     (let userID = URLParam r ''userId''; cacheKey = profile_key userID
      in if userID \<noteq> UserIDFromContext c then Ret (respondForbidden c, [])
         else act_redis (Cache_Get R cacheKey) (\<lambda>x. case x of
                Inr (Some cached) \<Rightarrow> Ret (respondBytes cached, [])
              | _ \<Rightarrow>
                  act_db (User_GetByID T userID) (\<lambda>y. case y of
                      Inl err \<Rightarrow> Ret (respondNotFound c ''User not found.'', [])
                    | Inr _ \<Rightarrow>
                        build_profile_prog T now userID (\<lambda>profile.
                          (let jsonBytes = marshal profile
                           in act_redis (rd_set R cacheKey jsonBytes (5 * minute)) (\<lambda>_. Ret (respondBytes jsonBytes, [])))))))"

lemma run_build_profile_prog:
  "run_prog (build_profile_prog T now u k) w = (case build_profile T now u w of (x, w1) \<Rightarrow> run_prog (k x) w1)"
  by (simp add: build_profile_prog_def build_profile_def Let_def run_find_pathologies_prog split: prod.splits)

lemma run_Profile_prog: "run_prog (Profile_prog T R marshal now r c) w = Profile_Get T R marshal now r c w"
  by (auto simp: Profile_prog_def Profile_Get_def Let_def run_build_profile_prog
      split: prod.splits sum.splits option.splits)

definition Health_prog :: "pg_types \<Rightarrow> 'r redis_ops \<Rightarrow> time \<Rightarrow> request \<Rightarrow> reqctx \<Rightarrow> ('r, 'd) request_prog" where
  "Health_prog T R now r c =
     act_db (pg_ping T) (\<lambda>ping.
       (let dbStatus = (case ping of Inl err \<Rightarrow> ''disconnected'' | Inr _ \<Rightarrow> ''connected'')
        in act_redis (Stream_InfoStream R ''trades:events'') (\<lambda>x.
             (let queueLag = (case x of Inl err \<Rightarrow> 0 | Inr lastID \<Rightarrow> queue_lag now lastID);
                  status = (if dbStatus = ''disconnected'' then ''degraded'' else ''ok'')
              in Ret (respondJSON StatusOK (PHealth \<lparr>he_Status = status, he_DbConnection = dbStatus,
                   he_QueueLag = queueLag, he_Timestamp = format_rfc3339 now\<rparr>), [])))))"

lemma run_Health_prog: "run_prog (Health_prog T R now r c) w = Health_Check T R now r c w"
  by (auto simp: Health_prog_def Health_Check_def getQueueLag_def Let_def split: prod.splits sum.splits)

section \<open>A request\<close>

fun endpoint_prog :: "('r, 'd) deps \<Rightarrow> moment \<Rightarrow> endpoint \<Rightarrow> request \<Rightarrow> reqctx \<Rightarrow> ('r, 'd) request_prog" where
  "endpoint_prog d m HealthCheck r c = Health_prog (dp_T d) (dp_R d) (mo_now m) r c"
| "endpoint_prog d m TradesCreate r c = Create_prog (dp_T d) (dp_D d) (dp_R d) (dp_decodeTrade d) r c"
| "endpoint_prog d m TradesGet r c = Trade_Get_prog (dp_T d) (dp_D d) r c"
| "endpoint_prog d m SessionsGet r c = Session_Get_prog (dp_T d) (dp_D d) r c"
| "endpoint_prog d m SessionsDebrief r c = Debrief_prog (dp_T d) (dp_decodeDebrief d) r c"
| "endpoint_prog d m SessionsCoaching r c = Coaching_prog (dp_T d) (mo_cancelled m) True r c"
| "endpoint_prog d m MetricsGet r c = Metrics_prog (dp_T d) (dp_D d) (dp_R d) (dp_marshalMetrics d) r c"
| "endpoint_prog d m ProfileGet r c = Profile_prog (dp_T d) (dp_R d) (dp_marshalProfile d) (mo_now m) r c"

lemma run_endpoint_prog: "run_prog (endpoint_prog d m e r c) w = endpoint_handler d m e r c w"
  by (cases e) (simp_all add: run_Create_prog run_Debrief_prog run_Trade_Get_prog run_Session_Get_prog
      run_Coaching_prog run_Metrics_prog run_Profile_prog run_Health_prog)

definition auth_prog :: "jwt_ops \<Rightarrow> time \<Rightarrow> string \<Rightarrow> (request \<Rightarrow> reqctx \<Rightarrow> ('r, 'd) request_prog)
    \<Rightarrow> request \<Rightarrow> reqctx \<Rightarrow> ('r, 'd) request_prog" where
  "auth_prog J now secret nxt r c =
     (let traceID = TraceIDFromContext c;
          authHeader = rq_authorization r;
          unauthorized = (\<lambda>code message. Ret (respondAuthError StatusUnauthorized code message traceID, []));
          parts = splitn2_space authHeader
      in if authHeader = '''' then unauthorized ''UNAUTHORIZED'' ''Missing Authorization header''
         else if length parts \<noteq> 2 \<or> \<not> equal_fold (parts ! 0) ''Bearer''
         then unauthorized ''UNAUTHORIZED'' ''Invalid Authorization header format''
         else (case verify_token J now secret (parts ! 1) of
                 Inl (code, message) \<Rightarrow> unauthorized code message
               | Inr sub \<Rightarrow> nxt r (c\<lparr>cx_userId := Some sub\<rparr>)))"

lemma run_auth_prog:
  assumes "\<And>r c. run_prog (nxt r c) w = h r c w"
  shows "run_prog (auth_prog J now secret nxt r c) w = AuthMiddleware J now secret h r c w"
  by (auto simp: auth_prog_def AuthMiddleware_def Let_def assms split: sum.splits)

definition serve_prog :: "('r, 'd) deps \<Rightarrow> moment \<Rightarrow> request \<Rightarrow> ('r, 'd) request_prog" where
  "serve_prog d m r =
     (case dp_chi d (map fst route_table) (rq_method r) (rq_path r) of
        NoRoute \<Rightarrow> Ret (not_found_response, [])
      | MethodNotAllowed \<Rightarrow> Ret (method_not_allowed_response, [])
      | Found pat ps \<Rightarrow>
          (case map_of route_table (rq_method r, pat) of
             None \<Rightarrow> Ret (not_found_response, [])
           | Some (protected, e) \<Rightarrow>
               (if protected
                then auth_prog (dp_J d) (mo_now m) (dp_jwtSecret d) (endpoint_prog d m e)
                else endpoint_prog d m e) (r\<lparr>rq_params := ps\<rparr>) (moment_ctx m)))"

text \<open>A request whose statements nothing interrupts is the request of the router.\<close>

lemma run_serve_prog: "run_prog (serve_prog d m r) w = serve d m r w"
proof -
  have "run_prog (auth_prog J now secret (endpoint_prog d m e) r c) w
      = AuthMiddleware J now secret (endpoint_handler d m e) r c w" for J now secret e r c
    by (rule run_auth_prog) (rule run_endpoint_prog)
  then show ?thesis
    by (simp add: serve_prog_def serve_eq route_handler_def run_endpoint_prog
        split: route_match.splits option.splits prod.splits)
qed

section \<open>The worker\<close>

definition update_bucket_prog :: "pg_types \<Rightarrow> 'd decimal_ops \<Rightarrow> string strmap \<Rightarrow> ('r, 'b) prog \<Rightarrow> ('r, 'b) prog" where
  "update_bucket_prog T D values k =
     (let outcome = str values ''outcome'';
          winCount = (if outcome = OutcomeWin then 1 else 0);
          lossCount = (if outcome = OutcomeWin then 0 else 1)
      in act_db (UpsertBucket T D (str values ''userId'') (message_bucket values)
           1 winCount lossCount (message_pnl D values) None None (message_revenge values) 0) (\<lambda>_. k))"

definition update_adherence_prog :: "pg_types \<Rightarrow> 'd decimal_ops \<Rightarrow> string strmap \<Rightarrow> ('r, 'b) prog \<Rightarrow> ('r, 'b) prog" where
  "update_adherence_prog T D values k =
     (if str values ''planAdherence'' = '''' then k
      else act_db (GetLastPlanAdherenceRatings T (str values ''userId'') 10) (\<lambda>x. case x of
               Inl _ \<Rightarrow> k
             | Inr ratings \<Rightarrow>
                 if 0 < length ratings
                 then act_db (UpsertBucket T D (str values ''userId'') (message_bucket values)
                        0 0 0 (dec_zero D) (Some (RollingAvg ratings)) None 0 0) (\<lambda>_. k)
                 else k))"

definition update_tilt_prog :: "pg_types \<Rightarrow> 'd decimal_ops \<Rightarrow> string strmap \<Rightarrow> ('r, 'b) prog \<Rightarrow> ('r, 'b) prog" where
  "update_tilt_prog T D values k =
     (if str values ''sessionId'' = '''' then k
      else act_db (GetSessionTiltData T (str values ''sessionId'')) (\<lambda>x. case x of
               Inl _ \<Rightarrow> k
             | Inr (lossFollow, totalCount) \<Rightarrow>
                 act_db (UpsertBucket T D (str values ''userId'') (message_bucket values)
                   0 0 0 (dec_zero D) None (Some (SessionTiltIndex lossFollow totalCount)) 0 0) (\<lambda>_. k)))"

definition update_emotion_prog :: "pg_types \<Rightarrow> string strmap \<Rightarrow> ('r, 'b) prog \<Rightarrow> ('r, 'b) prog" where
  "update_emotion_prog T values k =
     (let emotionalState = str values ''emotionalState'';
          outcome = str values ''outcome'';
          wins = (if outcome = OutcomeWin then 1 else 0);
          losses = (if outcome = OutcomeWin then 0 else 1);
          dateBucket = time_truncate (message_entry_at values) (24 * hour)
      in if emotionalState = '''' then k
         else act_db (UpsertEmotionWinRate T (str values ''userId'') emotionalState dateBucket wins losses) (\<lambda>_. k))"

definition detect_overtrading_prog :: "pg_types \<Rightarrow> 'r redis_ops \<Rightarrow> string strmap \<Rightarrow> ('r, 'b) prog \<Rightarrow> ('r, 'b) prog" where
  "detect_overtrading_prog T R values k =
     (let nowMs = unix_milli (message_entry_at values);
          key = trades_ts_key (str values ''userId'')
      in act_redis (OvertradingCheck R key nowMs (str values ''tradeId'') WindowDurationMs) (\<lambda>x. case x of
             Inl _ \<Rightarrow> k
           | Inr n \<Rightarrow>
               if MaxTradesPerWindow < n
               then act_db (InsertOvertradingEvent T (str values ''userId'')
                      (time_unix_milli (nowMs - WindowDurationMs)) n) (\<lambda>_. k)
               else k))"

text \<open>One message, with its acknowledgement.\<close>

definition message_prog ::
  "pg_types \<Rightarrow> 'd decimal_ops \<Rightarrow> 'r redis_ops \<Rightarrow> entry \<Rightarrow> ('r, 'b) prog \<Rightarrow> ('r, 'b) prog" where
  "message_prog T D R msg k =
     (let values = snd msg; ack = act_redis (Stream_Ack R StreamName GroupName [fst msg]) (\<lambda>_. k)
      in if str values ''status'' \<noteq> ''closed'' then ack
         else update_bucket_prog T D values (update_adherence_prog T D values (update_tilt_prog T D values
                (update_emotion_prog T values (detect_overtrading_prog T R values ack)))))"

lemma run_update_progs:
  "run_prog (update_bucket_prog T D v k) w = run_prog k (update_bucket T D v w)"
  "run_prog (update_adherence_prog T D v k) w = run_prog k (update_adherence T D v w)"
  "run_prog (update_tilt_prog T D v k) w = run_prog k (update_tilt T D v w)"
  "run_prog (update_emotion_prog T v k) w = run_prog k (update_emotion T v w)"
  "run_prog (detect_overtrading_prog T R v k) w = run_prog k (detect_overtrading T R v w)"
  by (simp_all add: update_bucket_prog_def update_bucket_def update_adherence_prog_def update_adherence_def
      update_tilt_prog_def update_tilt_def update_emotion_prog_def update_emotion_def
      detect_overtrading_prog_def detect_overtrading_def Let_def split: prod.splits sum.splits)

lemma run_message_prog: "run_prog (message_prog T D R msg k) w = run_prog k (handle_message T D R w msg)"
  by (simp add: message_prog_def handle_message_def processMessage_def Let_def run_update_progs split: prod.splits)

text \<open>One pass of the loop: a read, and the messages it delivers in their order.\<close>

definition streams_prog ::
  "pg_types \<Rightarrow> 'd decimal_ops \<Rightarrow> 'r redis_ops \<Rightarrow> (string \<times> entry list) list \<Rightarrow> ('r, 'b) prog \<Rightarrow> ('r, 'b) prog" where
  "streams_prog T D R streams k = foldr (\<lambda>stream. foldr (message_prog T D R) (snd stream)) streams k"

definition pass_prog :: "pg_types \<Rightarrow> 'd decimal_ops \<Rightarrow> 'r redis_ops \<Rightarrow> ('r, unit) prog" where
  "pass_prog T D R =
     act_redis (Stream_ReadGroup R GroupName ConsumerName StreamName 10 (5 * second)) (\<lambda>x. case x of
         Inl _ \<Rightarrow> Ret ()
       | Inr streams \<Rightarrow> streams_prog T D R streams (Ret ()))"

lemma run_foldr:
  assumes "\<And>x k w. run_prog (p x k) w = run_prog k (f w x)"
  shows "run_prog (foldr p xs k) w = run_prog k (foldl f w xs)"
  by (induction xs arbitrary: w) (simp_all add: assms)

lemma run_streams_prog: "run_prog (streams_prog T D R streams k) w = run_prog k (handle_streams T D R streams w)"
  unfolding streams_prog_def handle_streams_def
  by (rule run_foldr) (rule run_foldr, rule run_message_prog)

text \<open>A turn of \<open>Run_loop\<close> after a read that succeeds runs a pass and goes on.\<close>

lemma run_pass_prog:
  "on_redis (Stream_ReadGroup R GroupName ConsumerName StreamName 10 (5 * second)) (env w) = (Inr streams, w1)
   \<Longrightarrow> Run_loop T D R env (Suc n) w = Run_loop T D R env n (snd (run_prog (pass_prog T D R) (env w)))"
  by (simp add: pass_prog_def run_streams_prog)

text \<open>A goroutine is one command.\<close>

definition task_prog :: "'r redis_ops \<Rightarrow> task \<Rightarrow> ('r, unit) prog" where
  "task_prog R t = Act (\<lambda>w. (Ret (), run_task R t w))"

lemma run_task_prog: "run_prog (task_prog R t) w = ((), run_task R t w)"
  by (simp add: task_prog_def)

end
