(* ===== verification/Concurrent_Posts.thy ===== *)
theory Concurrent_Posts
  imports Trade_Handler
begin

text \<open>
  Concurrent writers of the trades table. \<open>Upsert\<close> sends up to two statements, and those of other
  requests can run in between: here its threads are interleaved statement by statement.
\<close>

section \<open>Threads\<close>

text \<open>In front of the INSERT, after its conflict in front of the SELECT, and answered.\<close>

datatype 'd thread = Begin "'d Trade" | Conflict "'d Trade" | Answered "'d Trade" "go_error + 'd Trade"

fun thread_trade :: "'d thread \<Rightarrow> 'd Trade" where
  "thread_trade (Begin t) = t" | "thread_trade (Conflict t) = t" | "thread_trade (Answered t x) = t"

fun thread_step :: "pg_types \<Rightarrow> 'd decimal_ops \<Rightarrow> 'd thread \<Rightarrow> db \<Rightarrow> 'd thread \<times> db" where
  "thread_step T D (Begin t) s =
     (case pg_send T (insert_trade T D t) s of
        (Inr r, s1) \<Rightarrow> (Answered t (Inr (scanTrade D r)), s1)
      | (Inl e, s1) \<Rightarrow> if error_is e ErrNoRows then (Conflict t, s1) else (Answered t (Inl e), s1))"
| "thread_step T D (Conflict t) s =
     (case pg_send T (select_trade T (TradeID t)) s of
        (Inr r, s1) \<Rightarrow> (Answered t (Inr (scanTrade D r)), s1)
      | (Inl e, s1) \<Rightarrow> (Answered t (Inl e), s1))"
| "thread_step T D (Answered t x) s = (Answered t x, s)"

text \<open>Without interference, the two statements are \<open>Upsert\<close>.\<close>

lemma thread_alone:
  "case (case thread_step T D (Begin t) s of (th, s1) \<Rightarrow> thread_step T D th s1) of (th, s2) \<Rightarrow>
     \<exists>x. th = Answered t x \<and> Upsert T D t s = (x, s2)"
  by (auto simp: Upsert_def split: prod.splits sum.splits)

text \<open>
  A step of the interleaving is a statement of one thread, or anything else in the database that
  leaves the trades alone: the worker's statements, the clock, the connections.
\<close>

inductive interleave :: "pg_types \<Rightarrow> 'd decimal_ops \<Rightarrow> 'd thread list \<times> db \<Rightarrow> 'd thread list \<times> db \<Rightarrow> bool"
  for T :: pg_types and D :: "'d decimal_ops" where
  thread_runs: "i < length ths \<Longrightarrow> thread_step T D (ths ! i) s = (th, s')
    \<Longrightarrow> interleave T D (ths, s) (ths[i := th], s')"
| others_run: "trades s' = trades s \<Longrightarrow> interleave T D (ths, s) (ths, s')"

section \<open>The invariant\<close>

text \<open>What a thread knows about the table: the row it was answered with, the row it conflicts with.\<close>

fun thread_ok :: "pg_types \<Rightarrow> 'd decimal_ops \<Rightarrow> db \<Rightarrow> 'd thread \<Rightarrow> bool" where
  "thread_ok T D s (Begin t) \<longleftrightarrow> True"
| "thread_ok T D s (Conflict t) \<longleftrightarrow> ptr_and (pg_uuid T (TradeID t)) (\<lambda>u. tbl_lookup TradeID u (trades s) \<noteq> None)"
| "thread_ok T D s (Answered t (Inr x)) \<longleftrightarrow>
     ptr_and (pg_uuid T (TradeID t)) (\<lambda>u. map_option (scanTrade D) (tbl_lookup TradeID u (trades s)) = Some x)"
| "thread_ok T D s (Answered t (Inl e)) \<longleftrightarrow> \<not> error_is e ErrNoRows"

lemma lookup_append_Some: "tbl_lookup key k rows = Some r \<Longrightarrow> tbl_lookup key k (rows @ added) = Some r"
  by (simp add: tbl_lookup_append)

lemma lookup_unique:
  "distinct (map key rows) \<Longrightarrow> tbl_lookup key k rows = Some r \<Longrightarrow> filter (\<lambda>r. key r = k) rows = [r]"
  by (induction rows) (auto simp: filter_empty_conv image_iff split: if_splits)

text \<open>What a thread knows stays true while the table grows.\<close>

lemma thread_ok_mono:
  assumes "trades s' = trades s @ added" "thread_ok T D s th"
  shows "thread_ok T D s' th"
  using assms by (cases "(T, D, s, th)" rule: thread_ok.cases) (auto simp: ptr_and_iff lookup_append_Some)

lemma insert_trade_sent:
  assumes "pg_send T (insert_trade T D t) s = (x, s')" and "distinct (map TradeID (trades s))"
  shows "(\<exists>added. trades s' = trades s @ added) \<and> distinct (map TradeID (trades s'))
    \<and> (case x of Inr r \<Rightarrow> pg_uuid T (TradeID t) = Some (TradeID r) \<and> tbl_lookup TradeID (TradeID r) (trades s') = Some r
       | Inl e \<Rightarrow> error_is e ErrNoRows \<longrightarrow> ptr_and (pg_uuid T (TradeID t)) (\<lambda>u. tbl_lookup TradeID u (trades s') \<noteq> None))"
proof -
  have ins: "(\<exists>added. trades (snd (insert_trade T D t (s\<lparr>db_deliveries := ds\<rparr>))) = trades s @ added)
      \<and> distinct (map TradeID (trades (snd (insert_trade T D t (s\<lparr>db_deliveries := ds\<rparr>)))))" for ds
    by (rule insert_trade_cases [of T D t "s\<lparr>db_deliveries := ds\<rparr>"])
      (use assms(2) in \<open>auto simp: inserts_row_def tbl_lookup_None\<close>)
  have ans: "case fst (insert_trade T D t (s\<lparr>db_deliveries := ds\<rparr>)) of
        Inr r \<Rightarrow> pg_uuid T (TradeID t) = Some (TradeID r)
          \<and> tbl_lookup TradeID (TradeID r) (trades (snd (insert_trade T D t (s\<lparr>db_deliveries := ds\<rparr>)))) = Some r
      | Inl e \<Rightarrow> error_is e ErrNoRows \<longrightarrow> ptr_and (pg_uuid T (TradeID t))
          (\<lambda>u. tbl_lookup TradeID u (trades (snd (insert_trade T D t (s\<lparr>db_deliveries := ds\<rparr>)))) \<noteq> None)" for ds
    by (rule insert_trade_cases [of T D t "s\<lparr>db_deliveries := ds\<rparr>"])
      (auto simp: inserts_row_def tbl_lookup_append dest: trade_to_row_key)
  let ?E = "\<lambda>(x, s'). (\<exists>added. trades s' = trades s @ added) \<and> distinct (map TradeID (trades s'))
    \<and> (case x of Inr r \<Rightarrow> pg_uuid T (TradeID t) = Some (TradeID r) \<and> tbl_lookup TradeID (TradeID r) (trades s') = Some r
       | Inl e \<Rightarrow> error_is e ErrNoRows \<longrightarrow> ptr_and (pg_uuid T (TradeID t)) (\<lambda>u. tbl_lookup TradeID u (trades s') \<noteq> None))"
  have "?E (pg_send T (insert_trade T D t) s)"
    by (rule pg_send_rule [where E = ?E]) (use ins ans assms(2) in \<open>simp_all add: split_beta\<close>)
  with assms(1) show ?thesis by simp
qed

lemma select_trade_sent:
  assumes "pg_send T (select_trade T k) s = (x, s')"
  shows "trades s' = trades s
    \<and> (case x of Inr r \<Rightarrow> ptr_and (pg_uuid T k) (\<lambda>u. tbl_lookup TradeID u (trades s) = Some r)
       | Inl e \<Rightarrow> error_is e ErrNoRows \<longrightarrow> \<not> ptr_and (pg_uuid T k) (\<lambda>u. tbl_lookup TradeID u (trades s) \<noteq> None))"
proof -
  have sel: "select_trade T k (s\<lparr>db_deliveries := ds\<rparr>) =
      (case pg_uuid T k of None \<Rightarrow> (Inl (pg_error T InvalidInput), s\<lparr>db_deliveries := ds\<rparr>)
       | Some u \<Rightarrow> (case tbl_lookup TradeID u (trades s) of None \<Rightarrow> (Inl ErrNoRows, s\<lparr>db_deliveries := ds\<rparr>)
                   | Some r \<Rightarrow> (Inr r, s\<lparr>db_deliveries := ds\<rparr>)))" for ds
    by (simp add: select_trade_def cong: option.case_cong)
  show ?thesis
    by (rule pg_send_cases [of T "select_trade T k" s])
      (use assms sel in \<open>auto split: option.splits\<close>)
qed

lemma thread_step_ok:
  assumes "thread_step T D th s = (th', s')" "thread_ok T D s th" "distinct (map TradeID (trades s))"
  shows "(\<exists>added. trades s' = trades s @ added) \<and> distinct (map TradeID (trades s')) \<and> thread_ok T D s' th'
    \<and> thread_trade th' = thread_trade th"
proof (cases th)
  case (Begin t)
  obtain x s1 where sent: "pg_send T (insert_trade T D t) s = (x, s1)" by fastforce
  from insert_trade_sent [OF this assms(3)] assms(1) Begin sent show ?thesis
    by (cases x) (auto split: if_splits)
next
  case (Conflict t)
  obtain x s1 where sent: "pg_send T (select_trade T (TradeID t)) s = (x, s1)" by fastforce
  from select_trade_sent [OF this] assms Conflict sent show ?thesis
    by (cases x) (auto simp: ptr_and_iff)
next
  case (Answered t x)
  with assms show ?thesis by (auto intro: exI [of _ "[]"])
qed

definition threads_ok :: "pg_types \<Rightarrow> 'd decimal_ops \<Rightarrow> 'd thread list \<times> db \<Rightarrow> bool" where
  "threads_ok T D c \<longleftrightarrow> distinct (map TradeID (trades (snd c))) \<and> list_all (thread_ok T D (snd c)) (fst c)"

lemma interleave_ok:
  assumes "interleave T D c c'" "threads_ok T D c"
  shows "threads_ok T D c' \<and> map thread_trade (fst c') = map thread_trade (fst c)
    \<and> (\<exists>added. trades (snd c') = trades (snd c) @ added)"
  using assms
proof cases
  case (thread_runs i ths s th s')
  then have ok: "thread_ok T D s (ths ! i)" "distinct (map TradeID (trades s))" "list_all (thread_ok T D s) ths"
    using assms(2) by (simp_all add: threads_ok_def list_all_length)
  from thread_step_ok [OF thread_runs(4) ok(1,2)] obtain added where
    step: "trades s' = trades s @ added" "distinct (map TradeID (trades s'))" "thread_ok T D s' th"
    "thread_trade th = thread_trade (ths ! i)" by blast
  have "list_all (thread_ok T D s') ths"
    using ok(3) thread_ok_mono [OF step(1)] by (auto simp: list_all_iff)
  then have "list_all (thread_ok T D s') (ths[i := th])"
    using step(3) set_update_subset_insert [of ths i th] by (auto simp: list_all_iff)
  moreover have "map thread_trade (ths[i := th]) = map thread_trade ths"
    using thread_runs(3) step(4) by (simp add: map_update list_update_same_conv)
  ultimately show ?thesis using thread_runs(1,2) step by (auto simp: threads_ok_def)
next
  case (others_run s' s ths)
  have "thread_ok T D s' th" if "thread_ok T D s th" for th
    by (rule thread_ok_mono [of s' s "[]", OF _ that]) (simp add: others_run(3))
  then show ?thesis using others_run assms(2) by (auto simp: threads_ok_def list_all_iff)
qed

lemma interleavings_ok:
  assumes "(interleave T D)\<^sup>*\<^sup>* c c'" "threads_ok T D c"
  shows "threads_ok T D c' \<and> map thread_trade (fst c') = map thread_trade (fst c)
    \<and> (\<exists>added. trades (snd c') = trades (snd c) @ added)"
  using assms
proof (induction rule: rtranclp_induct)
  case (step c1 c2)
  then show ?case using interleave_ok [OF step.hyps(2)] by fastforce
qed (auto intro: exI [of _ "[]"])

section \<open>Property\<close>

text \<open>
  C10: Concurrent POSTs of one trade agree. Let any number of \<open>Upsert\<close>s run at the same time, their
  statements interleaved in any order with each other and with anything that leaves the trades
  alone, over connections that may fail. Then any two that are answered with a trade and name the
  same ID (in whatever spelling) are answered with the same trade: the one row that the table holds
  under that ID. The SELECT behind a conflict always finds that row, and the rows stored before
  are untouched.
\<close>

theorem concurrent_posts_agree:
  assumes "(interleave T D)\<^sup>*\<^sup>* (map Begin ts, s) (ths, s')" "distinct (map TradeID (trades s))"
    and "Answered t (Inr x) \<in> set ths" "Answered t' (Inr x') \<in> set ths"
    and "pg_uuid T (TradeID t) = pg_uuid T (TradeID t')"
  shows "x = x' \<and> {t, t'} \<subseteq> set ts
    \<and> (\<exists>r. filter (\<lambda>r. pg_uuid T (TradeID t) = Some (TradeID r)) (trades s') = [r] \<and> x = scanTrade D r)
    \<and> list_all (\<lambda>th. case th of Answered _ (Inl e) \<Rightarrow> \<not> error_is e ErrNoRows | _ \<Rightarrow> True) ths
    \<and> take (length (trades s)) (trades s') = trades s"
proof -
  have "threads_ok T D (map Begin ts, s)" using assms(2) by (simp add: threads_ok_def list_all_iff)
  from interleavings_ok [OF assms(1) this]
  have ok: "distinct (map TradeID (trades s'))" "\<And>th. th \<in> set ths \<Longrightarrow> thread_ok T D s' th"
    and ts: "map thread_trade ths = ts" and grows: "\<exists>added. trades s' = trades s @ added"
    by (simp_all add: threads_ok_def list_all_iff comp_def)
  obtain u r where u: "pg_uuid T (TradeID t) = Some u" "tbl_lookup TradeID u (trades s') = Some r" "x = scanTrade D r"
    using ok(2) [OF assms(3)] by (auto simp: ptr_and_iff)
  moreover have "x' = scanTrade D r" using ok(2) [OF assms(4)] u assms(5) by (auto simp: ptr_and_iff)
  moreover have one: "filter (\<lambda>r. TradeID r = u) (trades s') = [r]" by (rule lookup_unique [OF ok(1) u(2)])
  moreover have "{t, t'} \<subseteq> set ts" using assms(3,4) unfolding ts [symmetric] by force
  moreover have "list_all (\<lambda>th. case th of Answered _ (Inl e) \<Rightarrow> \<not> error_is e ErrNoRows | _ \<Rightarrow> True) ths"
    using ok(2) by (fastforce simp: list_all_iff split: thread.splits sum.splits)
  moreover have "filter (\<lambda>r. pg_uuid T (TradeID t) = Some (TradeID r)) (trades s') = [r]"
  proof -
    have eq: "(\<lambda>r. pg_uuid T (TradeID t) = Some (TradeID r)) = (\<lambda>r. TradeID r = u)" using u(1) by auto
    show ?thesis by (simp only: eq one)
  qed
  moreover have "take (length (trades s)) (trades s') = trades s" using grows by auto
  ultimately show ?thesis by blast
qed

text \<open>Two POSTs of a trade, one of them flagged: the second INSERT conflicts, and its SELECT answers the first.\<close>

theorem concurrent_posts_agree_witness:
  "\<exists>ths s' x. (interleave ref_pg ref_decimal)\<^sup>*\<^sup>*
       (map Begin [close_trade ref_decimal (build_trade ex_input), (close_trade ref_decimal (build_trade ex_input))\<lparr>RevengeFlag := True\<rparr>],
        w_db ex_world) (ths, s')
     \<and> Answered ((close_trade ref_decimal (build_trade ex_input))\<lparr>RevengeFlag := True\<rparr>) (Inr x) \<in> set ths
     \<and> \<not> RevengeFlag x"
proof -
  let ?t = "close_trade ref_decimal (build_trade ex_input)"
  let ?u = "?t\<lparr>RevengeFlag := True\<rparr>"
  let ?s = "w_db ex_world"
  obtain row where row: "trade_to_row ref_pg ref_decimal ex_time ?t = Some row" "TradeID row = ex_trade_id"
    "UserID row = alice" "SessionID row = alice_session" "trade_check row"
    by (rule ex_row)
  let ?s1 = "?s\<lparr>trades := [row]\<rparr>" and ?x = "scanTrade ref_decimal row"
  have init: "db_deliveries ?s = []" "trades ?s = []" "db_now ?s = ex_time" "distinct (map TradeID (trades ?s))"
    by (simp_all add: ex_world_def ex_db_def)
  have fk: "trade_fk ?s row" by (simp add: row trade_fk_def ex_world_def ex_db_def)
  have ids: "pg_uuid ref_pg (TradeID ?t) = Some ex_trade_id" using trade_to_row_key [OF row(1)] row(2) by simp
  have flag: "trade_to_row ref_pg ref_decimal ex_time ?u = Some (row\<lparr>RevengeFlag := True\<rparr>)"
    using trade_to_row_flag [OF row(1)] by simp
  have unflagged: "\<not> RevengeFlag row" using trade_to_row_fields(5) [OF row(1)] by simp
  have 1: "thread_step ref_pg ref_decimal (Begin ?t) ?s = (Answered ?t (Inr ?x), ?s1)"
    using init row fk by (simp add: insert_trade_def tbl_insert_new_def)
  have 2: "thread_step ref_pg ref_decimal (Begin ?u) ?s1 = (Conflict ?u, ?s1)"
    using init row flag by (simp add: insert_trade_def tbl_insert_new_def trade_check_def)
  have 3: "thread_step ref_pg ref_decimal (Conflict ?u) ?s1 = (Answered ?u (Inr ?x), ?s1)"
    using init ids by (simp add: select_trade_def row)
  have "interleave ref_pg ref_decimal ([Begin ?t, Begin ?u], ?s) ([Answered ?t (Inr ?x), Begin ?u], ?s1)"
    using thread_runs [of 0 "[Begin ?t, Begin ?u]" ref_pg ref_decimal ?s, unfolded nth_Cons_0, OF _ 1] by simp
  moreover have "interleave ref_pg ref_decimal ([Answered ?t (Inr ?x), Begin ?u], ?s1) ([Answered ?t (Inr ?x), Conflict ?u], ?s1)"
    using thread_runs [of 1 "[Answered ?t (Inr ?x), Begin ?u]" ref_pg ref_decimal ?s1 "Conflict ?u" ?s1] 2 by simp
  moreover have "interleave ref_pg ref_decimal ([Answered ?t (Inr ?x), Conflict ?u], ?s1)
      ([Answered ?t (Inr ?x), Answered ?u (Inr ?x)], ?s1)"
    using thread_runs [of 1 "[Answered ?t (Inr ?x), Conflict ?u]" ref_pg ref_decimal ?s1 "Answered ?u (Inr ?x)" ?s1] 3 by simp
  ultimately have run: "(interleave ref_pg ref_decimal)\<^sup>*\<^sup>* (map Begin [?t, ?u], ?s)
      ([Answered ?t (Inr ?x), Answered ?u (Inr ?x)], ?s1)"
    by (simp add: converse_rtranclp_into_rtranclp)
  have mem: "Answered ?u (Inr ?x) \<in> set [Answered ?t (Inr ?x), Answered ?u (Inr ?x)]"
    "Answered ?t (Inr ?x) \<in> set [Answered ?t (Inr ?x), Answered ?u (Inr ?x)]" by simp_all
  have "pg_uuid ref_pg (TradeID ?u) = pg_uuid ref_pg (TradeID ?t)" by simp
  from concurrent_posts_agree [OF run init(4) mem this]
  have "\<exists>r. filter (\<lambda>r. pg_uuid ref_pg (TradeID ?u) = Some (TradeID r)) (trades ?s1) = [r] \<and> ?x = scanTrade ref_decimal r"
    by (elim conjE)
  then obtain r where "r \<in> set (trades ?s1)" "?x = scanTrade ref_decimal r"
    by (metis filter_is_subset list.set_intros(1) subsetD)
  then have "?x = scanTrade ref_decimal row" "\<not> RevengeFlag ?x" using unflagged by simp_all
  then show ?thesis using run mem(1) by blast
qed

end
