(* ===== verification/Interleaved.thy ===== *)
theory Interleaved
  imports Processes Programs Concurrent_Posts
begin

text \<open>
  Requests, goroutines and workers at the same time, statement by statement: between any two
  statements of one of them, the others may send theirs. The proofs follow the rely-guarantee
  method: every statement keeps an invariant of the tables and moves them along an order, and
  what a program has learned from the tables holds along that order.
\<close>

section \<open>Rely and guarantee\<close>

text \<open>
  A program is safe at a database when each of its actions, taken in any later database that
  satisfies the invariant \<open>I\<close>, keeps the invariant, moves the database along \<open>G\<close>, and leaves a
  safe rest; its answer satisfies \<open>Q\<close> then and later.
\<close>

inductive safe :: "(db \<Rightarrow> bool) \<Rightarrow> (db \<Rightarrow> db \<Rightarrow> bool) \<Rightarrow> (db \<Rightarrow> 'a \<Rightarrow> bool) \<Rightarrow> db \<Rightarrow> ('r, 'a) prog \<Rightarrow> bool"
  for I G Q where
  safe_Ret: "(\<And>s'. G s s' \<Longrightarrow> Q s' a) \<Longrightarrow> safe I G Q s (Ret a)"
| safe_Act: "(\<And>w. G s (w_db w) \<Longrightarrow> I (w_db w) \<Longrightarrow> I (w_db (snd (f w))) \<and> G (w_db w) (w_db (snd (f w)))
      \<and> safe I G Q (w_db (snd (f w))) (fst (f w)))
    \<Longrightarrow> safe I G Q s (Act f)"

inductive_cases safe_RetE: "safe I G Q s (Ret a)"
inductive_cases safe_ActE: "safe I G Q s (Act f)"

text \<open>An invariant and an order of databases that the environment of a program respects.\<close>

locale guarantee =
  fixes I :: "db \<Rightarrow> bool" and G :: "db \<Rightarrow> db \<Rightarrow> bool"
  assumes G_refl: "G s s" and G_trans: "G s s1 \<Longrightarrow> G s1 s2 \<Longrightarrow> G s s2"
begin

lemma safe_later:
  assumes "safe I G Q s p" "G s s'"
  shows "safe I G Q s' p"
  using assms(1)
proof cases
  case (safe_Ret a)
  then show ?thesis using G_trans [OF assms(2)] by (auto intro: safe.safe_Ret)
next
  case (safe_Act f)
  show ?thesis unfolding safe_Act(1)
    by (rule safe.safe_Act) (rule safe_Act(2) [OF G_trans [OF assms(2)]])
qed

lemma safe_answer: "safe I G Q s (Ret a) \<Longrightarrow> Q s a"
  by (auto elim: safe_RetE intro: G_refl)

lemma safe_run:
  assumes "safe I G Q (w_db w) (Act f)" "f w = (p, w')" "I (w_db w)"
  shows "I (w_db w') \<and> G (w_db w) (w_db w') \<and> safe I G Q (w_db w') p"
  using assms by (auto elim!: safe_ActE simp: G_refl dest!: spec [of _ w])

lemma safe_db:
  fixes q :: "'a stmt" and k :: "go_error + 'a \<Rightarrow> ('r, 'b) prog"
  assumes "\<And>s1 x s2. G s s1 \<Longrightarrow> I s1 \<Longrightarrow> q s1 = (x, s2) \<Longrightarrow> I s2 \<and> G s1 s2 \<and> safe I G Q s2 (k x)"
  shows "safe I G Q s (act_db q k)"
  unfolding act_db_def
proof (rule safe_Act)
  fix w :: "'r world" assume "G s (w_db w)" "I (w_db w)"
  then show "I (w_db (snd (case on_db q w of (x, w1) \<Rightarrow> (k x, w1))))
      \<and> G (w_db w) (w_db (snd (case on_db q w of (x, w1) \<Rightarrow> (k x, w1))))
      \<and> safe I G Q (w_db (snd (case on_db q w of (x, w1) \<Rightarrow> (k x, w1)))) (fst (case on_db q w of (x, w1) \<Rightarrow> (k x, w1)))"
    using assms [of "w_db w" "fst (q (w_db w))" "snd (q (w_db w))"] by (simp add: split_beta)
qed

text \<open>A command to Redis does not touch the tables.\<close>

lemma safe_redis:
  assumes "\<And>x. safe I G Q s (k x)"
  shows "safe I G Q s (act_redis c k)"
  unfolding act_redis_def
  by (rule safe_Act) (auto simp: split_beta G_refl intro: safe_later [OF assms])

text \<open>A statement whose answer nobody reads.\<close>

lemma safe_stmt:
  assumes "safe I G Q s k" "\<And>s1 x s2. G s s1 \<Longrightarrow> I s1 \<Longrightarrow> q s1 = (x, s2) \<Longrightarrow> I s2 \<and> G s1 s2"
  shows "safe I G Q s (act_db q (\<lambda>_. k))"
  by (rule safe_db) (use assms in \<open>blast intro: safe_later G_trans\<close>)

text \<open>Threads that are safe stay so while one of them, or somebody else, moves the database.\<close>

lemma safe_all_later: "\<forall>p \<in> set ps. safe I G Q s p \<Longrightarrow> G s s' \<Longrightarrow> \<forall>p \<in> set ps. safe I G Q s' p"
  by (blast intro: safe_later)

end

interpretation grows: guarantee "system_ok T" ledger_grows for T
  by unfold_locales (auto intro: ledger_grows_trans)

section \<open>The statements keep the invariant\<close>

text \<open>What a statement of the API does, and what one of the worker does.\<close>

lemma moves_keeps:
  "postgres T \<Longrightarrow> moves T D s s' \<Longrightarrow> system_ok T s \<Longrightarrow> system_ok T s' \<and> ledger_grows s s'"
  by (simp add: moves_ok moves_grows)

lemma same_tables_moves: "same_tables w w' \<Longrightarrow> moves T D (w_db w) (w_db w')"
  by (auto simp: same_tables_def moves_def)

lemma query_moves: "\<exists>ds. s' = s\<lparr>db_deliveries := ds\<rparr> \<Longrightarrow> moves T D s s'"
  by (auto simp: moves_def)

lemma worker_keeps:
  assumes "system_ok T s" "ledger s' = ledger s" "metrics_inv T s'" "length (trades s) \<le> 2 ^ 53 \<longrightarrow> scores_ok s'"
  shows "system_ok T s' \<and> ledger_grows s s'"
proof -
  have "debriefs_ok s' = debriefs_ok s" using assms(2) by (simp add: ledger_def debriefs_ok_def)
  then show ?thesis
    using assms trades_ok_ledger [OF assms(2)] ledger_trades [OF assms(2)]
    by (simp add: system_ok_def ledger_grows_same)
qed

context postgres
begin

lemma UpsertBucket_keeps:
  assumes "system_ok T s" "tc = wc + lc" "0 \<le> wc" "0 \<le> lc" "0 \<le> rc" "rc \<le> tc"
    and "length (trades s) \<le> 2 ^ 53 \<longrightarrow> score_args a t" and "UpsertBucket T D u b tc wc lc p a t rc 0 s = (x, s')"
  shows "system_ok T s' \<and> ledger_grows s s'"
proof (rule worker_keeps [OF assms(1)])
  have s': "s' = snd (UpsertBucket T D u b tc wc lc p a t rc 0 s)" by (simp add: assms(8))
  show "ledger s' = ledger s" by (simp add: s' frame_simps)
  show "metrics_inv T s'"
    unfolding s' using assms(1-6) by (intro UpsertBucket_metrics_inv) (simp_all add: system_ok_def)
  show "length (trades s) \<le> 2 ^ 53 \<longrightarrow> scores_ok s'"
    unfolding s' using assms(1,7) by (auto simp: system_ok_def intro!: UpsertBucket_scores_ok)
qed

end

lemma worker_view_keeps:
  assumes "system_ok T s" "ledger s' = ledger s" "behavioral_metrics s' = behavioral_metrics s"
  shows "system_ok T s' \<and> ledger_grows s s'"
  using assms(1) metrics_inv_cong [OF assms(3)] scores_ok_cong [OF assms(3)]
  by (intro worker_keeps [OF assms(1,2)]) (auto simp: system_ok_def)

lemma emotion_keeps:
  "system_ok T s \<Longrightarrow> UpsertEmotionWinRate T u e d wn ls s = (x, s') \<Longrightarrow> system_ok T s' \<and> ledger_grows s s'"
  using UpsertEmotionWinRate_frame [of T u e d wn ls s] by (intro worker_view_keeps) simp_all

lemma overtrading_keeps:
  "system_ok T s \<Longrightarrow> InsertOvertradingEvent T u ws n s = (x, s') \<Longrightarrow> system_ok T s' \<and> ledger_grows s s'"
  using InsertOvertradingEvent_frame [of T u ws n s] by (intro worker_view_keeps) simp_all

lemma ratings_keeps:
  assumes "system_ok T s" "GetLastPlanAdherenceRatings T u n s = (x, s')"
  shows "system_ok T s' \<and> ledger_grows s s'"
  using pipeline_reads_frame(1) [where V = ledger, of T u n s] pipeline_reads_frame(1) [where V = behavioral_metrics, of T u n s] assms
  by (intro worker_view_keeps) simp_all

lemma tilt_keeps:
  assumes "system_ok T s" "GetSessionTiltData T i s = (x, s')"
  shows "system_ok T s' \<and> ledger_grows s s'"
  using pipeline_reads_frame(2) [where V = ledger, of T i s] pipeline_reads_frame(2) [where V = behavioral_metrics, of T i s] assms
  by (intro worker_view_keeps) simp_all

section \<open>The worker is safe\<close>

context postgres
begin

lemma update_bucket_safe:
  assumes "safe (system_ok T) ledger_grows Q s k"
  shows "safe (system_ok T) ledger_grows Q s (update_bucket_prog T D v k)"
  unfolding update_bucket_prog_def Let_def
  by (rule grows.safe_stmt [OF assms], rule UpsertBucket_keeps)
    (auto simp: message_revenge_def Let_def score_args_def)

lemma update_adherence_safe:
  assumes "safe (system_ok T) ledger_grows Q s k"
  shows "safe (system_ok T) ledger_grows Q s (update_adherence_prog T D v k)"
proof -
  have "safe (system_ok T) ledger_grows Q s (act_db (GetLastPlanAdherenceRatings T (str v ''userId'') 10) (\<lambda>x. case x of
      Inl _ \<Rightarrow> k
    | Inr ratings \<Rightarrow> if 0 < length ratings
        then act_db (UpsertBucket T D (str v ''userId'') (message_bucket v)
               0 0 0 (dec_zero D) (Some (RollingAvg ratings)) None 0 0) (\<lambda>_. k) else k))"
  proof (rule grows.safe_db)
    fix s1 x s2 assume s1: "ledger_grows s s1" "system_ok T s1"
      and x: "GetLastPlanAdherenceRatings T (str v ''userId'') 10 s1 = (x, s2)"
    note s2 = ratings_keeps [OF s1(2) x]
    have k: "safe (system_ok T) ledger_grows Q s2 k"
      using s1 s2 by (blast intro: grows.safe_later [OF assms] ledger_grows_trans)
    have "safe (system_ok T) ledger_grows Q s2 (act_db (UpsertBucket T D (str v ''userId'') (message_bucket v)
        0 0 0 (dec_zero D) (Some (RollingAvg ratings)) None 0 0) (\<lambda>_. k))" if "x = Inr ratings" "0 < length ratings" for ratings
      using ratings_answer [of s1 "str v ''userId''" ratings s2] that x s1(2)
      by (intro grows.safe_stmt [OF k] UpsertBucket_keeps) (auto simp: score_args_def system_ok_def)
    with s2 k show "system_ok T s2 \<and> ledger_grows s1 s2 \<and> safe (system_ok T) ledger_grows Q s2 (case x of
        Inl _ \<Rightarrow> k
      | Inr ratings \<Rightarrow> if 0 < length ratings
          then act_db (UpsertBucket T D (str v ''userId'') (message_bucket v)
                 0 0 0 (dec_zero D) (Some (RollingAvg ratings)) None 0 0) (\<lambda>_. k) else k)"
      by (simp split: sum.splits)
  qed
  with assms show ?thesis by (simp add: update_adherence_prog_def)
qed

lemma update_tilt_safe:
  assumes "safe (system_ok T) ledger_grows Q s k"
  shows "safe (system_ok T) ledger_grows Q s (update_tilt_prog T D v k)"
proof -
  have "safe (system_ok T) ledger_grows Q s (act_db (GetSessionTiltData T (str v ''sessionId'')) (\<lambda>x. case x of
      Inl _ \<Rightarrow> k
    | Inr (lossFollow, totalCount) \<Rightarrow>
        act_db (UpsertBucket T D (str v ''userId'') (message_bucket v)
          0 0 0 (dec_zero D) None (Some (SessionTiltIndex lossFollow totalCount)) 0 0) (\<lambda>_. k)))"
  proof (rule grows.safe_db)
    fix s1 x s2 assume s1: "ledger_grows s s1" "system_ok T s1"
      and x: "GetSessionTiltData T (str v ''sessionId'') s1 = (x, s2)"
    note s2 = tilt_keeps [OF s1(2) x]
    have k: "safe (system_ok T) ledger_grows Q s2 k"
      using s1 s2 by (blast intro: grows.safe_later [OF assms] ledger_grows_trans)
    have "safe (system_ok T) ledger_grows Q s2 (act_db (UpsertBucket T D (str v ''userId'') (message_bucket v)
        0 0 0 (dec_zero D) None (Some (SessionTiltIndex l n)) 0 0) (\<lambda>_. k))" if ln: "x = Inr (l, n)" for l n
    proof (rule grows.safe_stmt [OF k])
      fix s3 y s4 assume s3: "ledger_grows s2 s3" "system_ok T s3"
        and y: "UpsertBucket T D (str v ''userId'') (message_bucket v)
          0 0 0 (dec_zero D) None (Some (SessionTiltIndex l n)) 0 0 s3 = (y, s4)"
      have "length (trades s1) \<le> length (trades s3)"
        using ledger_grows_trans [OF conjunct2 [OF s2] s3(1)] by (auto simp: ledger_grows_def)
      then have "length (trades s3) \<le> 2 ^ 53 \<longrightarrow> score_args None (Some (SessionTiltIndex l n))"
        using tilt_answer [of s1 "str v ''sessionId''" l n s2] x ln by (auto simp: score_args_def)
      then show "system_ok T s4 \<and> ledger_grows s3 s4" by (intro UpsertBucket_keeps [OF s3(2) _ _ _ _ _ _ y]) simp_all
    qed
    with s2 k show "system_ok T s2 \<and> ledger_grows s1 s2 \<and> safe (system_ok T) ledger_grows Q s2 (case x of
        Inl _ \<Rightarrow> k
      | Inr (lossFollow, totalCount) \<Rightarrow>
          act_db (UpsertBucket T D (str v ''userId'') (message_bucket v)
            0 0 0 (dec_zero D) None (Some (SessionTiltIndex lossFollow totalCount)) 0 0) (\<lambda>_. k))"
      by (simp split: sum.splits prod.splits)
  qed
  with assms show ?thesis by (simp add: update_tilt_prog_def)
qed

lemma update_emotion_safe:
  assumes "safe (system_ok T) ledger_grows Q s k"
  shows "safe (system_ok T) ledger_grows Q s (update_emotion_prog T v k)"
proof -
  have "safe (system_ok T) ledger_grows Q s (act_db (UpsertEmotionWinRate T u e b wn ls) (\<lambda>_. k))" for u e b wn ls
    by (rule grows.safe_stmt [OF assms]) (rule emotion_keeps)
  with assms show ?thesis by (simp add: update_emotion_prog_def Let_def)
qed

lemma detect_overtrading_safe:
  assumes "safe (system_ok T) ledger_grows Q s k"
  shows "safe (system_ok T) ledger_grows Q s (detect_overtrading_prog T R v k)"
proof -
  have "safe (system_ok T) ledger_grows Q s (act_db (InsertOvertradingEvent T u ws n) (\<lambda>_. k))" for u ws n
    by (rule grows.safe_stmt [OF assms]) (rule overtrading_keeps)
  with assms show ?thesis
    unfolding detect_overtrading_prog_def Let_def by (intro grows.safe_redis) (simp split: sum.splits)
qed

lemma message_safe:
  assumes "safe (system_ok T) ledger_grows Q s k"
  shows "safe (system_ok T) ledger_grows Q s (message_prog T D R msg k)"
proof -
  have "safe (system_ok T) ledger_grows Q s (act_redis (Stream_Ack R StreamName GroupName [fst msg]) (\<lambda>_. k))"
    by (rule grows.safe_redis) (rule assms)
  then show ?thesis
    by (simp add: message_prog_def Let_def update_bucket_safe update_adherence_safe update_tilt_safe
        update_emotion_safe detect_overtrading_safe)
qed

lemma pass_safe:
  fixes R :: "'r redis_ops"
  shows "safe (system_ok T) ledger_grows (\<lambda>_ _. True) s (pass_prog T D R)"
proof -
  have es: "safe (system_ok T) ledger_grows Q s (foldr (message_prog T D R) es k)"
    if "safe (system_ok T) ledger_grows Q s k" for Q es and k :: "('r, unit) prog"
    using that by (induction es) (simp_all add: message_safe)
  have sts: "safe (system_ok T) ledger_grows Q s (streams_prog T D R streams k)"
    if "safe (system_ok T) ledger_grows Q s k" for Q streams and k :: "('r, unit) prog"
    using that by (induction streams) (simp_all add: streams_prog_def es)
  have "safe (system_ok T) ledger_grows (\<lambda>_ _. True) s (Ret ())" by (rule safe_Ret) simp
  then have "safe (system_ok T) ledger_grows (\<lambda>_ _. True) s
      (case x of Inl _ \<Rightarrow> Ret () | Inr streams \<Rightarrow> streams_prog T D R streams (Ret ()))" for x :: "string + (string \<times> entry list) list"
    by (cases x) (auto intro: sts)
  then show ?thesis unfolding pass_prog_def by (intro grows.safe_redis)
qed

end

lemma task_safe: "safe (system_ok T) ledger_grows (\<lambda>_ _. True) s (task_prog R t)"
  unfolding task_prog_def by (rule safe_Act) (auto intro: safe_Ret)

section \<open>The requests are safe\<close>

text \<open>
  What stands behind an answer. A trade that is answered is a row of the table: to a POST, the
  row under the ID of the body, which names the authenticated subject as its user; to a GET, a row
  of the subject. A summary is of a session of the subject and lists rows of that session. A
  debrief that is answered is a row, of a session of the subject.
\<close>

definition subject :: "('r, 'd) deps \<Rightarrow> moment \<Rightarrow> request \<Rightarrow> string \<Rightarrow> bool" where
  "subject d m r = authenticates (dp_J d) (mo_now m) (dp_jwtSecret d) (rq_authorization r)"

fun backed :: "('r, 'd) deps \<Rightarrow> moment \<Rightarrow> request \<Rightarrow> db \<Rightarrow> 'd payload \<Rightarrow> bool" where
  "backed d m r s (PTrade x) \<longleftrightarrow> (\<exists>row \<in> set (trades s). x = scanTrade (dp_D d) row
     \<and> (if rq_method r = ''POST''
        then \<exists>input. dp_decodeTrade d (rq_body r) = Inr input \<and> subject d m r (UserID input)
               \<and> pg_uuid (dp_T d) (TradeID input) = Some (TradeID row)
        else subject d m r (UserID row)))"
| "backed d m r s (PSummary x) \<longleftrightarrow> (\<exists>se \<in> set (sessions s). s_SessionID se = ss_SessionID x \<and> subject d m r (s_UserID se))
     \<and> set (ss_Trades x) \<subseteq> scanTrade (dp_D d) ` {row \<in> set (trades s). SessionID row = ss_SessionID x}"
| "backed d m r s (PDebrief i sid saved) \<longleftrightarrow>
     (\<exists>row \<in> set (debriefs s). db_DebriefID row = i \<and> db_SessionID row = sid \<and> db_SavedAt row = saved)
     \<and> (\<exists>se \<in> set (sessions s). s_SessionID se = sid \<and> subject d m r (s_UserID se))"
| "backed d m r s p \<longleftrightarrow> True"

text \<open>A POST that is answered with 200 or 201 carries such a trade or debrief.\<close>

definition acknowledged :: "('r, 'd) deps \<Rightarrow> moment \<Rightarrow> request \<Rightarrow> db \<Rightarrow> 'd response \<times> task list \<Rightarrow> bool" where
  "acknowledged d m r s a \<longleftrightarrow> backed d m r s (rs_payload (fst a))
     \<and> (rq_method r = ''POST'' \<longrightarrow>
          (rs_status (fst a) = 200 \<longrightarrow> (\<exists>x. rs_payload (fst a) = PTrade x))
          \<and> (rs_status (fst a) = 201 \<longrightarrow> (\<exists>i sid saved. rs_payload (fst a) = PDebrief i sid saved)))"

lemma backed_later:
  assumes "ledger_grows s s'" "backed d m r s p"
  shows "backed d m r s' p"
proof -
  have sub: "set (trades s) \<subseteq> set (trades s')" "set (debriefs s) \<subseteq> set (debriefs s')" "sessions s' = sessions s"
    using assms(1) by (auto simp: ledger_grows_def)
  show ?thesis
  proof (cases p)
    case (PSummary x)
    have "scanTrade (dp_D d) ` {row \<in> set (trades s). SessionID row = ss_SessionID x}
        \<subseteq> scanTrade (dp_D d) ` {row \<in> set (trades s'). SessionID row = ss_SessionID x}"
      using sub(1) by blast
    moreover have "set (ss_Trades x) \<subseteq> scanTrade (dp_D d) ` {row \<in> set (trades s). SessionID row = ss_SessionID x}"
      using assms(2) PSummary by simp
    ultimately show ?thesis using assms(2) sub(3) PSummary by (simp only: backed.simps subset_trans)
  next
    case (PTrade x)
    with assms(2) sub(1) show ?thesis by (auto split: if_splits)
  next
    case (PDebrief i sid saved)
    with assms(2) sub(2,3) show ?thesis by auto
  qed simp_all
qed

lemma acknowledged_later: "ledger_grows s s' \<Longrightarrow> acknowledged d m r s a \<Longrightarrow> acknowledged d m r s' a"
  unfolding acknowledged_def by (blast intro: backed_later)

lemma answer_safe:
  assumes "acknowledged d m r s a"
  shows "safe I ledger_grows (acknowledged d m r) s (Ret a)"
  by (rule safe_Ret) (rule acknowledged_later [OF _ assms])

text \<open>An answer that promises nothing.\<close>

fun plain :: "'d payload \<Rightarrow> bool" where
  "plain (PTrade x) = False" | "plain (PSummary x) = False" | "plain (PDebrief i sid saved) = False" | "plain p = True"

lemma plain_respond [simp]:
  "plain (rs_payload (respondError c n code msg))" "plain (rs_payload (respondForbidden c))"
  "plain (rs_payload (respondNotFound c msg))" "plain (rs_payload (respondBadRequest c msg))"
  "plain (rs_payload (respondBytes b))" "plain (rs_payload (session_error c e))"
  by (simp_all add: respondError_def respondForbidden_def respondNotFound_def respondBadRequest_def respondJSON_def
      respondBytes_def session_error_def Let_def)

lemma other_answer_safe:
  assumes "plain (rs_payload resp)" "rq_method r = ''POST'' \<longrightarrow> rs_status resp \<notin> {200, 201}"
  shows "safe I ledger_grows (acknowledged d m r) s (Ret (resp, ts))"
  by (rule answer_safe) (use assms in \<open>cases "rs_payload resp"; simp add: acknowledged_def\<close>)

section \<open>The statements of the requests\<close>

text \<open>A query changes nothing that matters.\<close>

lemma safe_query:
  assumes pg: "postgres T" and q: "\<And>s. \<exists>ds. snd (q s) = s\<lparr>db_deliveries := ds\<rparr>"
    and k: "\<And>s1 x s2. ledger_grows s s1 \<Longrightarrow> ledger_grows s s2 \<Longrightarrow> ledger s2 = ledger s1 \<Longrightarrow> system_ok T s1 \<Longrightarrow> q s1 = (x, s2)
      \<Longrightarrow> safe (system_ok T) ledger_grows Q s2 (k x)"
  shows "safe (system_ok T) ledger_grows Q s (act_db q k)"
proof (rule grows.safe_db)
  fix s1 x s2 assume s1: "ledger_grows s s1" "system_ok T s1" and x: "q s1 = (x, s2)"
  obtain ds where s2: "s2 = s1\<lparr>db_deliveries := ds\<rparr>" using q [of s1] x by auto
  have "system_ok T s2 \<and> ledger_grows s1 s2"
    by (rule moves_keeps [OF pg _ s1(2), where D = undefined]) (rule query_moves, use s2 in blast)
  moreover from this have "ledger_grows s s2" using s1(1) by (blast intro: ledger_grows_trans)
  ultimately show "system_ok T s2 \<and> ledger_grows s1 s2 \<and> safe (system_ok T) ledger_grows Q s2 (k x)"
    using k [OF s1(1) _ _ s1(2) x] s2 by simp
qed

lemma insert_trade_moves: "moves T D s (snd (pg_send T (insert_trade T D t) s))"
proof -
  obtain ds where "snd (pg_send T (insert_trade T D t) s) = s\<lparr>db_deliveries := ds\<rparr>
     \<or> (\<exists>row. inserts_row T D t s row
          \<and> snd (pg_send T (insert_trade T D t) s) = s\<lparr>trades := trades s @ [row], db_deliveries := ds\<rparr>)"
    using insert_trade_effect by blast
  then show ?thesis
  proof (elim disjE exE conjE)
    fix row assume row: "inserts_row T D t s row"
      and s': "snd (pg_send T (insert_trade T D t) s) = s\<lparr>trades := trades s @ [row], db_deliveries := ds\<rparr>"
    have "adds_trade T D (UserID t) s row"
      using row trade_to_row_fields(6) [of T D "db_now s" t row] by (auto simp: adds_trade_def inserts_row_def)
    moreover have "snd (pg_send T (insert_trade T D t) s)
        = s\<lparr>trades := trades s @ [row], db_deliveries := ds, db_uuid_supply := db_uuid_supply s\<rparr>"
      by (simp add: s')
    ultimately show ?thesis unfolding moves_def request_writes_def by blast
  qed (blast intro: query_moves)
qed

lemma select_trade_moves: "moves T D s (snd (pg_send T (select_trade T k) s))"
  by (rule query_moves) (rule pg_send_read, simp)

text \<open>The two statements of an \<open>Upsert\<close>: an answered trade is the row under its ID.\<close>

lemma Upsert_prog_safe:
  assumes pg: "postgres T"
    and err: "\<And>s1 e. ledger_grows s s1 \<Longrightarrow> safe (system_ok T) ledger_grows Q s1 (k (Inl e))"
    and row: "\<And>s1 r. ledger_grows s s1 \<Longrightarrow> pg_uuid T (TradeID t) = Some (TradeID r) \<Longrightarrow> r \<in> set (trades s1)
      \<Longrightarrow> safe (system_ok T) ledger_grows Q s1 (k (Inr (scanTrade D r)))"
  shows "safe (system_ok T) ledger_grows Q s (Upsert_prog T D t k)"
  unfolding Upsert_prog_def
proof (rule grows.safe_db)
  fix s1 x s2 assume s1: "ledger_grows s s1" "system_ok T s1" and x: "pg_send T (insert_trade T D t) s1 = (x, s2)"
  have keeps: "system_ok T s2 \<and> ledger_grows s1 s2"
    using insert_trade_moves [of T D s1 t] x by (intro moves_keeps [OF pg _ s1(2)]) simp
  have s2: "ledger_grows s s2" using s1(1) keeps by (blast intro: ledger_grows_trans)
  have dist: "distinct (map TradeID (trades s1))" using s1(2) by (simp add: system_ok_def trades_ok_def)
  note ans = insert_trade_sent [OF x dist]
  have sel: "safe (system_ok T) ledger_grows Q s2 (act_db (pg_send T (select_trade T (TradeID t))) (\<lambda>y. case y of
      Inr r \<Rightarrow> k (Inr (scanTrade D r)) | Inl e2 \<Rightarrow> k (Inl e2)))"
  proof (rule grows.safe_db)
    fix s3 y s4 assume s3: "ledger_grows s2 s3" "system_ok T s3" and y: "pg_send T (select_trade T (TradeID t)) s3 = (y, s4)"
    have keeps: "system_ok T s4 \<and> ledger_grows s3 s4"
      using select_trade_moves [of T D s3 "TradeID t"] y by (intro moves_keeps [OF pg _ s3(2), of D]) simp
    have s4: "ledger_grows s s4" using s2 s3(1) keeps by (blast intro: ledger_grows_trans)
    note found = select_trade_sent [OF y]
    have "safe (system_ok T) ledger_grows Q s4 (case y of Inr r \<Rightarrow> k (Inr (scanTrade D r)) | Inl e2 \<Rightarrow> k (Inl e2))"
    proof (cases y)
      case (Inr r)
      with found obtain u where "pg_uuid T (TradeID t) = Some u" "tbl_lookup TradeID u (trades s4) = Some r"
        by (auto simp: ptr_and_iff)
      with row [OF s4] tbl_lookup_Some [of TradeID u "trades s4" r] Inr show ?thesis by simp
    qed (use err [OF s4] in simp)
    with keeps show "system_ok T s4 \<and> ledger_grows s3 s4
        \<and> safe (system_ok T) ledger_grows Q s4 (case y of Inr r \<Rightarrow> k (Inr (scanTrade D r)) | Inl e2 \<Rightarrow> k (Inl e2))" by blast
  qed
  have "safe (system_ok T) ledger_grows Q s2 (case x of
      Inr r \<Rightarrow> k (Inr (scanTrade D r))
    | Inl e \<Rightarrow> if error_is e ErrNoRows
        then act_db (pg_send T (select_trade T (TradeID t))) (\<lambda>y. case y of
               Inr r \<Rightarrow> k (Inr (scanTrade D r)) | Inl e2 \<Rightarrow> k (Inl e2))
        else k (Inl e))"
  proof (cases x)
    case (Inr r)
    with ans row [OF s2, of r] tbl_lookup_Some [of TradeID _ "trades s2" r] show ?thesis by auto
  qed (use err [OF s2] sel in simp)
  with keeps show "system_ok T s2 \<and> ledger_grows s1 s2 \<and> safe (system_ok T) ledger_grows Q s2 (case x of
      Inr r \<Rightarrow> k (Inr (scanTrade D r))
    | Inl e \<Rightarrow> if error_is e ErrNoRows
        then act_db (pg_send T (select_trade T (TradeID t))) (\<lambda>y. case y of
               Inr r \<Rightarrow> k (Inr (scanTrade D r)) | Inl e2 \<Rightarrow> k (Inl e2))
        else k (Inl e))" by blast
qed

lemma check_revenge_prog_safe:
  assumes "\<And>b. safe (system_ok T) ledger_grows Q s (k (t\<lparr>RevengeFlag := b\<rparr>))"
  shows "safe (system_ok T) ledger_grows Q s (check_revenge_prog R t k)"
proof -
  have t: "safe (system_ok T) ledger_grows Q s (k t)" using assms [of "RevengeFlag t"] by (cases t) simp
  have "safe (system_ok T) ledger_grows Q s (case x of
      Inr n \<Rightarrow> if 0 < n \<and> IsRevenge (time_unix n) (EntryAt t) e then k (t\<lparr>RevengeFlag := True\<rparr>) else k t
    | Inl _ \<Rightarrow> k t)" for x :: "string + int" and e
    using t assms by (cases x) auto
  with t show ?thesis unfolding check_revenge_prog_def
    by (cases "EmotionalState t") (auto intro: grows.safe_redis)
qed

text \<open>The insertion of a debrief for a session the subject owns, and a read of a session.\<close>

lemma InsertDebrief_moves:
  assumes ins: "InsertDebrief T x (debrief_of_input input) s = (y, s')"
    and own: "pg_uuid T x = Some u" "tbl_lookup s_SessionID u (sessions s) = Some se"
  shows "moves T D s s'"
    and "y = Inr result \<Longrightarrow> \<exists>row \<in> set (debriefs s'). s_SessionID se = db_SessionID row
      \<and> de_DebriefID result = db_DebriefID row \<and> de_SessionID result = db_SessionID row \<and> de_SavedAt result = db_SavedAt row"
proof -
  from InsertDebrief_effect [OF ins] consider
    (failed) ds us e where "y = Inl e" "s' = s\<lparr>db_deliveries := ds, db_uuid_supply := us\<rparr>"
  | (stored) ds us row where "records_debrief T x input s row"
      "s' = s\<lparr>db_deliveries := ds, debriefs := debriefs s @ [row], db_uuid_supply := us\<rparr>"
      "y \<in> {Inl (pg_error T ConnectionLost), Inr (empty_debrief\<lparr>de_DebriefID := db_DebriefID row,
             de_SessionID := db_SessionID row, de_SavedAt := db_SavedAt row\<rparr>)}"
    by blast
  note effect = this
  show "moves T D s s'"
    using effect
  proof cases
    case stored
    have "adds_debrief (s_UserID se) s row"
      using stored(1) own by (simp add: adds_debrief_def records_debrief_def)
    moreover have "s' = s\<lparr>debriefs := debriefs s @ [row], db_deliveries := ds, db_uuid_supply := us\<rparr>"
      by (simp add: stored(2))
    ultimately show ?thesis unfolding moves_def request_writes_def by blast
  qed (simp add: moves_def ledger_def)
  show "\<exists>row \<in> set (debriefs s'). s_SessionID se = db_SessionID row
      \<and> de_DebriefID result = db_DebriefID row \<and> de_SessionID result = db_SessionID row \<and> de_SavedAt result = db_SavedAt row" if "y = Inr result"
    using effect
  proof cases
    case stored
    with that own tbl_lookup_Some [OF own(2)] show ?thesis by (auto simp: records_debrief_def empty_debrief_def)
  qed (use that in simp)
qed

section \<open>The requests are safe\<close>

text \<open>The writing requests.\<close>

lemma Create_prog_safe:
  assumes pg: "postgres (dp_T d)" and auth: "subject d m r (UserIDFromContext c)" and post: "rq_method r = ''POST''"
  shows "safe (system_ok (dp_T d)) ledger_grows (acknowledged d m r) s
    (Create_prog (dp_T d) (dp_D d) (dp_R d) (dp_decodeTrade d) (r\<lparr>rq_params := ps\<rparr>) c)"
proof -
  have "safe (system_ok (dp_T d)) ledger_grows (acknowledged d m r) s (save_trade_prog (dp_T d) (dp_D d) (dp_R d) input c)"
    if input: "dp_decodeTrade d (rq_body r) = Inr input" "UserID input = UserIDFromContext c" for input
    unfolding save_trade_prog_def
  proof (rule check_revenge_prog_safe, rule Upsert_prog_safe [OF pg], goal_cases)
    case (1 b s1 e)
    show ?case by (simp add: other_answer_safe status_defs)
  next
    case (2 b s1 row)
    then have "backed d m r s1 (PTrade (scanTrade (dp_D d) row))" using input auth post by auto
    then have "acknowledged d m r s1 (respondJSON StatusOK (PTrade (scanTrade (dp_D d) row)), ts)" for ts
      by (simp add: acknowledged_def respondJSON_def StatusOK_def)
    then show ?case by (simp add: answer_safe)
  qed
  then show ?thesis
    by (auto simp: Create_prog_def other_answer_safe status_defs split: sum.splits option.splits)
qed

lemma session_error_safe: "safe I ledger_grows (acknowledged d m r) s (Ret (session_error c e, ts))"
  by (rule other_answer_safe) (simp_all add: session_error_def status_defs)

lemma save_debrief_prog_safe:
  assumes pg: "postgres (dp_T d)" and auth: "subject d m r (s_UserID se)"
    and se: "pg_uuid (dp_T d) x = Some u" "tbl_lookup s_SessionID u (sessions s) = Some se"
  shows "safe (system_ok (dp_T d)) ledger_grows (acknowledged d m r) s
    (save_debrief_prog (dp_T d) decode x (r\<lparr>rq_params := ps\<rparr>) c)"
proof -
  let ?T = "dp_T d"
  have "safe (system_ok ?T) ledger_grows (acknowledged d m r) s
    (act_db (InsertDebrief ?T x (debrief_of_input input)) (\<lambda>y. Ret (case y of
         Inl err \<Rightarrow> (respondError c StatusInternalServerError ''INTERNAL_ERROR'' ''Failed to save debrief'', [])
       | Inr result \<Rightarrow> (respondJSON StatusCreated
           (PDebrief (de_DebriefID result) (de_SessionID result) (de_SavedAt result)), []))))" for input
  proof (rule grows.safe_db)
    fix s1 y s2 assume s1: "ledger_grows s s1" "system_ok ?T s1"
      and y: "InsertDebrief ?T x (debrief_of_input input) s1 = (y, s2)"
    have own: "tbl_lookup s_SessionID u (sessions s1) = Some se" using s1(1) se(2) by (simp add: ledger_grows_def)
    note ins = InsertDebrief_moves [OF y se(1) own]
    have keeps: "system_ok ?T s2 \<and> ledger_grows s1 s2" by (rule moves_keeps [OF pg ins(1) s1(2)])
    then have "se \<in> set (sessions s2)" using tbl_lookup_Some [OF own] by (simp add: ledger_grows_def)
    then have "backed d m r s2 (PDebrief (de_DebriefID result) (de_SessionID result) (de_SavedAt result))"
      if "y = Inr result" for result
      using ins(2) [OF that] auth by auto
    then have "acknowledged d m r s2 (respondJSON StatusCreated
        (PDebrief (de_DebriefID result) (de_SessionID result) (de_SavedAt result)), [])" if "y = Inr result" for result
      using that by (simp add: acknowledged_def respondJSON_def StatusCreated_def)
    with keeps show "system_ok ?T s2 \<and> ledger_grows s1 s2 \<and> safe (system_ok ?T) ledger_grows (acknowledged d m r) s2
      (Ret (case y of
         Inl err \<Rightarrow> (respondError c StatusInternalServerError ''INTERNAL_ERROR'' ''Failed to save debrief'', [])
       | Inr result \<Rightarrow> (respondJSON StatusCreated
           (PDebrief (de_DebriefID result) (de_SessionID result) (de_SavedAt result)), [])))"
      by (cases y) (auto simp: answer_safe other_answer_safe status_defs)
  qed
  then show ?thesis
    by (auto simp: save_debrief_prog_def other_answer_safe status_defs split: sum.splits)
qed

text \<open>A session that is read is a row of the sessions, then and later.\<close>

lemma Debrief_prog_safe:
  assumes pg: "postgres (dp_T d)" and auth: "subject d m r (UserIDFromContext c)"
  shows "safe (system_ok (dp_T d)) ledger_grows (acknowledged d m r) s
    (Debrief_prog (dp_T d) decode (r\<lparr>rq_params := ps\<rparr>) c)"
  unfolding Debrief_prog_def Let_def
proof (rule safe_query [OF pg GetSession_state])
  let ?T = "dp_T d" and ?x = "URLParam (r\<lparr>rq_params := ps\<rparr>) ''sessionId''"
  fix s1 x s2 assume s2: "ledger s2 = ledger s1" and x: "GetSession ?T ?x s1 = (x, s2)"
  have "safe (system_ok ?T) ledger_grows (acknowledged d m r) s2 (save_debrief_prog ?T decode ?x (r\<lparr>rq_params := ps\<rparr>) c)"
    if sess: "x = Inr sess" "se_UserID sess = UserIDFromContext c" for sess
  proof -
    obtain u se where se: "pg_uuid ?T ?x = Some u" "tbl_lookup s_SessionID u (sessions s1) = Some se" "sess = scan_session se"
      using GetSession_Inr x sess(1) by blast
    then have "s_UserID se = UserIDFromContext c" using sess(2) by (simp add: scan_session_def)
    with auth se s2 show ?thesis by (intro save_debrief_prog_safe [OF pg]) (simp_all add: ledger_def)
  qed
  then show "safe (system_ok ?T) ledger_grows (acknowledged d m r) s2 (case x of
      Inl err \<Rightarrow> Ret (session_error c err, [])
    | Inr sess \<Rightarrow> if se_UserID sess \<noteq> UserIDFromContext c then Ret (respondForbidden c, [])
        else save_debrief_prog ?T decode ?x (r\<lparr>rq_params := ps\<rparr>) c)"
    by (auto simp: other_answer_safe session_error_safe split: sum.splits)
qed

text \<open>The reading requests.\<close>

lemma Trade_Get_prog_safe:
  assumes pg: "postgres (dp_T d)" and auth: "subject d m r (UserIDFromContext c)" and get: "rq_method r \<noteq> ''POST''"
  shows "safe (system_ok (dp_T d)) ledger_grows (acknowledged d m r) s
    (Trade_Get_prog (dp_T d) (dp_D d) (r\<lparr>rq_params := ps\<rparr>) c)"
  unfolding Trade_Get_prog_def
proof (rule safe_query [OF pg GetByID_frame])
  let ?x = "URLParam (r\<lparr>rq_params := ps\<rparr>) ''tradeId''"
  fix s1 x s2 assume s2: "ledger s2 = ledger s1" and x: "GetByID (dp_T d) (dp_D d) ?x s1 = (x, s2)"
  have "acknowledged d m r s2 (respondJSON StatusOK (PTrade trade), [])"
    if trade: "x = Inr trade" "UserID trade = UserIDFromContext c" for trade
  proof -
    obtain row where "pg_send (dp_T d) (select_trade (dp_T d) ?x) s1 = (Inr row, s2)" "trade = scanTrade (dp_D d) row"
      using x trade(1) by (auto simp: GetByID_def split: prod.splits sum.splits if_splits)
    with select_trade_sent [of "dp_T d" ?x s1 "Inr row" s2] have "row \<in> set (trades s2)"
      by (auto simp: ptr_and_iff dest: tbl_lookup_Some)
    moreover have "UserID row = UserIDFromContext c" using trade(2) \<open>trade = _\<close> by (simp add: scanTrade_def)
    ultimately show ?thesis
      using auth get \<open>trade = _\<close> by (auto simp: acknowledged_def respondJSON_def)
  qed
  then show "safe (system_ok (dp_T d)) ledger_grows (acknowledged d m r) s2 (Ret (case x of
      Inl err \<Rightarrow> if error_is err ErrNotFound
        then (respondNotFound c ''Trade with the given tradeId does not exist.'', [])
        else (respondError c StatusInternalServerError ''INTERNAL_ERROR'' ''Failed to fetch trade'', [])
    | Inr trade \<Rightarrow> if UserID trade \<noteq> UserIDFromContext c then (respondForbidden c, [])
        else (respondJSON StatusOK (PTrade trade), [])))"
    by (auto simp: other_answer_safe answer_safe status_defs split: sum.splits)
qed

lemma listed_trades:
  assumes "postgres T" "ListBySession T D x s = (Inr ts, s')" "pg_uuid T x = Some u"
  shows "set ts \<subseteq> scanTrade D ` {row \<in> set (trades s). SessionID row = u}"
  using ListBySession_Inr [OF assms(2)] assms(3) postgres.scan_set [OF assms(1)]
  by (auto simp: scanTradeRows_def)

lemma Session_Get_prog_safe:
  assumes pg: "postgres (dp_T d)" and auth: "subject d m r (UserIDFromContext c)" and get: "rq_method r \<noteq> ''POST''"
  shows "safe (system_ok (dp_T d)) ledger_grows (acknowledged d m r) s
    (Session_Get_prog (dp_T d) (dp_D d) (r\<lparr>rq_params := ps\<rparr>) c)"
  unfolding Session_Get_prog_def GetWithTrades_prog_def
proof (rule safe_query [OF pg GetSession_state])
  let ?T = "dp_T d" and ?D = "dp_D d" and ?x = "URLParam (r\<lparr>rq_params := ps\<rparr>) ''sessionId''"
  let ?k = "\<lambda>x. Ret (case x of Inl err \<Rightarrow> (session_error c err, [])
    | Inr summary \<Rightarrow> if ss_UserID summary \<noteq> UserIDFromContext c then (respondForbidden c, [])
        else (respondJSON StatusOK (PSummary summary), []))"
  fix s1 x s2 assume s2: "ledger s2 = ledger s1" and x: "GetSession ?T ?x s1 = (x, s2)"
  have err: "safe (system_ok ?T) ledger_grows (acknowledged d m r) s' (?k (Inl e))" for s' e
    by (simp add: session_error_safe)
  have "safe (system_ok ?T) ledger_grows (acknowledged d m r) s2
      (act_db (ListBySession ?T ?D ?x) (\<lambda>y. case y of Inl e \<Rightarrow> ?k (Inl e) | Inr ts \<Rightarrow> ?k (Inr (summarize ?D sess ts))))"
    if sess: "x = Inr sess" for sess
  proof (rule safe_query [OF pg query_frame(1)])
    fix s3 y s4 assume s3: "ledger_grows s2 s3" "ledger_grows s2 s4" "ledger s4 = ledger s3"
      and y: "ListBySession ?T ?D ?x s3 = (y, s4)"
    obtain u se where se: "pg_uuid ?T ?x = Some u" "tbl_lookup s_SessionID u (sessions s1) = Some se" "sess = scan_session se"
      using GetSession_Inr x sess by blast
    have row: "se \<in> set (sessions s4)" "s_SessionID se = u"
      using tbl_lookup_Some [OF se(2)] s2 s3(2) by (auto simp: ledger_def ledger_grows_def)
    have "backed d m r s4 (PSummary (summarize ?D sess ts))" if "y = Inr ts" "s_UserID se = UserIDFromContext c" for ts
      using listed_trades [OF pg _ se(1), of ?D s3 ts s4] y that row auth s3(3) se(3)
      by (auto simp: summarize_fields scan_session_def ledger_def)
    then show "safe (system_ok ?T) ledger_grows (acknowledged d m r) s4
        (case y of Inl e \<Rightarrow> ?k (Inl e) | Inr ts \<Rightarrow> ?k (Inr (summarize ?D sess ts)))"
      using err get se(3) by (cases y)
        (auto simp: summarize_fields scan_session_def acknowledged_def respondJSON_def other_answer_safe intro!: answer_safe)
  qed
  note listed = this
  show "safe (system_ok ?T) ledger_grows (acknowledged d m r) s2 (case x of Inl e \<Rightarrow> ?k (Inl e)
      | Inr sess \<Rightarrow> act_db (ListBySession ?T ?D ?x) (\<lambda>y. case y of Inl e \<Rightarrow> ?k (Inl e) | Inr ts \<Rightarrow> ?k (Inr (summarize ?D sess ts))))"
  proof (cases x)
    case (Inl e)
    with err show ?thesis by simp
  next
    case (Inr sess)
    from listed [OF Inr] show ?thesis by (simp only: Inr sum.case)
  qed
qed

lemma auth_prog_safe:
  assumes "\<And>sub. authenticates J now secret (rq_authorization r) sub
      \<Longrightarrow> safe I ledger_grows (acknowledged d m q) s (nxt r (c\<lparr>cx_userId := Some sub\<rparr>))"
  shows "safe I ledger_grows (acknowledged d m q) s (auth_prog J now secret nxt r c)"
proof -
  have no: "safe I ledger_grows (acknowledged d m q) s (Ret (respondAuthError StatusUnauthorized code msg i, []))" for code msg i
    by (rule other_answer_safe) (simp_all add: respondAuthError_def StatusUnauthorized_def)
  show ?thesis
  proof (cases "length (splitn2_space (rq_authorization r)) = 2 \<and> equal_fold (splitn2_space (rq_authorization r) ! 0) ''Bearer''")
    case True
    then obtain a b where "splitn2_space (rq_authorization r) = [a, b]" "equal_fold a ''Bearer''"
      using splitn2_space_cases [of "rq_authorization r"] by auto
    then show ?thesis
      using no assms by (auto simp: auth_prog_def Let_def authenticates_iff split: sum.splits)
  qed (auto simp: auth_prog_def Let_def no)
qed

text \<open>The endpoints whose answers carry no row: whatever their queries answer, they stay safe.\<close>

lemma bytes_safe: "rq_method r \<noteq> ''POST'' \<Longrightarrow> safe I ledger_grows (acknowledged d m r) s (Ret (respondBytes b, ts))"
  by (rule other_answer_safe) simp_all

lemma Coaching_prog_safe:
  assumes "postgres (dp_T d)" "rq_method r \<noteq> ''POST''"
  shows "safe (system_ok (dp_T d)) ledger_grows (acknowledged d m r) s (Coaching_prog (dp_T d) cancelled flusher q c)"
  unfolding Coaching_prog_def
  by (rule safe_query [OF assms(1) GetSession_state])
    (auto simp: assms(2) session_error_safe intro!: other_answer_safe split: sum.splits)

lemma Metrics_prog_safe:
  assumes pg: "postgres (dp_T d)" and get: "rq_method r \<noteq> ''POST''"
  shows "safe (system_ok (dp_T d)) ledger_grows (acknowledged d m r) s (Metrics_prog (dp_T d) D R marshal q c)"
proof -
  have qm: "safe (system_ok (dp_T d)) ledger_grows (acknowledged d m r) s (query_metrics_prog (dp_T d) D u p k)"
    if k: "\<And>s y. safe (system_ok (dp_T d)) ledger_grows (acknowledged d m r) s (k y)" for u p k s
    unfolding query_metrics_prog_def
  proof (rule safe_query [OF pg metrics_queries_state(1)], goal_cases)
    case (1 s1 x s2)
    show ?case
      by (cases x) (auto simp: k split: sum.splits intro!: safe_query [OF pg metrics_queries_state(2)]
        safe_query [OF pg metrics_queries_state(3)] safe_query [OF pg metrics_queries_state(4)])
  qed
  show ?thesis
    by (auto simp: Metrics_prog_def Let_def get other_answer_safe bytes_safe
        intro!: grows.safe_redis qm split: sum.splits option.splits)
qed

lemma Profile_prog_safe:
  assumes pg: "postgres (dp_T d)" and get: "rq_method r \<noteq> ''POST''"
  shows "safe (system_ok (dp_T d)) ledger_grows (acknowledged d m r) s (Profile_prog (dp_T d) R marshal now q c)"
proof -
  have fp: "safe (system_ok (dp_T d)) ledger_grows (acknowledged d m r) s (find_pathologies_prog (dp_T d) u n ps k)"
    if "\<And>s y. safe (system_ok (dp_T d)) ledger_grows (acknowledged d m r) s (k y)" for u n ps k s
    using that by (induction ps arbitrary: s k) (auto simp: Let_def intro!: safe_query [OF pg query_frame(4)])
  have bp: "safe (system_ok (dp_T d)) ledger_grows (acknowledged d m r) s (build_profile_prog (dp_T d) now u k)"
    if "\<And>s y. safe (system_ok (dp_T d)) ledger_grows (acknowledged d m r) s (k y)" for u k s
    unfolding build_profile_prog_def Let_def by (intro safe_query [OF pg query_frame(4)] fp that)
  show ?thesis
    by (auto simp: Profile_prog_def Let_def get other_answer_safe bytes_safe
        intro!: grows.safe_redis safe_query [OF pg User_GetByID_state] bp split: sum.splits option.splits)
qed

lemma Health_prog_safe:
  assumes "postgres (dp_T d)" "rq_method r \<noteq> ''POST''"
  shows "safe (system_ok (dp_T d)) ledger_grows (acknowledged d m r) s (Health_prog (dp_T d) R now q c)"
  unfolding Health_prog_def Let_def
  by (rule safe_query [OF assms(1)])
    (auto simp: pg_ping_def assms(2) respondJSON_def intro!: pg_send_read grows.safe_redis other_answer_safe)

lemma route_table_method:
  "map_of route_table (meth, pat) = Some (pr, e) \<Longrightarrow> meth = ''POST'' \<longleftrightarrow> e \<in> {TradesCreate, SessionsDebrief}"
  by (auto simp: route_table_def split: if_splits)

lemma serve_prog_safe:
  assumes pg: "postgres (dp_T d)"
  shows "safe (system_ok (dp_T d)) ledger_grows (acknowledged d m r) s (serve_prog d m r)"
proof -
  have prot: "safe (system_ok (dp_T d)) ledger_grows (acknowledged d m r) s
      (auth_prog (dp_J d) (mo_now m) (dp_jwtSecret d) (endpoint_prog d m e) (r\<lparr>rq_params := ps\<rparr>) c)"
    if route: "map_of route_table (rq_method r, pat) = Some (p, e)" for pat p e ps c
  proof (rule auth_prog_safe)
    fix sub assume "authenticates (dp_J d) (mo_now m) (dp_jwtSecret d) (rq_authorization (r\<lparr>rq_params := ps\<rparr>)) sub"
    then have auth: "subject d m r (UserIDFromContext (c\<lparr>cx_userId := Some sub\<rparr>))"
      by (simp add: UserIDFromContext_def subject_def)
    note meth = route_table_method [OF route]
    show "safe (system_ok (dp_T d)) ledger_grows (acknowledged d m r) s
        (endpoint_prog d m e (r\<lparr>rq_params := ps\<rparr>) (c\<lparr>cx_userId := Some sub\<rparr>))"
      using meth by (cases e) (simp_all add: Create_prog_safe [OF pg auth] Debrief_prog_safe [OF pg auth]
          Trade_Get_prog_safe [OF pg auth] Session_Get_prog_safe [OF pg auth] Coaching_prog_safe [OF pg]
          Metrics_prog_safe [OF pg] Profile_prog_safe [OF pg] Health_prog_safe [OF pg])
  qed
  have opened: "safe (system_ok (dp_T d)) ledger_grows (acknowledged d m r) s (endpoint_prog d m e (r\<lparr>rq_params := ps\<rparr>) c)"
    if "map_of route_table (rq_method r, pat) = Some (False, e)" for pat e ps c
    using route_table_open [OF that] by (simp add: Health_prog_safe [OF pg])
  show ?thesis
    by (auto simp: serve_prog_def prot opened not_found_response_def method_not_allowed_response_def
        intro!: other_answer_safe split: route_match.splits option.splits)
qed

section \<open>The threads together\<close>

text \<open>
  The servers, the requests with what is left of their programs, and the other threads: goroutines
  that requests have started, and passes of the workers.
\<close>

record ('r, 'd) pool =
  po_world :: "'r world"
  po_requests :: "(moment \<times> request \<times> ('r, 'd) request_prog) list"
  po_threads :: "('r, unit) prog list"

abbreviation po_db :: "('r, 'd) pool \<Rightarrow> db" where "po_db s \<equiv> w_db (po_world s)"

text \<open>
  A request arrives at any time, and any thread that is not finished takes its next action. A
  request that has answered starts the goroutines of its answer. A thread is lost when its process
  dies or its context is cancelled. Redis, the clock, the supply of fresh UUIDs and the
  connections change on their own.
\<close>

inductive pool_step :: "('r, 'd) deps \<Rightarrow> ('r, 'd) pool \<Rightarrow> ('r, 'd) pool \<Rightarrow> bool" for d :: "('r, 'd) deps" where
  arrives: "pool_step d s (s\<lparr>po_requests := po_requests s @ [(m, r, serve_prog d m r)]\<rparr>)"
| request_acts: "i < length (po_requests s) \<Longrightarrow> po_requests s ! i = (m, r, Act f) \<Longrightarrow> f (po_world s) = (p, w')
    \<Longrightarrow> pool_step d s (s\<lparr>po_world := w', po_requests := (po_requests s)[i := (m, r, p)]\<rparr>)"
| request_lost: "po_requests s = before @ q # after
    \<Longrightarrow> pool_step d s (s\<lparr>po_requests := before @ after\<rparr>)"
| task_starts: "(m, r, Ret (resp, ts)) \<in> set (po_requests s) \<Longrightarrow> t \<in> set ts
    \<Longrightarrow> pool_step d s (s\<lparr>po_threads := po_threads s @ [task_prog (dp_R d) t]\<rparr>)"
| pass_starts: "pool_step d s (s\<lparr>po_threads := po_threads s @ [pass_prog (dp_T d) (dp_D d) (dp_R d)]\<rparr>)"
| thread_acts: "i < length (po_threads s) \<Longrightarrow> po_threads s ! i = Act f \<Longrightarrow> f (po_world s) = (p, w')
    \<Longrightarrow> pool_step d s (s\<lparr>po_world := w', po_threads := (po_threads s)[i := p]\<rparr>)"
| thread_lost: "po_threads s = before @ p # after
    \<Longrightarrow> pool_step d s (s\<lparr>po_threads := before @ after\<rparr>)"
| redis_changes: "pool_step d s (s\<lparr>po_world := (po_world s)\<lparr>w_redis := r'\<rparr>\<rparr>)"
| database_changes: "pool_step d s (s\<lparr>po_world := (po_world s)\<lparr>w_db := (po_db s)
      \<lparr>db_now := t, db_uuid_supply := us, db_deliveries := ds\<rparr>\<rparr>\<rparr>)"

definition pool_ok :: "('r, 'd) deps \<Rightarrow> ('r, 'd) pool \<Rightarrow> bool" where
  "pool_ok d s \<longleftrightarrow> system_ok (dp_T d) (po_db s)
     \<and> (\<forall>(m, r, p) \<in> set (po_requests s). safe (system_ok (dp_T d)) ledger_grows (acknowledged d m r) (po_db s) p)
     \<and> (\<forall>p \<in> set (po_threads s). safe (system_ok (dp_T d)) ledger_grows (\<lambda>_ _. True) (po_db s) p)"

lemma pool_moved:
  assumes "pool_ok d s" "system_ok (dp_T d) (po_db s')" "ledger_grows (po_db s) (po_db s')"
    and "set (po_requests s') \<subseteq> set (po_requests s) \<union> A" "set (po_threads s') \<subseteq> set (po_threads s) \<union> B"
    and "\<forall>(m, r, p) \<in> A. safe (system_ok (dp_T d)) ledger_grows (acknowledged d m r) (po_db s') p"
    and "\<forall>p \<in> B. safe (system_ok (dp_T d)) ledger_grows (\<lambda>_ _. True) (po_db s') p"
  shows "pool_ok d s' \<and> ledger_grows (po_db s) (po_db s')"
proof -
  have "safe (system_ok (dp_T d)) ledger_grows (acknowledged d m r) (po_db s') p"
    if "(m, r, p) \<in> set (po_requests s)" for m r p
    using assms(1) that by (intro grows.safe_later [OF _ assms(3)]) (auto simp: pool_ok_def)
  moreover have "safe (system_ok (dp_T d)) ledger_grows (\<lambda>_ _. True) (po_db s') p"
    if "p \<in> set (po_threads s)" for p
    using assms(1) that by (intro grows.safe_later [OF _ assms(3)]) (auto simp: pool_ok_def)
  ultimately show ?thesis using assms(2-7) unfolding pool_ok_def by blast
qed

lemma pool_step_ok:
  assumes pg: "postgres (dp_T d)" and "pool_step d s s'" and ok: "pool_ok d s"
  shows "pool_ok d s' \<and> ledger_grows (po_db s) (po_db s')"
proof -
  have sys: "system_ok (dp_T d) (po_db s)" using ok by (simp add: pool_ok_def)
  note moved = pool_moved [OF ok]
  from assms(2) show ?thesis
  proof cases
    case (arrives m r)
    then show ?thesis
      by (intro moved [where A = "{(m, r, serve_prog d m r)}" and B = "{}"]) (simp_all add: sys serve_prog_safe [OF pg])
  next
    case (request_acts i m r f p w')
    then have "safe (system_ok (dp_T d)) ledger_grows (acknowledged d m r) (po_db s) (Act f)"
      using ok nth_mem [of i "po_requests s"] by (fastforce simp: pool_ok_def)
    from grows.safe_run [OF this request_acts(4) sys] request_acts(1) set_update_subset_insert [of "po_requests s" i "(m, r, p)"]
    show ?thesis by (intro moved [where A = "{(m, r, p)}" and B = "{}"]) auto
  next
    case (thread_acts i f p w')
    then have "safe (system_ok (dp_T d)) ledger_grows (\<lambda>_ _. True) (po_db s) (Act f)"
      using ok nth_mem [of i "po_threads s"] by (simp add: pool_ok_def)
    from grows.safe_run [OF this thread_acts(4) sys] thread_acts(1) set_update_subset_insert [of "po_threads s" i p]
    show ?thesis by (intro moved [where A = "{}" and B = "{p}"]) auto
  next
    case (task_starts m r resp ts t)
    then show ?thesis
      by (intro moved [where A = "{}" and B = "{task_prog (dp_R d) t}"]) (simp_all add: sys task_safe)
  next
    case pass_starts
    then show ?thesis
      by (intro moved [where A = "{}" and B = "{pass_prog (dp_T d) (dp_D d) (dp_R d)}"])
        (simp_all add: sys postgres.pass_safe [OF pg])
  next
    case (database_changes t us ds)
    have "moves (dp_T d) (dp_D d) (po_db s) (po_db s')" by (simp add: database_changes moves_def ledger_def)
    from moves_keeps [OF pg this sys] show ?thesis
      by (intro moved [where A = "{}" and B = "{}"]) (simp_all add: database_changes)
  qed (intro moved [where A = "{}" and B = "{}"]; auto simp: sys)+
qed

lemma pool_steps_ok:
  assumes "postgres (dp_T d)" "(pool_step d)\<^sup>*\<^sup>* s0 s" "pool_ok d s0"
  shows "pool_ok d s \<and> ledger_grows (po_db s0) (po_db s)"
  using assms(2)
proof (induction rule: rtranclp_induct)
  case (step s1 s2)
  then show ?case using pool_step_ok [OF assms(1) step.hyps(2)] by (blast intro: ledger_grows_trans)
qed (simp add: assms(3))

text \<open>A request that nothing interrupts runs as the router runs it.\<close>

lemma request_runs:
  assumes "run_prog p w = (a, w')"
  shows "(pool_step d)\<^sup>*\<^sup>* \<lparr>po_world = w, po_requests = [(m, r, p)], po_threads = []\<rparr>
    \<lparr>po_world = w', po_requests = [(m, r, Ret a)], po_threads = []\<rparr>"
  using assms
proof (induction p arbitrary: w)
  case (Act f)
  obtain p1 w1 where f: "f w = (p1, w1)" by fastforce
  have "pool_step d \<lparr>po_world = w, po_requests = [(m, r, Act f)], po_threads = []\<rparr>
      \<lparr>po_world = w1, po_requests = [(m, r, p1)], po_threads = []\<rparr>"
    using request_acts [of 0 "\<lparr>po_world = w, po_requests = [(m, r, Act f)], po_threads = []\<rparr>" m r f p1 w1 d] f by simp
  moreover have "(pool_step d)\<^sup>*\<^sup>* \<lparr>po_world = w1, po_requests = [(m, r, p1)], po_threads = []\<rparr>
      \<lparr>po_world = w', po_requests = [(m, r, Ret a)], po_threads = []\<rparr>"
  proof (rule Act.IH [of "(p1, w1)" p1])
    show "(p1, w1) \<in> range f" by (rule range_eqI [of _ _ w]) (simp add: f)
    show "run_prog p1 w1 = (a, w')" using Act.prems f by simp
  qed simp
  ultimately show ?case by (rule converse_rtranclp_into_rtranclp)
qed simp

section \<open>Property\<close>

text \<open>Alice's POST of a closed losing trade, with the token that \<open>jwtgen\<close> prints for her.\<close>

definition ex_post :: "string \<Rightarrow> request" where
  "ex_post ts = bearer ts (ex_request\<lparr>rq_method := ''POST'', rq_path := ''/trades''\<rparr>)"

lemma ex_post_served:
  obtains ts where "rs_status (fst (fst (serve ex_deps ex_moment (ex_post ts) ex_world))) = 200"
proof -
  obtain ts where ts: "jwtgen_main ref_jwt ex_time [''jwtgen'', alice] = Some ts" by (simp add: jwtgen_main_def)
  have "mo_now ex_moment < time_unix (unix (ex_time + hour))"
    by (simp add: ex_moment_def ex_time_def time_unix_def unix_def duration_defs)
  then have ok: "verify_token ref_jwt (mo_now ex_moment) default_secret ts = Inr alice"
    by (intro jwtgen_verified [OF ref_jwt.jwt_library_axioms ts]) (simp_all add: alice_def ascii_def clock_ok_def ex_time_def)
  have found: "ref_chi (map fst route_table) ''POST'' ''/trades'' = Found ''/trades'' Map.empty"
    using ref_chi.found_endpoint [of "''x''" TradesCreate] by (simp add: segment_def)
  have route: "map_of route_table (''POST'', ''/trades'') = Some (True, TradesCreate)"
    using route_table_endpoint [of TradesCreate] by simp
  have ctx: "(moment_ctx ex_moment)\<lparr>cx_userId := Some alice\<rparr> = as_user alice"
    by (simp add: moment_ctx_def ex_moment_def as_user_def empty_ctx_def)
  let ?r = "ex_request\<lparr>rq_method := ''POST'', rq_path := ''/trades'', rq_params := Map.empty\<rparr>"
  have "serve ex_deps ex_moment (ex_post ts) ex_world
      = AuthMiddleware ref_jwt (mo_now ex_moment) default_secret (endpoint_handler ex_deps ex_moment TradesCreate)
          (bearer ts ?r) (moment_ctx ex_moment) ex_world"
    using found route by (simp add: serve_eq route_handler_def ex_deps_def ex_post_def bearer_def ex_request_def)
  then have "serve ex_deps ex_moment (ex_post ts) ex_world
      = Trade_Create ref_pg ref_decimal mem_ops ex_decode (bearer ts ?r) (as_user alice) ex_world"
    by (simp add: AuthMiddleware_bearer ok ctx) (simp add: ex_deps_def)
  moreover have "Trade_Create ref_pg ref_decimal mem_ops ex_decode (bearer ts ?r) (as_user alice) ex_world
      = Trade_Create ref_pg ref_decimal mem_ops ex_decode ex_request (as_user alice) ex_world"
    by (simp add: Trade_Create_def bearer_def)
  ultimately show thesis using that [of ts] ex_created(1) by simp
qed

text \<open>
  C1: Requests, goroutines and workers interleaved statement by statement keep the books. Any
  number of requests of all eight endpoints arrive at any time, run at the same time with each
  other, with the goroutines they start and with passes of any number of workers, lose their
  process or their connection between any two statements, and meet any state of Redis. In every
  state that is reached, the tables satisfy the invariant (unique keys, references, checked
  columns, bucket counts, score ranges), users and sessions are those of the beginning, and its
  trades and debriefs are still there, in front of later ones. And every answer is backed by the
  tables, then and later: an answered trade is a stored row, under the ID of the POSTed body or of
  the subject that asks for it; a summary shows a session of the subject and rows of that session;
  a debrief is a row, for a session of the subject; a POST answered 200 or 201 is so stored.
\<close>

theorem interleaved_writes:
  assumes "postgres (dp_T d)" "(pool_step d)\<^sup>*\<^sup>* \<lparr>po_world = w, po_requests = [], po_threads = []\<rparr> s"
    and "system_ok (dp_T d) (w_db w)"
  shows "system_ok (dp_T d) (po_db s) \<and> users (po_db s) = users (w_db w) \<and> sessions (po_db s) = sessions (w_db w)
    \<and> (\<exists>ts. trades (po_db s) = trades (w_db w) @ ts) \<and> (\<exists>ds. debriefs (po_db s) = debriefs (w_db w) @ ds)
    \<and> list_all (\<lambda>(m, r, p). case p of Ret a \<Rightarrow> acknowledged d m r (po_db s) a | Act _ \<Rightarrow> True) (po_requests s)"
proof -
  have "pool_ok d \<lparr>po_world = w, po_requests = [], po_threads = []\<rparr>" using assms(3) by (simp add: pool_ok_def)
  from pool_steps_ok [OF assms(1,2) this] have ok: "pool_ok d s" "ledger_grows (w_db w) (po_db s)" by simp_all
  have "acknowledged d m r (po_db s) a" if "(m, r, Ret a) \<in> set (po_requests s)" for m r a
    using ok(1) that by (auto simp: pool_ok_def dest: grows.safe_answer)
  then show ?thesis using ok by (auto simp: pool_ok_def ledger_grows_def list_all_iff split: prog.splits)
qed

theorem interleaved_writes_witness:
  "\<exists>ts resp tasks s. (pool_step ex_deps)\<^sup>*\<^sup>* \<lparr>po_world = ex_world, po_requests = [], po_threads = []\<rparr> s
     \<and> po_requests s = [(ex_moment, ex_post ts, Ret (resp, tasks))] \<and> rs_status resp = 200
     \<and> (\<exists>row \<in> set (trades (po_db s)). rs_payload resp = PTrade (scanTrade ref_decimal row))"
proof -
  obtain ts where ts: "rs_status (fst (fst (serve ex_deps ex_moment (ex_post ts) ex_world))) = 200" by (rule ex_post_served)
  obtain resp tasks w' where run: "serve ex_deps ex_moment (ex_post ts) ex_world = ((resp, tasks), w')" by (metis surj_pair)
  let ?s = "\<lparr>po_world = w', po_requests = [(ex_moment, ex_post ts, Ret (resp, tasks))], po_threads = []\<rparr>"
  have "pool_step ex_deps \<lparr>po_world = ex_world, po_requests = [], po_threads = []\<rparr>
      \<lparr>po_world = ex_world, po_requests = [(ex_moment, ex_post ts, serve_prog ex_deps ex_moment (ex_post ts))], po_threads = []\<rparr>"
    using arrives [of ex_deps "\<lparr>po_world = ex_world, po_requests = [], po_threads = []\<rparr>" ex_moment "ex_post ts"] by simp
  from converse_rtranclp_into_rtranclp [OF this request_runs]
  have steps: "(pool_step ex_deps)\<^sup>*\<^sup>* \<lparr>po_world = ex_world, po_requests = [], po_threads = []\<rparr> ?s"
    by (simp add: run_serve_prog run)
  have T: "dp_T ex_deps = ref_pg" "dp_D ex_deps = ref_decimal" by (simp_all add: ex_deps_def)
  have init: "system_ok ref_pg (w_db ex_world)"
    by (simp add: system_ok_def trades_ok_def debriefs_ok_def metrics_inv_def metrics_ok_def scores_ok_def ex_world_def ex_db_def)
  from interleaved_writes [OF _ steps, unfolded T, OF ref_pg.postgres_axioms init]
  have "acknowledged ex_deps ex_moment (ex_post ts) (w_db w') (resp, tasks)" by simp
  then have "\<exists>row \<in> set (trades (w_db w')). rs_payload resp = PTrade (scanTrade ref_decimal row)"
    using ts run T by (auto simp: acknowledged_def ex_post_def bearer_def)
  with ts run steps show ?thesis by (intro exI [of _ ts] exI [of _ resp] exI [of _ tasks] exI [of _ ?s]) simp
qed

end
