(* ===== verification/Concurrent_Counts.thy ===== *)
theory Concurrent_Counts
  imports Programs Concurrent_Posts
begin

text \<open>
  Workers that run at the same time count like one that runs alone: the statements of any number
  of batches are interleaved with each other and with those of the API, and the sums of every
  bucket come out as if the messages had been processed one after the other.
\<close>

section \<open>What a program still adds to a bucket\<close>

text \<open>The buckets are sound, the connection is up, and the bucket of \<open>k\<close> has room for a debt.\<close>

definition has_room :: "pg_types \<Rightarrow> time \<times> string \<Rightarrow> int \<Rightarrow> rat \<Rightarrow> db \<Rightarrow> bool" where
  "has_room T k c a s \<longleftrightarrow> metrics_inv T s \<and> db_deliveries s = []
     \<and> bucket_sum m_TradeCount s k + c < 2 ^ 31 \<and> \<bar>bucket_sum m_TotalPnl s k\<bar> + a < 10 ^ 10"

text \<open>
  A program owes the bucket of \<open>k\<close> the sum \<open>n\<close> of a column when every run of it adds \<open>n\<close> in the
  end, whatever happens in between, as long as there is room for its trades and its P\&L.
\<close>

inductive owes :: "pg_types \<Rightarrow> (metrics_row \<Rightarrow> 'n::ab_group_add) \<Rightarrow> time \<times> string
    \<Rightarrow> 'n \<Rightarrow> int \<Rightarrow> rat \<Rightarrow> ('r, 'b) prog \<Rightarrow> bool" for T f k where
  owes_Ret: "owes T f k 0 0 0 (Ret b)"
| owes_Act: "0 \<le> c \<Longrightarrow> 0 \<le> a \<Longrightarrow>
    (\<And>w. has_room T k c a (w_db w) \<Longrightarrow> \<exists>x c' a'.
       metrics_inv T (w_db (snd (g w))) \<and> db_up (snd (g w))
       \<and> bucket_sum f (w_db (snd (g w))) k = bucket_sum f (w_db w) k + x
       \<and> bucket_sum m_TradeCount (w_db (snd (g w))) k + c' \<le> bucket_sum m_TradeCount (w_db w) k + c
       \<and> \<bar>bucket_sum m_TotalPnl (w_db (snd (g w))) k\<bar> + a' \<le> \<bar>bucket_sum m_TotalPnl (w_db w) k\<bar> + a
       \<and> owes T f k (n - x) c' a' (fst (g w)))
    \<Longrightarrow> owes T f k n c a (Act g)"

inductive_cases owes_RetE: "owes T f k n c a (Ret b)"
inductive_cases owes_ActE: "owes T f k n c a (Act g)"

lemma owes_nonneg: "owes T f k n c a p \<Longrightarrow> 0 \<le> c \<and> 0 \<le> a"
  by (erule owes.cases) auto

lemma owes_redis:
  assumes "\<And>x. owes T f k n c a (h x)"
  shows "owes T f k n c a (act_redis q h)"
  unfolding act_redis_def
  using owes_nonneg [OF assms [of undefined]] assms
  by (intro owes_Act) (auto simp: split_beta has_room_def intro!: exI [of _ 0] exI [of _ c] exI [of _ a])

text \<open>A statement that leaves the sums of the bucket alone.\<close>

definition neutral :: "pg_types \<Rightarrow> (metrics_row \<Rightarrow> 'n::ab_group_add) \<Rightarrow> time \<times> string \<Rightarrow> 'a stmt \<Rightarrow> bool" where
  "neutral T f k q \<longleftrightarrow> (\<forall>s. metrics_inv T s \<longrightarrow> db_deliveries s = [] \<longrightarrow>
     metrics_inv T (snd (q s)) \<and> db_deliveries (snd (q s)) = [] \<and> bucket_sum f (snd (q s)) k = bucket_sum f s k
     \<and> bucket_sum m_TradeCount (snd (q s)) k = bucket_sum m_TradeCount s k
     \<and> bucket_sum m_TotalPnl (snd (q s)) k = bucket_sum m_TotalPnl s k)"

lemma owes_neutral:
  assumes "neutral T f k q" "\<And>x. owes T f k n c a (h x)"
  shows "owes T f k n c a (act_db q h)"
  unfolding act_db_def
  using owes_nonneg [OF assms(2) [of undefined]] assms
  by (intro owes_Act) (auto simp: split_beta has_room_def neutral_def intro!: exI [of _ 0] exI [of _ c] exI [of _ a])

text \<open>A statement that leaves the buckets alone is neutral.\<close>

lemma neutral_metrics:
  assumes "\<And>s. behavioral_metrics (snd (q s)) = behavioral_metrics s"
    and "\<And>s. db_deliveries s = [] \<Longrightarrow> db_deliveries (snd (q s)) = []"
  shows "neutral T f k q"
  using assms metrics_inv_cong [OF assms(1)] by (simp add: neutral_def bucket_sum_def)

context backend
begin

lemma neutral_zero_row:
  assumes "\<And>x r. f (metrics_merge x r) = f x + f r"
    and "\<And>r. \<lbrakk>m_TradeCount r = 0; m_WinCount r = 0; m_LossCount r = 0; m_RevengeCount r = 0; m_TotalPnl r = 0\<rbrakk> \<Longrightarrow> f r = 0"
  shows "neutral T f k (UpsertBucket T D u b 0 0 0 (dec_zero D) a t 0 0)"
  unfolding neutral_def
proof (intro allI impI conjI)
  fix s assume s: "metrics_inv T s" "db_deliveries s = []"
  show "metrics_inv T (snd (UpsertBucket T D u b 0 0 0 (dec_zero D) a t 0 0 s))"
    by (rule UpsertBucket_metrics_inv [OF s(1)]) simp_all
  show "db_deliveries (snd (UpsertBucket T D u b 0 0 0 (dec_zero D) a t 0 0 s)) = []" by (rule statements_up [OF s(2)])
qed (rule UpsertBucket_zero_sum; simp add: assms)+

lemma tail_owes:
  assumes add: "\<And>x r. f (metrics_merge x r) = f x + f r"
    and z: "\<And>r. \<lbrakk>m_TradeCount r = 0; m_WinCount r = 0; m_LossCount r = 0; m_RevengeCount r = 0; m_TotalPnl r = 0\<rbrakk> \<Longrightarrow> f r = 0"
    and h: "owes T f k n c a h"
  shows "owes T f k n c a (update_adherence_prog T D v h)" "owes T f k n c a (update_tilt_prog T D v h)"
    "owes T f k n c a (update_emotion_prog T v h)" "owes T f k n c a (detect_overtrading_prog T R v h)"
proof -
  have up: "owes T f k n c a (act_db (UpsertBucket T D u b 0 0 0 (dec_zero D) x t 0 0) (\<lambda>_. h))" for u b x t
    by (rule owes_neutral [OF neutral_zero_row [OF add z] h])
  have reads: "neutral T f k (GetLastPlanAdherenceRatings T u i)" "neutral T f k (GetSessionTiltData T y)" for u i y
    using pipeline_reads_frame [where V = behavioral_metrics and T = T] by (auto intro!: neutral_metrics simp: statements_up)
  have em: "owes T f k n c a (act_db (UpsertEmotionWinRate T u e b x y) (\<lambda>_. h))"
    and ov: "owes T f k n c a (act_db (InsertOvertradingEvent T u s i) (\<lambda>_. h))" for u e b x y s i
    by (auto intro!: owes_neutral [OF neutral_metrics h] simp: statements_up frame_simps)
  show "owes T f k n c a (update_adherence_prog T D v h)" "owes T f k n c a (update_tilt_prog T D v h)"
    using h up by (auto simp: update_adherence_prog_def update_tilt_prog_def
        intro!: owes_neutral [OF reads(1)] owes_neutral [OF reads(2)] split: sum.splits)
  show "owes T f k n c a (update_emotion_prog T v h)" using h em by (simp add: update_emotion_prog_def Let_def)
  show "owes T f k n c a (detect_overtrading_prog T R v h)"
    unfolding detect_overtrading_prog_def Let_def using h ov by (intro owes_redis) (simp split: sum.splits)
qed

end

section \<open>Batches of messages\<close>

context backend
begin

text \<open>The first statement of a message pays what the message owes.\<close>

lemma bucket_owes:
  fixes f :: "metrics_row \<Rightarrow> 'n::ab_group_add"
  assumes add: "\<And>x r. f (metrics_merge x r) = f x + f r" and closed: "str v ''status'' = ''closed''"
    and h: "owes T f k n c a h"
  shows "owes T f k (row_sum f (event_row T D v) k + n) (row_sum m_TradeCount (event_row T D v) k + c)
    (\<bar>row_sum m_TotalPnl (event_row T D v) k\<bar> + a) (update_bucket_prog T D v h)"
proof -
  let ?e = "event_row T D v"
  let ?q = "upsert_bucket_row T ?e"
  have nn: "0 \<le> row_sum m_TradeCount ?e k" "0 \<le> c" "0 \<le> a"
    using row_sum_event_count(1) owes_nonneg [OF h] by blast+
  have r: "metrics_row_ok r \<and> pg_numeric18_8 T (m_TotalPnl r) = Some (m_TotalPnl r)" if "?e = Some r" for r
    using event_row_ok(1) [OF that] numeric_idem [OF event_row_ok(3) [OF that]] by simp
  have pays: "\<exists>x c' a'. metrics_inv T (snd (?q s)) \<and> db_deliveries (snd (?q s)) = []
       \<and> bucket_sum f (snd (?q s)) k = bucket_sum f s k + x
       \<and> bucket_sum m_TradeCount (snd (?q s)) k + c' \<le> bucket_sum m_TradeCount s k + (row_sum m_TradeCount ?e k + c)
       \<and> \<bar>bucket_sum m_TotalPnl (snd (?q s)) k\<bar> + a' \<le> \<bar>bucket_sum m_TotalPnl s k\<bar> + (\<bar>row_sum m_TotalPnl ?e k\<bar> + a)
       \<and> owes T f k (row_sum f ?e k + n - x) c' a' h"
    if s: "has_room T k (row_sum m_TradeCount ?e k + c) (\<bar>row_sum m_TotalPnl ?e k\<bar> + a) s" for s
  proof (intro exI conjI)
    have inv: "metrics_inv T s" "db_deliveries s = []" using s by (simp_all add: has_room_def)
    have rm: "bucket_sum m_TradeCount s k + row_sum m_TradeCount ?e k < 2 ^ 31"
      "\<bar>bucket_sum m_TotalPnl s k + row_sum m_TotalPnl ?e k\<bar> < 10 ^ 10"
      using s nn abs_triangle_ineq [of "bucket_sum m_TotalPnl s k" "row_sum m_TotalPnl ?e k"]
      unfolding has_room_def by linarith+
    show "metrics_inv T (snd (?q s))" using inv(1) event_row_ok(1) by (intro metrics_inv_upsert) auto
    show "db_deliveries (snd (?q s)) = []" using inv by simp
    show "bucket_sum f (snd (?q s)) k = bucket_sum f s k + row_sum f ?e k"
      by (rule upsert_bucket_sum_at [OF inv(1) add r rm])
    have "bucket_sum m_TradeCount (snd (?q s)) k = bucket_sum m_TradeCount s k + row_sum m_TradeCount ?e k"
      by (rule upsert_bucket_sum_at [OF inv(1) _ r rm]) simp
    then show "bucket_sum m_TradeCount (snd (?q s)) k + c \<le> bucket_sum m_TradeCount s k + (row_sum m_TradeCount ?e k + c)" by simp
    have "bucket_sum m_TotalPnl (snd (?q s)) k = bucket_sum m_TotalPnl s k + row_sum m_TotalPnl ?e k"
      by (rule upsert_bucket_sum_at [OF inv(1) _ r rm]) simp
    then show "\<bar>bucket_sum m_TotalPnl (snd (?q s)) k\<bar> + a \<le> \<bar>bucket_sum m_TotalPnl s k\<bar> + (\<bar>row_sum m_TotalPnl ?e k\<bar> + a)"
      using abs_triangle_ineq [of "bucket_sum m_TotalPnl s k" "row_sum m_TotalPnl ?e k"] by simp
    show "owes T f k (row_sum f ?e k + n - row_sum f ?e k) c a h" using h by simp
  qed
  have stmt: "UpsertBucket T D (str v ''userId'') (message_bucket v) 1 (if str v ''outcome'' = OutcomeWin then 1 else 0)
      (if str v ''outcome'' = OutcomeWin then 0 else 1) (message_pnl D v) None None (message_revenge v) 0 s = ?q s"
    if "db_deliveries s = []" for s
    using that closed by (simp add: UpsertBucket_up event_row_def OutcomeWin_def)
  show ?thesis
    unfolding update_bucket_prog_def Let_def act_db_def
    by (rule owes_Act) (use nn pays stmt in \<open>simp_all add: split_beta has_room_def\<close>)
qed

end

text \<open>What a list of messages owes.\<close>

definition owed :: "pg_types \<Rightarrow> 'd decimal_ops \<Rightarrow> (metrics_row \<Rightarrow> 'n::comm_monoid_add) \<Rightarrow> time \<times> string \<Rightarrow> entry list \<Rightarrow> 'n" where
  "owed T D f k msgs = sum_list (map (\<lambda>msg. row_sum f (event_row T D (snd msg)) k) msgs)"

definition owed_abs :: "pg_types \<Rightarrow> 'd decimal_ops \<Rightarrow> time \<times> string \<Rightarrow> entry list \<Rightarrow> rat" where
  "owed_abs T D k msgs = sum_list (map (\<lambda>msg. \<bar>row_sum m_TotalPnl (event_row T D (snd msg)) k\<bar>) msgs)"

lemma owed_simps [simp]:
  "owed T D f k [] = 0" "owed T D f k (m # ms) = row_sum f (event_row T D (snd m)) k + owed T D f k ms"
  "owed_abs T D k [] = 0" "owed_abs T D k (m # ms) = \<bar>row_sum m_TotalPnl (event_row T D (snd m)) k\<bar> + owed_abs T D k ms"
  by (simp_all add: owed_def owed_abs_def)

text \<open>A worker with a batch: its messages in their order.\<close>

definition batch_prog :: "pg_types \<Rightarrow> 'd decimal_ops \<Rightarrow> 'r redis_ops \<Rightarrow> entry list \<Rightarrow> ('r, unit) prog" where
  "batch_prog T D R msgs = foldr (message_prog T D R) msgs (Ret ())"

context backend
begin

lemma message_owes:
  assumes add: "\<And>x r. f (metrics_merge x r) = f x + f r"
    and z: "\<And>r. \<lbrakk>m_TradeCount r = 0; m_WinCount r = 0; m_LossCount r = 0; m_RevengeCount r = 0; m_TotalPnl r = 0\<rbrakk> \<Longrightarrow> f r = 0"
    and h: "owes T f k n c a h"
  shows "owes T f k (row_sum f (event_row T D (snd msg)) k + n) (row_sum m_TradeCount (event_row T D (snd msg)) k + c)
    (\<bar>row_sum m_TotalPnl (event_row T D (snd msg)) k\<bar> + a) (message_prog T D R msg h)"
proof -
  have ack: "owes T f k n c a (act_redis (Stream_Ack R StreamName GroupName [fst msg]) (\<lambda>_. h))"
    by (rule owes_redis) (rule h)
  show ?thesis
  proof (cases "str (snd msg) ''status'' = ''closed''")
    case True
    then show ?thesis
      unfolding message_prog_def Let_def using ack
      by (simp add: bucket_owes [OF add] tail_owes [OF add z])
  next
    case False
    then have "event_row T D (snd msg) = None" by (simp add: event_row_def)
    with False ack show ?thesis by (simp add: message_prog_def Let_def row_sum_def)
  qed
qed

lemma batch_owes:
  assumes "\<And>x r. f (metrics_merge x r) = f x + f r"
    and "\<And>r. \<lbrakk>m_TradeCount r = 0; m_WinCount r = 0; m_LossCount r = 0; m_RevengeCount r = 0; m_TotalPnl r = 0\<rbrakk> \<Longrightarrow> f r = 0"
  shows "owes T f k (owed T D f k msgs) (owed T D m_TradeCount k msgs) (owed_abs T D k msgs) (batch_prog T D R msgs)"
  by (induction msgs) (simp_all add: batch_prog_def owes_Ret message_owes [OF assms])

end

section \<open>Workers together\<close>

text \<open>
  A worker sends its next statement or command, or somebody else (the API, the clock, Redis) acts
  without touching the buckets, over a connection that stays up.
\<close>

inductive workers_step :: "('r, unit) prog list \<times> 'r world \<Rightarrow> ('r, unit) prog list \<times> 'r world \<Rightarrow> bool" where
  worker_acts: "i < length ps \<Longrightarrow> ps ! i = Act g \<Longrightarrow> g w = (p, w') \<Longrightarrow> workers_step (ps, w) (ps[i := p], w')"
| others_act: "behavioral_metrics (w_db w') = behavioral_metrics (w_db w) \<Longrightarrow> db_up w' \<Longrightarrow> workers_step (ps, w) (ps, w')"

text \<open>
  The invariant: the sum of the bucket and the debts of the workers together are constant, and
  there is room for all of the debts.
\<close>

definition books_ok :: "pg_types \<Rightarrow> (metrics_row \<Rightarrow> 'n::ab_group_add) \<Rightarrow> time \<times> string \<Rightarrow> 'n \<Rightarrow> ('r, unit) prog list \<times> 'r world \<Rightarrow> bool" where
  "books_ok T f k final c \<longleftrightarrow> (case c of (ps, w) \<Rightarrow> \<exists>ns cs as.
     length ns = length ps \<and> length cs = length ps \<and> length as = length ps
     \<and> (\<forall>i < length ps. owes T f k (ns ! i) (cs ! i) (as ! i) (ps ! i))
     \<and> has_room T k (sum_list cs) (sum_list as) (w_db w) \<and> bucket_sum f (w_db w) k + sum_list ns = final)"

lemma elem_le_sum:
  fixes xs :: "'a::linordered_idom list"
  assumes "\<And>j. j < length xs \<Longrightarrow> 0 \<le> xs ! j" "i < length xs"
  shows "xs ! i \<le> sum_list xs"
  by (rule member_le_sum_list) (use assms in \<open>auto simp: in_set_conv_nth\<close>)

lemma sum_list_replace:
  fixes xs :: "'a::ab_group_add list"
  shows "i < length xs \<Longrightarrow> sum_list (xs[i := y]) = sum_list xs - xs ! i + y"
  by (induction xs arbitrary: i) (auto simp: algebra_simps split: nat.splits)

lemma workers_step_ok:
  assumes "workers_step c c'" "books_ok T f k final c"
  shows "books_ok T f k final c'"
  using assms(1)
proof cases
  case (worker_acts i ps g w p w')
  obtain ns cs as where len: "length ns = length ps" "length cs = length ps" "length as = length ps"
    and owes: "\<And>j. j < length ps \<Longrightarrow> owes T f k (ns ! j) (cs ! j) (as ! j) (ps ! j)"
    and room: "has_room T k (sum_list cs) (sum_list as) (w_db w)" and final: "bucket_sum f (w_db w) k + sum_list ns = final"
    using assms(2) worker_acts(1) by (auto simp: books_ok_def)
  have i: "i < length ns" "i < length cs" "i < length as" using len worker_acts(3) by simp_all
  have "0 \<le> cs ! j \<and> 0 \<le> as ! j" if "j < length ps" for j by (rule owes_nonneg [OF owes [OF that]])
  then have "cs ! i \<le> sum_list cs" "as ! i \<le> sum_list as"
    using i len by (simp_all add: elem_le_sum)
  then have "has_room T k (cs ! i) (as ! i) (w_db w)" using room by (auto simp: has_room_def)
  then obtain x c1 a1 where
    new: "metrics_inv T (w_db w')" "db_up w'" "bucket_sum f (w_db w') k = bucket_sum f (w_db w) k + x"
      "bucket_sum m_TradeCount (w_db w') k + c1 \<le> bucket_sum m_TradeCount (w_db w) k + cs ! i"
      "\<bar>bucket_sum m_TotalPnl (w_db w') k\<bar> + a1 \<le> \<bar>bucket_sum m_TotalPnl (w_db w) k\<bar> + as ! i"
      "owes T f k (ns ! i - x) c1 a1 p"
    using owes [OF worker_acts(3)] worker_acts(4,5) by (auto elim!: owes_ActE dest!: spec [of _ w])
  show ?thesis
    unfolding books_ok_def worker_acts(2) prod.case
  proof (intro exI [of _ "ns[i := ns ! i - x]"] exI [of _ "cs[i := c1]"] exI [of _ "as[i := a1]"] conjI allI impI)
    fix j assume "j < length (ps[i := p])"
    then show "owes T f k (ns[i := ns ! i - x] ! j) (cs[i := c1] ! j) (as[i := a1] ! j) (ps[i := p] ! j)"
      using owes new(6) len i by (cases "j = i") simp_all
  next
    show "has_room T k (sum_list (cs[i := c1])) (sum_list (as[i := a1])) (w_db w')"
      using room new(1,2,4,5) by (simp add: has_room_def sum_list_replace i)
    show "bucket_sum f (w_db w') k + sum_list (ns[i := ns ! i - x]) = final"
      using final new(3) by (simp add: sum_list_replace i algebra_simps)
  qed (simp_all add: len)
next
  case (others_act w' w ps)
  then show ?thesis
    using assms(2) metrics_inv_cong [OF others_act(3)] by (auto simp: books_ok_def has_room_def bucket_sum_def)
qed

lemma workers_steps_ok:
  "workers_step\<^sup>*\<^sup>* c c' \<Longrightarrow> books_ok T f k final c \<Longrightarrow> books_ok T f k final c'"
  by (induction rule: rtranclp_induct) (auto intro: workers_step_ok)

text \<open>Workers that are done owe nothing.\<close>

lemma books_done:
  assumes "books_ok T f k final (ps, w)" "set ps \<subseteq> {Ret ()}"
  shows "bucket_sum f (w_db w) k = final"
proof -
  obtain ns cs as where len: "length ns = length ps"
    and owes: "\<And>j. j < length ps \<Longrightarrow> owes T f k (ns ! j) (cs ! j) (as ! j) (ps ! j)"
    and final: "bucket_sum f (w_db w) k + sum_list ns = final"
    using assms(1) by (auto simp: books_ok_def)
  have "ns ! j = 0" if "j < length ps" for j
  proof -
    have "ps ! j = Ret ()" using assms(2) nth_mem [OF that] by blast
    with owes [OF that] show ?thesis by (auto elim: owes_RetE)
  qed
  then have "set ns \<subseteq> {0}" using len by (auto simp: in_set_conv_nth)
  then have "sum_list ns = 0" by (induction ns) auto
  with final show ?thesis by simp
qed

lemma owed_append:
  "owed T D f k (xs @ ys) = owed T D f k xs + owed T D f k ys" "owed_abs T D k (xs @ ys) = owed_abs T D k xs + owed_abs T D k ys"
  by (simp_all add: owed_def owed_abs_def)

lemma owed_concat:
  "sum_list (map (owed T D f k) bs) = owed T D f k (concat bs)" "sum_list (map (owed_abs T D k) bs) = owed_abs T D k (concat bs)"
  by (induction bs) (simp_all add: owed_append)

lemma owed_count_le: "owed T D m_TradeCount k msgs \<le> int (length msgs)"
proof (induction msgs)
  case (Cons m msgs)
  with row_sum_event_count(2) [of T D "snd m" k] show ?case by simp
qed simp

context backend
begin

lemma workers_sum:
  fixes f :: "metrics_row \<Rightarrow> 'n::ab_group_add"
  assumes "db_up w" "metrics_inv T (w_db w)" and room: "bucket_room T D (w_db w) k (map snd (concat batches))"
    and run: "workers_step\<^sup>*\<^sup>* (map (batch_prog T D R) batches, w) (ps, w')" "set ps \<subseteq> {Ret ()}"
    and add: "\<And>x r. f (metrics_merge x r) = f x + f r"
    and z: "\<And>r. \<lbrakk>m_TradeCount r = 0; m_WinCount r = 0; m_LossCount r = 0; m_RevengeCount r = 0; m_TotalPnl r = 0\<rbrakk> \<Longrightarrow> f r = 0"
  shows "bucket_sum f (w_db w') k = bucket_sum f (w_db (process_all T D R w (map snd (concat batches)))) k"
proof -
  let ?b = "concat batches"
  have abs: "owed_abs T D k ?b = sum_list (map (\<lambda>v. \<bar>row_sum m_TotalPnl (event_row T D v) k\<bar>) (map snd ?b))"
    by (simp only: owed_abs_def list.map_comp comp_def)
  have "has_room T k (owed T D m_TradeCount k ?b) (owed_abs T D k ?b) (w_db w)"
    using assms(1,2) room owed_count_le [of T D k ?b]
    unfolding has_room_def bucket_room_def length_map abs [symmetric] by linarith
  then have "books_ok T f k (bucket_sum f (w_db w) k + owed T D f k ?b) (map (batch_prog T D R) batches, w)"
    unfolding books_ok_def prod.case
    by (intro exI [of _ "map (owed T D f k) batches"] exI [of _ "map (owed T D m_TradeCount k) batches"]
        exI [of _ "map (owed_abs T D k) batches"]) (simp add: owed_concat batch_owes [OF add z])
  from books_done [OF workers_steps_ok [OF run(1) this] run(2)]
  have "bucket_sum f (w_db w') k = bucket_sum f (w_db w) k + owed T D f k ?b" .
  moreover have "owed T D f k ?b = sum_list (map (\<lambda>v. row_sum f (event_row T D v) k) (map snd ?b))"
    by (simp only: owed_def list.map_comp comp_def)
  ultimately show ?thesis by (simp only: process_all_sum [OF assms(1,2) add z room])
qed

end

text \<open>A worker that nobody interrupts finishes its batch.\<close>

lemma worker_runs:
  "run_prog p w = ((), w') \<Longrightarrow> i < length ps \<Longrightarrow> ps ! i = p \<Longrightarrow> workers_step\<^sup>*\<^sup>* (ps, w) (ps[i := Ret ()], w')"
proof (induction p arbitrary: w ps)
  case (Ret u)
  then have "ps[i := Ret ()] = ps" by (metis list_update_id old.unit.exhaust)
  with Ret show ?case by simp
next
  case (Act g)
  obtain p1 w1 where g: "g w = (p1, w1)" by fastforce
  have "workers_step (ps, w) (ps[i := p1], w1)" by (rule worker_acts [OF Act.prems(2,3) g])
  moreover have "workers_step\<^sup>*\<^sup>* (ps[i := p1], w1) ((ps[i := p1])[i := Ret ()], w')"
  proof (rule Act.IH [of "(p1, w1)" p1])
    show "(p1, w1) \<in> range g" by (rule range_eqI [of _ _ w]) (simp add: g)
    show "run_prog p1 w1 = ((), w')" using Act.prems g by simp
  qed (use Act.prems in simp_all)
  ultimately show ?case by (simp add: converse_rtranclp_into_rtranclp)
qed

section \<open>Property\<close>

text \<open>
  C7: Concurrent workers lose no update. Let any number of workers each process a batch of
  messages, their statements interleaved in any order with each other and with everything the API
  does, on a connection that stays up. When all of them are done, every bucket holds the counts
  of trades, wins, losses and revenge trades and the P\&L that processing all of the messages one
  after the other would have left, as long as its columns have room: the additive upsert is
  atomic, and the steps behind it, which read and write back scores, add nothing to the sums.
\<close>

theorem concurrent_workers_count:
  assumes "postgres T" "decimal D" "db_up w" "metrics_inv T (w_db w)"
    and "bucket_room T D (w_db w) k (map snd (concat batches))"
    and "workers_step\<^sup>*\<^sup>* (map (batch_prog T D R) batches, w) (ps, w')" "set ps \<subseteq> {Ret ()}"
  shows "let alone = process_all T D R w (map snd (concat batches)) in
      bucket_sum m_TradeCount (w_db w') k = bucket_sum m_TradeCount (w_db alone) k
    \<and> bucket_sum m_WinCount (w_db w') k = bucket_sum m_WinCount (w_db alone) k
    \<and> bucket_sum m_LossCount (w_db w') k = bucket_sum m_LossCount (w_db alone) k
    \<and> bucket_sum m_RevengeCount (w_db w') k = bucket_sum m_RevengeCount (w_db alone) k
    \<and> bucket_sum m_TotalPnl (w_db w') k = bucket_sum m_TotalPnl (w_db alone) k"
  unfolding Let_def
  by (intro conjI backend.workers_sum [OF backend.intro [OF assms(1,2)] assms(3-7)]) simp_all

text \<open>
  The second of two workers runs between the first statement of the other one and the rest: both
  messages are counted.
\<close>

theorem concurrent_workers_count_witness:
  "\<exists>ps w'. workers_step\<^sup>*\<^sup>*
       (map (batch_prog ref_pg ref_decimal mem_ops) [[(''1-0'', ex_loss)], [(''2-0'', ex_loss)]], ex_world) (ps, w')
     \<and> set ps \<subseteq> {Ret ()} \<and> bucket_sum m_TradeCount (w_db w') (ex_time - 900 * second, alice) = 2"
proof -
  let ?p = "\<lambda>i. batch_prog ref_pg ref_decimal mem_ops [(i, ex_loss)]" and ?k = "(ex_time - 900 * second, alice)"
  have "str ex_loss ''status'' = ''closed''" by (simp add: ex_loss_def str_def)
  then obtain g where g: "?p ''1-0'' = Act g"
    by (auto simp: batch_prog_def message_prog_def update_bucket_prog_def act_db_def Let_def)
  obtain p1 w1 where first: "g ex_world = (p1, w1)" by fastforce
  let ?w2 = "snd (run_prog (?p ''2-0'') w1)"
  let ?w3 = "snd (run_prog p1 ?w2)"
  have 1: "workers_step ([?p ''1-0'', ?p ''2-0''], ex_world) ([p1, ?p ''2-0''], w1)"
    using worker_acts [of 0 "[?p ''1-0'', ?p ''2-0'']" g ex_world p1 w1] g first by simp
  have 2: "workers_step\<^sup>*\<^sup>* ([p1, ?p ''2-0''], w1) ([p1, Ret ()], ?w2)"
    using worker_runs [of "?p ''2-0''" w1 ?w2 1 "[p1, ?p ''2-0'']"] by (simp add: prod_eq_iff)
  have 3: "workers_step\<^sup>*\<^sup>* ([p1, Ret ()], ?w2) ([Ret (), Ret ()], ?w3)"
    using worker_runs [of p1 ?w2 ?w3 0 "[p1, Ret ()]"] by (simp add: prod_eq_iff)
  from 1 2 3 have steps: "workers_step\<^sup>*\<^sup>*
      (map (batch_prog ref_pg ref_decimal mem_ops) [[(''1-0'', ex_loss)], [(''2-0'', ex_loss)]], ex_world) ([Ret (), Ret ()], ?w3)"
    by (simp add: converse_rtranclp_into_rtranclp rtranclp_trans)
  have up: "db_up ex_world" and inv: "metrics_inv ref_pg (w_db ex_world)"
    by (simp_all add: ex_defs metrics_inv_def metrics_ok_def)
  have room: "bucket_room ref_pg ref_decimal (w_db ex_world) ?k [ex_loss, ex_loss]" by code_simp
  have "bucket_sum m_TradeCount (w_db ex_world) ?k
      + sum_list (map (\<lambda>v. row_sum m_TradeCount (event_row ref_pg ref_decimal v) ?k) [ex_loss, ex_loss]) = 2"
    by code_simp
  then have alone: "bucket_sum m_TradeCount (w_db (process_all ref_pg ref_decimal mem_ops ex_world [ex_loss, ex_loss])) ?k = 2"
    using backend.process_all_sum [OF backend.intro [OF ref_pg.postgres_axioms ref.decimal_axioms] up inv _ _ room, of m_TradeCount mem_ops] by simp
  have msgs: "map snd (concat [[(''1-0'', ex_loss)], [(''2-0'', ex_loss)]]) = [ex_loss, ex_loss]" by simp
  have fin: "set [Ret (), Ret () :: (mem_redis, unit) prog] \<subseteq> {Ret ()}" by simp
  from concurrent_workers_count [OF ref_pg.postgres_axioms ref.decimal_axioms up inv _ steps fin, of ?k, unfolded msgs Let_def, OF room]
  have "bucket_sum m_TradeCount (w_db ?w3) ?k = 2" by (simp only: alone)
  with steps fin show ?thesis by blast
qed

end
