(* ===== verification/Post_Answers.thy ===== *)
theory Post_Answers
  imports Trade_Handler
begin

text \<open>
  What validation in front of the store is worth: the types of the table that a validated body
  already satisfies, and with that the answer of POST on every branch.
\<close>

section \<open>What validation leaves to the database\<close>

text \<open>
  The conversions that validation does not check: UUIDs, TEXT without a zero byte, NUMERIC(18,8)
  and TIMESTAMPTZ. The enumerations, the SMALLINT with its CHECK and the VARCHAR(500) are missing.
\<close>

definition storable :: "pg_types \<Rightarrow> 'd decimal_ops \<Rightarrow> 'd Trade \<Rightarrow> bool" where
  "storable T D t \<longleftrightarrow>
     pg_uuid T (TradeID t) \<noteq> None \<and> pg_uuid T (UserID t) \<noteq> None \<and> pg_uuid T (SessionID t) \<noteq> None
     \<and> pg_text T (Asset t) \<and> \<not> ptr_and (EntryRationale t) (\<lambda>r. \<not> pg_text T r)
     \<and> pg_numeric18_8 T (dec_value D (EntryPrice t)) \<noteq> None \<and> pg_numeric18_8 T (dec_value D (Quantity t)) \<noteq> None
     \<and> \<not> ptr_and (ExitPrice t) (\<lambda>x. pg_numeric18_8 T (dec_value D x) = None)
     \<and> \<not> ptr_and (PnL t) (\<lambda>x. pg_numeric18_8 T (dec_value D x) = None)
     \<and> pg_timestamptz T (EntryAt t) \<noteq> None \<and> \<not> ptr_and (ExitAt t) (\<lambda>x. pg_timestamptz T x = None)"

lemma opt_col_None_iff: "opt_col f x = None \<longleftrightarrow> ptr_and x (\<lambda>v. f v = None)"
  by (simp add: opt_col_def split: option.splits)

lemma opt_col_cases: "opt_col f x = (if ptr_and x (\<lambda>v. f v = None) then None else Some (x \<bind> f))"
  by (cases x) (auto simp: opt_col_def)

text \<open>A validated trade has the static types of the row.\<close>

definition typed_trade :: "'d Trade \<Rightarrow> bool" where
  "typed_trade t \<longleftrightarrow>
     AssetClass t \<in> set asset_class_enum \<and> Direction t \<in> set direction_enum \<and> Status t \<in> set status_enum
     \<and> \<not> ptr_and (PlanAdherence t) (\<lambda>p. \<not> (1 \<le> p \<and> p \<le> 5))
     \<and> \<not> ptr_and (EmotionalState t) (\<lambda>e. e \<notin> set emotion_enum)
     \<and> \<not> ptr_and (EntryRationale t) (\<lambda>r. 500 < length r)
     \<and> \<not> ptr_and (Outcome t) (\<lambda>e. e \<notin> set outcome_enum)"

lemma typed_trade_flag [simp]: "typed_trade (t\<lparr>RevengeFlag := b\<rparr>) = typed_trade t"
  by (simp add: typed_trade_def)

lemma storable_flag [simp]: "storable T D (t\<lparr>RevengeFlag := b\<rparr>) = storable T D t"
  by (simp add: storable_def)

lemma close_trade_static [simp]:
  "AssetClass (close_trade D t) = AssetClass t" "Direction (close_trade D t) = Direction t"
  "EntryRationale (close_trade D t) = EntryRationale t"
  by (simp_all add: close_trade_def split: option.splits prod.splits)

lemma close_trade_outcome: "Outcome t = None \<Longrightarrow> \<not> ptr_and (Outcome (close_trade D t)) (\<lambda>e. e \<notin> set outcome_enum)"
  by (auto simp: close_trade_def ComputePnL_def Let_def outcome_enum_def OutcomeWin_def OutcomeLoss_def
      split: option.splits)

lemma build_trade_static [simp]:
  "AssetClass (build_trade i) = AssetClass i" "Direction (build_trade i) = Direction i"
  "EntryRationale (build_trade i) = EntryRationale i" "Outcome (build_trade i) = None"
  by (simp_all add: build_trade_def)

lemma valid_typed: "valid_input D input \<Longrightarrow> typed_trade (close_trade D (build_trade input))"
  using close_trade_outcome [of "build_trade input" D]
  unfolding valid_input_def typed_trade_def ptr_and_iff
  by (elim conjE, intro conjI)
    (simp_all add: asset_class_enum_def direction_enum_def status_enum_def emotion_enum_def not_less)

context postgres
begin

lemma typed_row:
  assumes "typed_trade t"
  shows "trade_to_row T D now t \<noteq> None \<longleftrightarrow> storable T D t"
proof -
  have p: "\<not> ptr_and (PlanAdherence t) (\<lambda>p. \<not> smallint_ok p)"
    using assms by (cases "PlanAdherence t") (auto simp: typed_trade_def smallint_ok_def)
  have r: "ptr_and (EntryRationale t) (\<lambda>r. \<not> (pg_text T r \<and> pg_char_length T r \<le> 500))
      \<longleftrightarrow> ptr_and (EntryRationale t) (\<lambda>r. \<not> pg_text T r)"
    using assms char_length_le [of "opt_else [] (EntryRationale t)"]
    by (cases "EntryRationale t") (auto simp: typed_trade_def)
  show ?thesis
    using assms unfolding trade_to_row_def opt_col_cases r
    by (simp add: p) (auto simp: typed_trade_def storable_def bind_eq_None_conv bind_eq_Some_conv split: if_splits)
qed

lemma typed_row_check: "typed_trade t \<Longrightarrow> trade_to_row T D now t = Some row \<Longrightarrow> trade_check row"
  using trade_to_row_fields(4) [of T D now t row] by (auto simp: typed_trade_def trade_check_def)

end

section \<open>The answer of POST\<close>

text \<open>The user and the session that a trade names exist.\<close>

definition known_refs :: "pg_types \<Rightarrow> db \<Rightarrow> 'd Trade \<Rightarrow> bool" where
  "known_refs T s t \<longleftrightarrow>
     ptr_and (pg_uuid T (UserID t)) (\<lambda>u. tbl_lookup u_UserID u (users s) \<noteq> None)
     \<and> ptr_and (pg_uuid T (SessionID t)) (\<lambda>u. tbl_lookup s_SessionID u (sessions s) \<noteq> None)"

definition stored_already :: "pg_types \<Rightarrow> db \<Rightarrow> 'd Trade \<Rightarrow> bool" where
  "stored_already T s t \<longleftrightarrow> ptr_and (pg_uuid T (TradeID t)) (\<lambda>u. tbl_lookup TradeID u (trades s) \<noteq> None)"

lemma refs_flag [simp]:
  "known_refs T s (t\<lparr>RevengeFlag := b\<rparr>) = known_refs T s t"
  "stored_already T s (t\<lparr>RevengeFlag := b\<rparr>) = stored_already T s t"
  by (simp_all add: known_refs_def stored_already_def)

context postgres
begin

lemma Upsert_typed:
  assumes up: "db_deliveries s = []" and typed: "typed_trade t"
  shows "(\<exists>r s'. Upsert T D t s = (Inr r, s'))
    \<longleftrightarrow> storable T D t \<and> (stored_already T s t \<or> known_refs T s t)"
proof (cases "trade_to_row T D (db_now s) t")
  case None
  then show ?thesis using typed_row [OF typed, of D "db_now s"] up by (simp add: Upsert_def insert_trade_def)
next
  case (Some row)
  then have st: "storable T D t" using typed_row [OF typed, of D "db_now s"] by simp
  note check = typed_row_check [OF typed Some]
  have ids: "pg_uuid T (TradeID t) = Some (TradeID row)" "pg_uuid T (UserID t) = Some (UserID row)"
    "pg_uuid T (SessionID t) = Some (SessionID row)"
    using trade_to_row_key [OF Some] trade_to_row_fields(6,7) [OF Some] by simp_all
  show ?thesis
  proof (cases "tbl_lookup TradeID (TradeID row) (trades s)")
    case None
    then show ?thesis
      using up Some check st ids
      by (simp add: Upsert_def insert_trade_def tbl_insert_new_def stored_already_def known_refs_def trade_fk_def)
  next
    case (Some old)
    then show ?thesis
      using Upsert_existing [OF up \<open>trade_to_row T D (db_now s) t = Some row\<close> check Some] st ids
      by (simp add: stored_already_def)
  qed
qed

end

text \<open>
  C16: Validation gives the trade its types: whatever body passes \<open>Validate\<close>, the trade that the
  handler builds from it, with the P\&L and the outcome it computes and either revenge flag,
  satisfies every enumeration, the SMALLINT with its CHECK and the VARCHAR(500) of the table. So
  the only values that can still make the INSERT fail are identifiers that are no UUIDs, texts
  with bytes that TEXT refuses, and numbers and times outside their columns.
\<close>

theorem validated_trade_typed:
  assumes "postgres T" "decimal D" "Validate D input = None"
    and "t = (close_trade D (build_trade input))\<lparr>RevengeFlag := b\<rparr>"
  shows "(trade_to_row T D now t \<noteq> None) = storable T D t
    \<and> (case trade_to_row T D now t of None \<Rightarrow> True | Some row \<Rightarrow> trade_check row)"
proof -
  have "valid_input D input" using assms(3) decimal.Validate_None_iff [OF assms(2)] by blast
  then have typed: "typed_trade t" by (simp add: assms(4) valid_typed)
  then show ?thesis
    using postgres.typed_row [OF assms(1) typed, of D now] postgres.typed_row_check [OF assms(1) typed, of D now]
    by (auto split: option.splits)
qed

theorem validated_trade_typed_witness:
  "storable ref_pg ref_decimal (close_trade ref_decimal (build_trade ex_input))
   \<and> trade_to_row ref_pg ref_decimal 0 ((close_trade ref_decimal (build_trade ex_input))\<lparr>RevengeFlag := True\<rparr>) \<noteq> None"
proof -
  have "storable ref_pg ref_decimal (close_trade ref_decimal (build_trade ex_input))" by code_simp
  moreover have "Validate ref_decimal ex_input = None" using ex_accepted by (simp add: accepted_def)
  ultimately show ?thesis
    using validated_trade_typed [OF ref_pg.postgres_axioms ref.decimal_axioms _ refl, of ex_input 0 True] by simp
qed

text \<open>
  C11: The answer of POST, on every branch of a connection that stays up: 400 for a body that does
  not decode or does not validate, 403 for one that names another user, 200 for a storable trade
  that is already stored or whose user and session exist, and 500 for every other - so a client's
  malformed UUID, an unknown session or a price with too many digits is reported as a server error.
\<close>

theorem Create_answers:
  fixes w :: "'r world"
  assumes "postgres T" "decimal D" "db_up w"
  shows "rs_status (fst (fst (Trade_Create T D R decode r c w))) =
    (case decode (rq_body r) of
       Inl _ \<Rightarrow> 400
     | Inr input \<Rightarrow>
         if \<not> valid_input D input then 400
         else if UserID input \<noteq> UserIDFromContext c then 403
         else let t = close_trade D (build_trade input)
              in if storable T D t \<and> (stored_already T (w_db w) t \<or> known_refs T (w_db w) t) then 200 else 500)"
proof (cases "decode (rq_body r)")
  case (Inl e)
  then show ?thesis by (simp add: Trade_Create_def)
next
  case (Inr input)
  show ?thesis
  proof (cases "valid_input D input \<and> UserID input = UserIDFromContext c")
    case False
    moreover have "Validate D input = None \<longleftrightarrow> valid_input D input" by (rule decimal.Validate_None_iff [OF assms(2)])
    ultimately show ?thesis using Inr by (auto simp: Trade_Create_def split: option.splits)
  next
    case True
    then have v: "Validate D input = None" using decimal.Validate_None_iff [OF assms(2)] by blast
    let ?t = "close_trade D (build_trade input)"
    have typed: "typed_trade ?t" using True by (simp add: valid_typed)
    obtain b w1 where rev: "check_revenge R ?t w = (?t\<lparr>RevengeFlag := b\<rparr>, w1)" "w_db w1 = w_db w"
      using check_revenge_cases by blast
    obtain x s' where up: "Upsert T D (?t\<lparr>RevengeFlag := b\<rparr>) (w_db w) = (x, s')" by fastforce
    have "(\<exists>r. x = Inr r) \<longleftrightarrow> storable T D ?t \<and> (stored_already T (w_db w) ?t \<or> known_refs T (w_db w) ?t)"
      using postgres.Upsert_typed [OF assms(1,3), of "?t\<lparr>RevengeFlag := b\<rparr>" D] typed up by simp
    then show ?thesis
      using True Inr v rev up
      by (cases x) (simp_all add: Trade_Create_def save_trade_def on_db_def StatusOK_def StatusInternalServerError_def Let_def)
  qed
qed

text \<open>A body that names a session by something that is no UUID.\<close>

definition ex_bad_session :: "string \<Rightarrow> string + dec TradeInput" where
  "ex_bad_session b = Inr (ex_input\<lparr>SessionID := ''s1''\<rparr>)"

theorem Create_answers_witness:
  "rs_status (fst (fst (Trade_Create ref_pg ref_decimal mem_ops ex_decode ex_request (as_user alice) ex_world))) = 200
   \<and> rs_status (fst (fst (Trade_Create ref_pg ref_decimal mem_ops ex_bad_session ex_request (as_user alice) ex_world))) = 500
   \<and> rs_status (fst (fst (Trade_Create ref_pg ref_decimal mem_ops ex_decode ex_request (as_user bob) ex_world))) = 403"
proof -
  have up: "db_up ex_world" by (simp add: ex_defs)
  let ?t = "close_trade ref_decimal (build_trade ex_input)"
  let ?i = "ex_input\<lparr>SessionID := ''s1''\<rparr>"
  have v: "valid_input ref_decimal ex_input" "valid_input ref_decimal ?i"
    unfolding ref.Validate_None_iff [symmetric] by code_simp+
  have st: "storable ref_pg ref_decimal ?t" "known_refs ref_pg (w_db ex_world) ?t" by code_simp+
  have bad: "\<not> storable ref_pg ref_decimal (close_trade ref_decimal (build_trade ?i))" by code_simp
  have u: "UserID ex_input = alice" "UserID ?i = alice" "UserIDFromContext (as_user alice) = alice"
    "UserIDFromContext (as_user bob) = bob" "alice \<noteq> bob"
    by (simp_all add: ex_input_def as_user_def UserIDFromContext_def) (simp add: alice_def bob_def)
  note answers = Create_answers [OF ref_pg.postgres_axioms ref.decimal_axioms up, of mem_ops]
  show ?thesis
    unfolding answers ex_decode_def ex_bad_session_def sum.case Let_def by (simp only: v st bad u if_True if_False simp_thms)
qed

end
