(* ===== verification/Debrief_Answers.thy ===== *)
theory Debrief_Answers
  imports Session_Handler
begin

text \<open>
  The answer of \<open>POST /sessions/{sessionId}/debrief\<close> on every branch, together with what it does
  to the table.
\<close>

section \<open>The row of a debrief\<close>

definition debrief_row_of :: "string \<Rightarrow> time \<Rightarrow> string \<Rightarrow> DebriefInput \<Rightarrow> debrief_row" where
  "debrief_row_of newid now u input =
     \<lparr> db_DebriefID = newid, db_SessionID = u, db_OverallMood = di_OverallMood input,
       db_KeyMistake = di_KeyMistake input, db_KeyLesson = di_KeyLesson input,
       db_PlanAdherenceRating = di_PlanAdherenceRating input,
       db_WillReviewTomorrow = di_WillReviewTomorrow input, db_SavedAt = now \<rparr>"

text \<open>What the handler does not check: the rating and the texts.\<close>

definition storable_debrief :: "pg_types \<Rightarrow> DebriefInput \<Rightarrow> bool" where
  "storable_debrief T input \<longleftrightarrow>
     \<not> ptr_and (di_PlanAdherenceRating input) (\<lambda>p. \<not> (1 \<le> p \<and> p \<le> 5))
     \<and> \<not> ptr_and (di_KeyMistake input) (\<lambda>x. \<not> pg_text T x) \<and> \<not> ptr_and (di_KeyLesson input) (\<lambda>x. \<not> pg_text T x)"

lemma valid_mood_enum: "IsValidEmotionalState e \<longleftrightarrow> e \<in> set emotion_enum"
  by (auto simp: IsValid_iff emotion_enum_def)

lemma insert_debrief_up:
  assumes "db_uuid_supply s = newid # rest" "tbl_lookup db_DebriefID newid (debriefs s) = None"
    and "pg_uuid T x = Some u" "tbl_lookup s_SessionID u (sessions s) = Some se"
    and "IsValidEmotionalState (di_OverallMood input)"
  shows "\<exists>e us. insert_debrief_row T x (debrief_of_input input) s =
    (if storable_debrief T input
     then (Inr (debrief_row_of newid (db_now s) u input),
           s\<lparr>debriefs := debriefs s @ [debrief_row_of newid (db_now s) u input], db_uuid_supply := rest\<rparr>)
     else (Inl (pg_error T e), s\<lparr>db_uuid_supply := us\<rparr>))"
proof -
  have keep: "s\<lparr>db_uuid_supply := newid # rest\<rparr> = s" using assms(1) by (cases s) simp
  let ?p = "di_PlanAdherenceRating input"
  let ?texts = "\<not> ptr_and (di_KeyMistake input) (\<lambda>x. \<not> pg_text T x) \<and> \<not> ptr_and (di_KeyLesson input) (\<lambda>x. \<not> pg_text T x)"
  have row: "debrief_to_row T newid (db_now s) x (debrief_of_input input)
      = (if ?texts \<and> \<not> ptr_and ?p (\<lambda>p. \<not> smallint_ok p) then Some (debrief_row_of newid (db_now s) u input) else None)"
    using assms(3,5) by (simp add: debrief_to_row_def debrief_of_input_def debrief_row_of_def valid_mood_enum)
  have rate: "\<not> ptr_and ?p (\<lambda>p. \<not> (1 \<le> p \<and> p \<le> 5)) \<Longrightarrow> \<not> ptr_and ?p (\<lambda>p. \<not> smallint_ok p)"
    by (cases ?p) (simp_all add: smallint_ok_def)
  have chk: "debrief_check (debrief_row_of newid (db_now s) u input) = (\<not> ptr_and ?p (\<lambda>p. \<not> (1 \<le> p \<and> p \<le> 5)))"
    by (simp add: debrief_check_def debrief_row_of_def)
  have sid: "db_SessionID (debrief_row_of newid (db_now s) u input) = u" by (simp add: debrief_row_of_def)
  show ?thesis
  proof (cases "?texts \<and> \<not> ptr_and ?p (\<lambda>p. \<not> smallint_ok p)")
    case True
    then show ?thesis
      using assms(1,2,4) by (auto simp: insert_debrief_row_def row chk sid storable_debrief_def)
  next
    case False
    then have "debrief_to_row T newid (db_now s) x (debrief_of_input input) = None" unfolding row by (simp only: if_False)
    then have "insert_debrief_row T x (debrief_of_input input) s = (Inl (pg_error T InvalidInput), s\<lparr>db_uuid_supply := newid # rest\<rparr>)"
      using assms(1) keep by (simp add: insert_debrief_row_def)
    moreover have "\<not> storable_debrief T input" using False rate by (auto simp: storable_debrief_def)
    ultimately show ?thesis by auto
  qed
qed

text \<open>From the decoding of the body on, for a session that exists.\<close>

lemma save_debrief_answers:
  fixes w :: "'r world" and resp :: "'d response"
  assumes up: "db_up w" "db_uuid_supply (w_db w) = newid # rest" "tbl_lookup db_DebriefID newid (debriefs (w_db w)) = None"
    and sess: "pg_uuid T x = Some u" "tbl_lookup s_SessionID u (sessions (w_db w)) = Some se"
    and run: "save_debrief T decode x r c w = ((resp, ts), w')"
  shows "ts = [] \<and> (rs_status resp, debriefs (w_db w')) =
    (case decode (rq_body r) of
       Inl _ \<Rightarrow> (400, debriefs (w_db w))
     | Inr input \<Rightarrow>
         if \<not> IsValidEmotionalState (di_OverallMood input) then (400, debriefs (w_db w))
         else if storable_debrief T input
         then (201, debriefs (w_db w) @ [debrief_row_of newid (db_now (w_db w)) u input])
         else (500, debriefs (w_db w)))"
proof (cases "\<exists>input. decode (rq_body r) = Inr input \<and> IsValidEmotionalState (di_OverallMood input)")
  case False
  then show ?thesis using run by (auto simp: save_debrief_def status_defs split: sum.splits)
next
  case True
  then obtain input where input: "decode (rq_body r) = Inr input" "IsValidEmotionalState (di_OverallMood input)" by blast
  from insert_debrief_up [OF up(2,3) sess input(2)] obtain e us where
    "insert_debrief_row T x (debrief_of_input input) (w_db w) =
     (if storable_debrief T input
      then (Inr (debrief_row_of newid (db_now (w_db w)) u input),
        (w_db w)\<lparr>debriefs := debriefs (w_db w) @ [debrief_row_of newid (db_now (w_db w)) u input], db_uuid_supply := rest\<rparr>)
      else (Inl (pg_error T e), (w_db w)\<lparr>db_uuid_supply := us\<rparr>))" by blast
  with input run up(1) show ?thesis
    by (auto simp: save_debrief_def on_db_def InsertDebrief_def status_defs split: if_splits)
qed

section \<open>Property\<close>

text \<open>
  C15: The answer of POST debrief, on every branch of a connection that stays up (with an unused
  key at hand): 500 for a session ID that is not a UUID, 404 for an unknown session, 403 for
  another user's, 400 for a body that does not decode or has no valid mood, 201 for a storable
  debrief of the subject's session, of which exactly that row is appended - a second debrief of a
  session is stored beside the first -, and 500 for a rating outside 1 to 5 or an unstorable text,
  which the handler does not check. In every other case the table is unchanged. Storable is more
  than the API description admits: a debrief without the rating that it requires, and with texts
  longer than its 1000 characters, is answered 201.
\<close>

theorem Debrief_answers:
  fixes w :: "'r world" and resp :: "'d response"
  assumes "db_up w" "db_uuid_supply (w_db w) = newid # rest" "tbl_lookup db_DebriefID newid (debriefs (w_db w)) = None"
    and "Session_Debrief T decode r c w = ((resp, ts), w')"
  shows "ts = [] \<and> (rs_status resp, debriefs (w_db w')) =
    (case pg_uuid T (URLParam r ''sessionId'') of
       None \<Rightarrow> (500, debriefs (w_db w))
     | Some u \<Rightarrow>
         (case tbl_lookup s_SessionID u (sessions (w_db w)) of
            None \<Rightarrow> (404, debriefs (w_db w))
          | Some se \<Rightarrow>
              if s_UserID se \<noteq> UserIDFromContext c then (403, debriefs (w_db w))
              else (case decode (rq_body r) of
                      Inl _ \<Rightarrow> (400, debriefs (w_db w))
                    | Inr input \<Rightarrow>
                        if \<not> IsValidEmotionalState (di_OverallMood input) then (400, debriefs (w_db w))
                        else if storable_debrief T input
                        then (201, debriefs (w_db w) @ [debrief_row_of newid (db_now (w_db w)) u input])
                        else (500, debriefs (w_db w)))))"
proof -
  have world: "w\<lparr>w_db := w_db w\<rparr> = w" by (cases w) simp
  let ?x = "URLParam r ''sessionId''"
  have get: "on_db (GetSession T ?x) w =
      (case pg_uuid T ?x of None \<Rightarrow> (Inl (pg_error T InvalidInput), w)
       | Some u \<Rightarrow> (case tbl_lookup s_SessionID u (sessions (w_db w)) of
                     None \<Rightarrow> (Inl ErrNotFound, w) | Some r \<Rightarrow> (Inr (scan_session r), w)))"
    by (simp add: on_db_def GetSession_up [OF assms(1)] world split: option.splits)
  show ?thesis
  proof (cases "\<exists>u se. pg_uuid T ?x = Some u \<and> tbl_lookup s_SessionID u (sessions (w_db w)) = Some se
      \<and> s_UserID se = UserIDFromContext c")
    case True
    then obtain u se where own: "pg_uuid T ?x = Some u" "tbl_lookup s_SessionID u (sessions (w_db w)) = Some se"
      "s_UserID se = UserIDFromContext c" by blast
    then have "save_debrief T decode ?x r c w = ((resp, ts), w')"
      using assms(4) get by (simp add: Session_Debrief_def scan_session_def)
    from save_debrief_answers [OF assms(1,2,3) own(1,2) this] own show ?thesis by simp
  next
    case False
    then show ?thesis
      using assms(4) get
      by (auto simp: Session_Debrief_def session_error_def status_defs scan_session_def split: option.splits)
  qed
qed

definition ex_debrief :: "int option \<Rightarrow> nat \<Rightarrow> DebriefInput" where
  "ex_debrief p n = \<lparr>di_OverallMood = ''calm'', di_KeyMistake = None, di_KeyLesson = Some (replicate n CHR ''x''),
     di_PlanAdherenceRating = p, di_WillReviewTomorrow = True\<rparr>"

definition ex_debrief_run :: "int option \<Rightarrow> nat \<Rightarrow> (dec response \<times> task list) \<times> mem_redis world" where
  "ex_debrief_run p n = Session_Debrief ref_pg (\<lambda>b. Inr (ex_debrief p n))
     (ex_request\<lparr>rq_params := [''sessionId'' \<mapsto> alice_session]\<rparr>) (as_user alice) ex_world"

theorem Debrief_answers_witness:
  "rs_status (fst (fst (ex_debrief_run (Some 4) 9))) = 201 \<and> length (debriefs (w_db (snd (ex_debrief_run (Some 4) 9)))) = 1
   \<and> rs_status (fst (fst (ex_debrief_run (Some 6) 9))) = 500 \<and> debriefs (w_db (snd (ex_debrief_run (Some 6) 9))) = []
   \<and> rs_status (fst (fst (ex_debrief_run None 1001))) = 201"
proof -
  let ?r = "ex_request\<lparr>rq_params := [''sessionId'' \<mapsto> alice_session]\<rparr>" and ?id = "''d8888888-8888-4888-8888-888888888888''"
  have up: "db_up ex_world" "db_uuid_supply (w_db ex_world) = ?id # []" "tbl_lookup db_DebriefID ?id (debriefs (w_db ex_world)) = None"
    "debriefs (w_db ex_world) = []"
    by (simp_all add: ex_world_def ex_db_def)
  have u: "pg_uuid ref_pg (URLParam ?r ''sessionId'') = Some alice_session" by code_simp
  have se: "\<exists>se. tbl_lookup s_SessionID alice_session (sessions (w_db ex_world)) = Some se \<and> s_UserID se = alice"
    by (simp add: ex_world_def ex_db_def)
  have c: "UserIDFromContext (as_user alice) = alice" by (simp add: as_user_def UserIDFromContext_def)
  have plain: "pg_text ref_pg (replicate n CHR ''x'')" for n by (induction n) (simp_all add: ref_pg_def)
  then have ok: "storable_debrief ref_pg (ex_debrief (Some 4) n)" "storable_debrief ref_pg (ex_debrief None n)"
    and bad: "\<not> storable_debrief ref_pg (ex_debrief (Some 6) n)" for n
    by (simp_all add: storable_debrief_def ex_debrief_def)
  have mood: "IsValidEmotionalState (di_OverallMood (ex_debrief p n))" for p n by (simp add: ex_debrief_def IsValid_iff)
  have run: "Session_Debrief ref_pg (\<lambda>b. Inr (ex_debrief p n)) ?r (as_user alice) ex_world
      = ((fst (fst (ex_debrief_run p n)), snd (fst (ex_debrief_run p n))), snd (ex_debrief_run p n))" for p n
    by (simp add: ex_debrief_run_def)
  note answers = Debrief_answers [OF up(1,2,3) run, unfolded u]
  from answers [of "Some 4" 9] answers [of "Some 6" 9] answers [of None 1001] se ok bad show ?thesis
    by (auto simp: c up(4) mood split: if_splits)
qed

end
