(* ===== verification/Trade_Spec.thy ===== *)
theory Trade_Spec
  imports Trade_Handler
begin

text \<open>
  What the trade store promises: the table is a map from trade IDs to rows in which an ID is
  written at most once. The operations of the store, statement by statement, are refined from the
  operations of that map: exactly on a connection that answers, and up to lost statements and
  answers on any other.
\<close>

section \<open>The abstract store\<close>

type_synonym trade_map = "string \<Rightarrow> rat Trade option"

text \<open>
  Putting an admissible row under a new ID stores it; under an ID that is taken it stores nothing
  and gives what is there, whatever was put; \<open>fits\<close> says which new rows refer to a user and a session.
\<close>

fun put_once :: "(rat Trade \<Rightarrow> bool) \<Rightarrow> rat Trade option \<Rightarrow> trade_map \<Rightarrow> rat Trade option \<times> trade_map" where
  "put_once fits None m = (None, m)"
| "put_once fits (Some r) m =
     (case m (TradeID r) of
        Some old \<Rightarrow> (Some old, m)
      | None \<Rightarrow> if fits r then (Some r, m(TradeID r \<mapsto> r)) else (None, m))"

text \<open>The abstraction, and the row a trade converts to when its columns and checks admit it.\<close>

definition abs_trades :: "db \<Rightarrow> trade_map" where
  "abs_trades s k = tbl_lookup TradeID k (trades s)"

definition checked_row :: "pg_types \<Rightarrow> 'd decimal_ops \<Rightarrow> db \<Rightarrow> 'd Trade \<Rightarrow> rat Trade option" where
  "checked_row T D s t =
     (case trade_to_row T D (db_now s) t of
        None \<Rightarrow> None | Some row \<Rightarrow> if trade_check row then Some row else None)"

lemma put_once_keeps: "m k = Some r \<Longrightarrow> snd (put_once fits row m) k = Some r"
  by (cases row) (auto split: option.splits)

lemma abs_trades_key: "abs_trades s k = Some x \<Longrightarrow> TradeID x = k"
  by (auto simp: abs_trades_def dest: tbl_lookup_Some)

lemma abs_trades_append:
  "tbl_lookup TradeID (TradeID row) (trades s) = None
   \<Longrightarrow> abs_trades (s\<lparr>trades := trades s @ [row]\<rparr>) = (abs_trades s)(TradeID row \<mapsto> row)"
  by (auto simp: abs_trades_def fun_eq_iff tbl_lookup_append split: option.splits)

section \<open>Refinement\<close>

lemma Upsert_refines:
  assumes "db_deliveries s = []"
  shows "abs_trades (snd (Upsert T D t s)) = snd (put_once (trade_fk s) (checked_row T D s t) (abs_trades s))
    \<and> (case fst (put_once (trade_fk s) (checked_row T D s t) (abs_trades s)) of
         Some r \<Rightarrow> fst (Upsert T D t s) = Inr (scanTrade D r)
       | None \<Rightarrow> \<exists>f. fst (Upsert T D t s) = Inl (pg_error T f))"
proof (cases "checked_row T D s t")
  case None
  then have "insert_trade T D t s = (Inl (pg_error T InvalidInput), s) \<or> insert_trade T D t s = (Inl (pg_error T CheckViolation), s)"
    by (auto simp: checked_row_def insert_trade_def split: option.splits if_splits)
  with None assms show ?thesis by (auto simp: Upsert_def)
next
  case (Some row)
  then have row: "trade_to_row T D (db_now s) t = Some row" "trade_check row"
    by (auto simp: checked_row_def split: option.splits if_splits)
  show ?thesis
  proof (cases "tbl_lookup TradeID (TradeID row) (trades s)")
    case (Some old)
    with \<open>checked_row T D s t = Some row\<close> Upsert_existing [OF assms row Some] show ?thesis
      by (simp add: abs_trades_def)
  next
    case new: None
    show ?thesis
    proof (cases "trade_fk s row")
      case True
      then have "inserts_row T D t s row" using row new by (simp add: inserts_row_def)
      with Some new True Upsert_fresh [OF assms this] abs_trades_append [OF new] show ?thesis
        by (simp add: abs_trades_def [abs_def])
    next
      case False
      with row new have "insert_trade T D t s = (Inl (pg_error T ForeignKeyViolation), s)"
        by (simp add: insert_trade_def tbl_insert_new_def)
      with Some new False assms show ?thesis by (auto simp: Upsert_def abs_trades_def)
    qed
  qed
qed

lemma GetByID_refines:
  assumes "db_deliveries s = []"
  shows "GetByID T D k s =
    ((case pg_uuid T k of
        None \<Rightarrow> Inl (pg_error T InvalidInput)
      | Some u \<Rightarrow> (case abs_trades s u of None \<Rightarrow> Inl ErrNotFound | Some r \<Rightarrow> Inr (scanTrade D r))), s)"
  using assms by (auto simp: GetByID_def select_trade_def abs_trades_def split: option.splits)

lemma put_once_held:
  assumes "fst (put_once fits row m) = Some r" "\<And>k x. m k = Some x \<Longrightarrow> TradeID x = k"
  shows "snd (put_once fits row m) (TradeID r) = Some r"
proof (cases row)
  case (Some q)
  show ?thesis
  proof (cases "m (TradeID q)")
    case (Some old)
    with assms(2) [OF Some] assms(1) \<open>row = Some q\<close> show ?thesis by simp
  qed (use assms(1) Some in \<open>simp split: if_splits\<close>)
qed (use assms(1) in simp)

text \<open>On a connection that stays up, puts leave it up.\<close>

lemma Upsert_up:
  assumes "db_deliveries s = []"
  shows "db_deliveries (snd (Upsert T D t s)) = []"
proof -
  have "db_deliveries (snd (insert_trade T D t s)) = []"
    by (rule insert_trade_cases [of T D t s]) (simp_all add: assms)
  then show ?thesis
    using assms pg_send_read [of "select_trade T (TradeID t)" T "snd (insert_trade T D t s)"]
    by (auto simp: Upsert_def case_prod_beta split: sum.splits)
qed

text \<open>On any connection a put happens or is lost, and what is answered is the row under the trade's ID.\<close>

lemma checked_row_key: "checked_row T D s t = Some row \<Longrightarrow> pg_uuid T (TradeID t) = Some (TradeID row)"
  by (auto simp: checked_row_def trade_to_row_key split: option.splits if_splits)

lemma abs_trades_deliveries [simp]: "abs_trades (s\<lparr>db_deliveries := ds\<rparr>) = abs_trades s"
  by (simp add: abs_trades_def [abs_def])

lemma Upsert_frame:
  "trade_fk (snd (Upsert T D t s)) = trade_fk s \<and> checked_row T D (snd (Upsert T D t s)) = checked_row T D s"
  using Upsert_effect [of T D t s] by (auto simp: trade_fk_def fun_eq_iff checked_row_def)

lemma Upsert_put:
  "abs_trades (snd (Upsert T D t s)) \<in> {abs_trades s, snd (put_once (trade_fk s) (checked_row T D s t) (abs_trades s))}
   \<and> (\<forall>x. fst (Upsert T D t s) = Inr x \<longrightarrow>
        (\<exists>r. fst (put_once (trade_fk s) (checked_row T D s t) (abs_trades s)) = Some r \<and> x = scanTrade D r
           \<and> pg_uuid T (TradeID t) = Some (TradeID r) \<and> abs_trades (snd (Upsert T D t s)) (TradeID r) = Some r))"
proof (rule Upsert_cases [of T D t s])
  fix row ds assume ins: "inserts_row T D t s row" and up: "snd (Upsert T D t s) = s\<lparr>trades := trades s @ [row], db_deliveries := ds\<rparr>"
    and ans: "fst (Upsert T D t s) \<in> {Inr (scanTrade D row), Inl (pg_error T ConnectionLost)}"
  from ins have c: "checked_row T D s t = Some row" "abs_trades s (TradeID row) = None" "trade_fk s row"
    by (simp_all add: inserts_row_def checked_row_def abs_trades_def)
  have put: "put_once (trade_fk s) (checked_row T D s t) (abs_trades s) = (Some row, (abs_trades s)(TradeID row \<mapsto> row))"
    using c by simp
  have "abs_trades (snd (Upsert T D t s)) = (abs_trades s)(TradeID row \<mapsto> row)"
    using abs_trades_append [of row s] c(2) by (simp add: up) (simp add: abs_trades_def)
  then show ?thesis using ans checked_row_key [OF c(1)] unfolding put by auto
next
  fix row old ds assume row: "trade_to_row T D (db_now s) t = Some row" "trade_check row"
      "tbl_lookup TradeID (TradeID row) (trades s) = Some old"
    and up: "snd (Upsert T D t s) = s\<lparr>db_deliveries := ds\<rparr>"
    and ans: "fst (Upsert T D t s) \<in> {Inr (scanTrade D old), Inl (pg_error T ConnectionLost)}"
  have c: "checked_row T D s t = Some row" "abs_trades s (TradeID row) = Some old"
    using row by (simp_all add: checked_row_def abs_trades_def)
  have put: "put_once (trade_fk s) (checked_row T D s t) (abs_trades s) = (Some old, abs_trades s)"
    using c by simp
  show ?thesis using ans checked_row_key [OF c(1)] c(2) abs_trades_key [OF c(2)] unfolding put up by auto
next
  fix f ds assume "Upsert T D t s = (Inl (pg_error T f), s\<lparr>db_deliveries := ds\<rparr>)"
  then show ?thesis by simp
qed

section \<open>Any number of puts\<close>

definition Upserts :: "pg_types \<Rightarrow> 'd decimal_ops \<Rightarrow> 'd Trade list \<Rightarrow> db \<Rightarrow> db" where
  "Upserts T D ts s = fold (\<lambda>t s. snd (Upsert T D t s)) ts s"

definition puts :: "pg_types \<Rightarrow> 'd decimal_ops \<Rightarrow> db \<Rightarrow> 'd Trade list \<Rightarrow> trade_map \<Rightarrow> trade_map" where
  "puts T D s ts m = fold (\<lambda>t m. snd (put_once (trade_fk s) (checked_row T D s t) m)) ts m"

lemma Upserts_frame:
  "trade_fk (Upserts T D ts s) = trade_fk s" "checked_row T D (Upserts T D ts s) = checked_row T D s"
proof (induction ts arbitrary: s)
  case (Cons t ts)
  case 1 show ?case using Cons.IH(1) Upsert_frame [of T D t s] by (simp add: Upserts_def)
  case 2 show ?case using Cons.IH(2) Upsert_frame [of T D t s] by (simp add: Upserts_def)
qed (simp_all add: Upserts_def)

lemma Upserts_keep: "abs_trades s k = Some r \<Longrightarrow> abs_trades (Upserts T D ts s) k = Some r"
proof (induction ts arbitrary: s)
  case (Cons t ts)
  have "abs_trades (snd (Upsert T D t s)) k = Some r"
    using Upsert_put [of T D t s] Cons.prems
      put_once_keeps [where m = "abs_trades s" and k = k and r = r and row = "checked_row T D s t" and fits = "trade_fk s"]
    by auto
  from Cons.IH [OF this] show ?case by (simp add: Upserts_def)
qed (simp add: Upserts_def)

lemma Upserts_refine:
  assumes "db_deliveries s = []"
  shows "db_deliveries (Upserts T D ts s) = [] \<and> abs_trades (Upserts T D ts s) = puts T D s ts (abs_trades s)"
  using assms
proof (induction ts arbitrary: s)
  case (Cons t ts)
  let ?s = "snd (Upsert T D t s)"
  have "puts T D ?s ts = puts T D s ts" using Upsert_frame [of T D t s] by (simp add: puts_def [abs_def])
  moreover have "db_deliveries (Upserts T D ts ?s) = [] \<and> abs_trades (Upserts T D ts ?s) = puts T D ?s ts (abs_trades ?s)"
    by (rule Cons.IH [OF Upsert_up [OF Cons.prems]])
  moreover have "abs_trades ?s = snd (put_once (trade_fk s) (checked_row T D s t) (abs_trades s))"
    using Upsert_refines [OF Cons.prems, of T D t] by (rule conjunct1)
  ultimately show ?case by (simp add: Upserts_def puts_def)
qed (simp add: Upserts_def puts_def)

section \<open>Property\<close>

text \<open>
  C12: The trade store implements a write-once map. While the connection answers, after any number of
  puts the table is what putting their rows under their IDs once makes of the map (the first row
  stays); \<open>Upsert\<close> then answers a trade with the row that the map gives under that trade's own
  ID, new or earlier, and fails exactly when it gives none, and \<open>GetByID\<close> answers what the map
  holds. On any connection, a put happens as in the map or not at all, an \<open>Upsert\<close> that answers
  gives the row that the map gives, under the trade's own ID, and a row that is stored stays as
  it is through any number of further puts, failing ones included.
\<close>

theorem trade_store_refines:
  fixes D :: "'d decimal_ops"
  shows "(db_deliveries s = [] \<longrightarrow>
      abs_trades (Upserts T D ts s) = puts T D s ts (abs_trades s)
      \<and> (case fst (put_once (trade_fk s) (checked_row T D s t) (puts T D s ts (abs_trades s))) of
           Some r \<Rightarrow> fst (Upsert T D t (Upserts T D ts s)) = Inr (scanTrade D r) \<and> pg_uuid T (TradeID t) = Some (TradeID r)
         | None \<Rightarrow> \<exists>f. fst (Upsert T D t (Upserts T D ts s)) = Inl (pg_error T f))
      \<and> fst (GetByID T D k (Upserts T D ts s)) =
          (case pg_uuid T k of
             None \<Rightarrow> Inl (pg_error T InvalidInput)
           | Some u \<Rightarrow> (case puts T D s ts (abs_trades s) u of None \<Rightarrow> Inl ErrNotFound | Some r \<Rightarrow> Inr (scanTrade D r))))
    \<and> abs_trades (snd (Upsert T D t s)) \<in> {abs_trades s, snd (put_once (trade_fk s) (checked_row T D s t) (abs_trades s))}
    \<and> (\<forall>x. fst (Upsert T D t s) = Inr x \<longrightarrow>
         (\<exists>r. fst (put_once (trade_fk s) (checked_row T D s t) (abs_trades s)) = Some r \<and> x = scanTrade D r
            \<and> pg_uuid T (TradeID t) = Some (TradeID r) \<and> abs_trades (snd (Upsert T D t s)) (TradeID r) = Some r))
    \<and> (\<forall>u r. abs_trades s u = Some r \<longrightarrow> abs_trades (Upserts T D ts s) u = Some r)"
proof -
  let ?s = "Upserts T D ts s" and ?m = "puts T D s ts (abs_trades s)"
  have "abs_trades ?s = ?m
      \<and> (case fst (put_once (trade_fk s) (checked_row T D s t) ?m) of
           Some r \<Rightarrow> fst (Upsert T D t ?s) = Inr (scanTrade D r) \<and> pg_uuid T (TradeID t) = Some (TradeID r)
         | None \<Rightarrow> \<exists>f. fst (Upsert T D t ?s) = Inl (pg_error T f))
      \<and> fst (GetByID T D k ?s) = (case pg_uuid T k of None \<Rightarrow> Inl (pg_error T InvalidInput)
           | Some u \<Rightarrow> (case ?m u of None \<Rightarrow> Inl ErrNotFound | Some r \<Rightarrow> Inr (scanTrade D r)))"
    if up: "db_deliveries s = []"
  proof -
    note ref = Upserts_refine [OF up, of T D ts]
    have "case fst (put_once (trade_fk s) (checked_row T D s t) ?m) of
           Some r \<Rightarrow> fst (Upsert T D t ?s) = Inr (scanTrade D r)
         | None \<Rightarrow> \<exists>f. fst (Upsert T D t ?s) = Inl (pg_error T f)"
      using Upsert_refines [OF conjunct1 [OF ref], of T D t] ref by (simp add: Upserts_frame)
    moreover have "pg_uuid T (TradeID t) = Some (TradeID r)"
      if ans: "fst (Upsert T D t ?s) = Inr (scanTrade D r)" for r
    proof -
      obtain q where "scanTrade D r = scanTrade D q" "pg_uuid T (TradeID t) = Some (TradeID q)"
        using Upsert_put [of T D t ?s] ans by blast
      then show ?thesis using scanTrade_fields(1) [of D r] scanTrade_fields(1) [of D q] by simp
    qed
    ultimately show ?thesis
      using ref GetByID_refines [OF conjunct1 [OF ref], of T D k] by (auto split: option.splits)
  qed
  note answers = this
  note put = Upsert_put [of T D t s]
  have "\<forall>u r. abs_trades s u = Some r \<longrightarrow> abs_trades ?s u = Some r"
    using Upserts_keep by blast
  then show ?thesis
    by (intro conjI [OF impI [OF answers] conjI [OF conjunct1 [OF put] conjI [OF conjunct2 [OF put]]]])
qed

theorem trade_store_refines_witness:
  "let t = close_trade ref_decimal (build_trade ex_input); s1 = snd (Upsert ref_pg ref_decimal t ex_db)
   in \<exists>x. fst (Upsert ref_pg ref_decimal t ex_db) = Inr x
        \<and> fst (Upsert ref_pg ref_decimal (t\<lparr>Asset := ''MSFT''\<rparr>) s1) = Inr x
        \<and> fst (GetByID ref_pg ref_decimal ex_trade_id s1) = Inr x"
proof -
  define t where "t = close_trade ref_decimal (build_trade ex_input)"
  obtain row where row: "trade_to_row ref_pg ref_decimal ex_time t = Some row" "TradeID row = ex_trade_id"
    "UserID row = alice" "SessionID row = alice_session" "trade_check row" unfolding t_def by (rule ex_row)
  have row': "trade_to_row ref_pg ref_decimal ex_time (t\<lparr>Asset := ''MSFT''\<rparr>) = Some (row\<lparr>Asset := ''MSFT''\<rparr>)"
    using row(1) by (auto simp: trade_to_row_def bind_eq_Some_conv ref_pg_def split: if_splits)
  have up: "db_deliveries ex_db = []" and now: "db_now ex_db = ex_time" by (simp_all add: ex_db_def)
  have fk: "trade_fk ex_db row" "abs_trades ex_db (TradeID row) = None"
    using row by (simp_all add: trade_fk_def ex_db_def abs_trades_def)
  have c: "checked_row ref_pg ref_decimal ex_db t = Some row"
    "checked_row ref_pg ref_decimal ex_db (t\<lparr>Asset := ''MSFT''\<rparr>) = Some (row\<lparr>Asset := ''MSFT''\<rparr>)"
    using row row' by (simp_all add: checked_row_def now trade_check_def)
  have id: "pg_uuid ref_pg ex_trade_id = Some (TradeID row)"
    using checked_row_key [OF c(1)] row(2) by (simp add: t_def ex_input_def)
  have none: "Upserts ref_pg ref_decimal [] ex_db = ex_db" "puts ref_pg ref_decimal ex_db [] (abs_trades ex_db) = abs_trades ex_db"
    and one: "Upserts ref_pg ref_decimal [t] ex_db = snd (Upsert ref_pg ref_decimal t ex_db)"
    "puts ref_pg ref_decimal ex_db [t] (abs_trades ex_db) = (abs_trades ex_db)(TradeID row \<mapsto> row)"
    by (simp_all add: Upserts_def puts_def c(1) fk)
  have "fst (Upsert ref_pg ref_decimal t ex_db) = Inr (scanTrade ref_decimal row)"
    using trade_store_refines [THEN conjunct1, THEN mp, OF up, of ref_pg ref_decimal "[]" t ex_trade_id]
    by (simp only: none c(1)) (simp add: fk)
  moreover have "fst (Upsert ref_pg ref_decimal (t\<lparr>Asset := ''MSFT''\<rparr>) (snd (Upsert ref_pg ref_decimal t ex_db))) = Inr (scanTrade ref_decimal row)"
    and "fst (GetByID ref_pg ref_decimal ex_trade_id (snd (Upsert ref_pg ref_decimal t ex_db))) = Inr (scanTrade ref_decimal row)"
    using trade_store_refines [THEN conjunct1, THEN mp, OF up, of ref_pg ref_decimal "[t]" "t\<lparr>Asset := ''MSFT''\<rparr>" ex_trade_id]
    by (simp_all only: one c(2) id) simp_all
  ultimately show ?thesis by (simp add: Let_def t_def)
qed

end
