(* ===== verification/Wiring.thy ===== *)
theory Wiring
  imports World
begin

text \<open>
  The wiring of the two processes: the structs of the stores, the clients, the handlers and the
  worker, their constructors, and what \<open>main\<close> and \<open>NewRouter\<close> build from them. The connection
  pool (\<open>'p\<close>) and the Redis client (\<open>'c\<close>) are handles of third-party packages. The operations of
  the other theories act on one \<open>world\<close>, a database and a Redis server; the last section shows
  that the wiring is what makes that right: every handle of a process leads to the same two
  servers.
\<close>

section \<open>Stores (internal/store) and clients (internal/cache)\<close>

record 'p TradeStore = ts_pool :: 'p
record 'p SessionStore = sst_pool :: 'p
record 'p MetricsStore = mst_pool :: 'p
record 'p UserStore = ust_pool :: 'p

definition NewTradeStore :: "'p \<Rightarrow> 'p TradeStore" where "NewTradeStore pool = \<lparr>ts_pool = pool\<rparr>"
definition NewSessionStore :: "'p \<Rightarrow> 'p SessionStore" where "NewSessionStore pool = \<lparr>sst_pool = pool\<rparr>"
definition NewMetricsStore :: "'p \<Rightarrow> 'p MetricsStore" where "NewMetricsStore pool = \<lparr>mst_pool = pool\<rparr>"
definition NewUserStore :: "'p \<Rightarrow> 'p UserStore" where "NewUserStore pool = \<lparr>ust_pool = pool\<rparr>"

record 'c StreamClient = sc_client :: 'c
record 'c ZSetClient = zc_client :: 'c
record 'c MetricsCache = mc_client :: 'c

definition NewStreamClient :: "'c \<Rightarrow> 'c StreamClient" where "NewStreamClient client = \<lparr>sc_client = client\<rparr>"
definition NewZSetClient :: "'c \<Rightarrow> 'c ZSetClient" where "NewZSetClient client = \<lparr>zc_client = client\<rparr>"
definition NewMetricsCache :: "'c \<Rightarrow> 'c MetricsCache" where "NewMetricsCache client = \<lparr>mc_client = client\<rparr>"

section \<open>Handlers (internal/api/handler) and the worker (internal/pipeline)\<close>

record ('p, 'c) TradeHandler =
  th_tradeStore :: "'p TradeStore"
  th_streamClient :: "'c StreamClient"
  th_zsetClient :: "'c ZSetClient"
  th_metricsCache :: "'c MetricsCache"

definition NewTradeHandler ::
  "'p TradeStore \<Rightarrow> 'c StreamClient \<Rightarrow> 'c ZSetClient \<Rightarrow> 'c MetricsCache \<Rightarrow> ('p, 'c) TradeHandler" where
  "NewTradeHandler ts sc zc mc =
     \<lparr>th_tradeStore = ts, th_streamClient = sc, th_zsetClient = zc, th_metricsCache = mc\<rparr>"

record 'p SessionHandler = sh_sessionStore :: "'p SessionStore"

definition NewSessionHandler :: "'p SessionStore \<Rightarrow> 'p SessionHandler" where
  "NewSessionHandler ss = \<lparr>sh_sessionStore = ss\<rparr>"

record ('p, 'c) MetricsHandler =
  mh_metricsStore :: "'p MetricsStore"
  mh_metricsCache :: "'c MetricsCache"

definition NewMetricsHandler :: "'p MetricsStore \<Rightarrow> 'c MetricsCache \<Rightarrow> ('p, 'c) MetricsHandler" where
  "NewMetricsHandler ms mc = \<lparr>mh_metricsStore = ms, mh_metricsCache = mc\<rparr>"

record ('p, 'c) ProfileHandler =
  ph_userStore :: "'p UserStore"
  ph_tradeStore :: "'p TradeStore"
  ph_redisClient :: 'c

definition NewProfileHandler :: "'p UserStore \<Rightarrow> 'p TradeStore \<Rightarrow> 'c \<Rightarrow> ('p, 'c) ProfileHandler" where
  "NewProfileHandler us ts rc = \<lparr>ph_userStore = us, ph_tradeStore = ts, ph_redisClient = rc\<rparr>"

record ('p, 'c) HealthHandler =
  hh_pool :: 'p
  hh_streamClient :: "'c StreamClient"

definition NewHealthHandler :: "'p \<Rightarrow> 'c StreamClient \<Rightarrow> ('p, 'c) HealthHandler" where
  "NewHealthHandler pool sc = \<lparr>hh_pool = pool, hh_streamClient = sc\<rparr>"

record ('p, 'c) pipeline_Worker =
  wk_streamClient :: "'c StreamClient"
  wk_zsetClient :: "'c ZSetClient"
  wk_metricsStore :: "'p MetricsStore"
  wk_tradeStore :: "'p TradeStore"
  wk_metricsCache :: "'c MetricsCache"

definition NewWorker ::
  "'c StreamClient \<Rightarrow> 'c ZSetClient \<Rightarrow> 'p MetricsStore \<Rightarrow> 'p TradeStore \<Rightarrow> 'c MetricsCache \<Rightarrow> ('p, 'c) pipeline_Worker" where
  "NewWorker sc zc ms ts mc =
     \<lparr>wk_streamClient = sc, wk_zsetClient = zc, wk_metricsStore = ms, wk_tradeStore = ts, wk_metricsCache = mc\<rparr>"

section \<open>What the processes build\<close>

record ('p, 'c) handlers =
  hs_trade :: "('p, 'c) TradeHandler"
  hs_session :: "'p SessionHandler"
  hs_metrics :: "('p, 'c) MetricsHandler"
  hs_profile :: "('p, 'c) ProfileHandler"
  hs_health :: "('p, 'c) HealthHandler"

text \<open>The stores and handlers of \<open>NewRouter\<close> (router.go).\<close>

definition router_handlers ::
  "'p \<Rightarrow> 'c \<Rightarrow> 'c StreamClient \<Rightarrow> 'c ZSetClient \<Rightarrow> 'c MetricsCache \<Rightarrow> ('p, 'c) handlers" where
  "router_handlers pool redisClient streamClient zsetClient metricsCache =
     (let tradeStore = NewTradeStore pool;
          sessionStore = NewSessionStore pool;
          metricsStore = NewMetricsStore pool;
          userStore = NewUserStore pool
      in \<lparr>hs_trade = NewTradeHandler tradeStore streamClient zsetClient metricsCache,
          hs_session = NewSessionHandler sessionStore,
          hs_metrics = NewMetricsHandler metricsStore metricsCache,
          hs_profile = NewProfileHandler userStore tradeStore redisClient,
          hs_health = NewHealthHandler pool streamClient\<rparr>)"

text \<open>The clients that \<open>main\<close> of the API hands to the router, and the worker that its \<open>main\<close> runs.\<close>

definition api_handlers :: "'p \<Rightarrow> 'c \<Rightarrow> ('p, 'c) handlers" where
  "api_handlers pool redisClient =
     router_handlers pool redisClient (NewStreamClient redisClient) (NewZSetClient redisClient) (NewMetricsCache redisClient)"

definition main_worker :: "'p \<Rightarrow> 'c \<Rightarrow> ('p, 'c) pipeline_Worker" where
  "main_worker pool redisClient =
     NewWorker (NewStreamClient redisClient) (NewZSetClient redisClient) (NewMetricsStore pool) (NewTradeStore pool)
       (NewMetricsCache redisClient)"

section \<open>One world\<close>

text \<open>The handles through which the handlers and the worker send statements and commands.\<close>

definition handler_pools :: "('p, 'c) handlers \<Rightarrow> 'p list" where
  "handler_pools h =
     [ts_pool (th_tradeStore (hs_trade h)), sst_pool (sh_sessionStore (hs_session h)), mst_pool (mh_metricsStore (hs_metrics h)),
      ust_pool (ph_userStore (hs_profile h)), ts_pool (ph_tradeStore (hs_profile h)), hh_pool (hs_health h)]"

definition handler_clients :: "('p, 'c) handlers \<Rightarrow> 'c list" where
  "handler_clients h =
     [sc_client (th_streamClient (hs_trade h)), zc_client (th_zsetClient (hs_trade h)), mc_client (th_metricsCache (hs_trade h)),
      mc_client (mh_metricsCache (hs_metrics h)), ph_redisClient (hs_profile h), sc_client (hh_streamClient (hs_health h))]"

definition worker_pools :: "('p, 'c) pipeline_Worker \<Rightarrow> 'p list" where
  "worker_pools w = [mst_pool (wk_metricsStore w), ts_pool (wk_tradeStore w)]"

definition worker_clients :: "('p, 'c) pipeline_Worker \<Rightarrow> 'c list" where
  "worker_clients w = [sc_client (wk_streamClient w), zc_client (wk_zsetClient w), mc_client (wk_metricsCache w)]"

text \<open>
  The servers behind the handles: a statement through a pool acts on the database behind it, a
  command through a client on the Redis server behind it.
\<close>

record ('p, 'c, 'r) servers =
  sv_db :: "'p \<Rightarrow> db"
  sv_redis :: "'c \<Rightarrow> 'r"

definition via_pool :: "'p \<Rightarrow> 'a stmt \<Rightarrow> ('p, 'c, 'r) servers \<Rightarrow> (go_error + 'a) \<times> ('p, 'c, 'r) servers" where
  "via_pool p q n = (case q (sv_db n p) of (x, s) \<Rightarrow> (x, n\<lparr>sv_db := (sv_db n)(p := s)\<rparr>))"

definition via_client :: "'c \<Rightarrow> ('r, 'a) rcmd \<Rightarrow> ('p, 'c, 'r) servers \<Rightarrow> (string + 'a) \<times> ('p, 'c, 'r) servers" where
  "via_client c q n = (case q (sv_redis n c) of (x, s) \<Rightarrow> (x, n\<lparr>sv_redis := (sv_redis n)(c := s)\<rparr>))"

definition world_behind :: "'p \<Rightarrow> 'c \<Rightarrow> ('p, 'c, 'r) servers \<Rightarrow> 'r world" where
  "world_behind pool rc n = \<lparr>w_db = sv_db n pool, w_redis = sv_redis n rc\<rparr>"

lemma one_pool: "p \<in> set (handler_pools (api_handlers pool rc)) \<union> set (worker_pools (main_worker pool rc)) \<Longrightarrow> p = pool"
  by (auto simp: handler_pools_def worker_pools_def api_handlers_def router_handlers_def main_worker_def Let_def
      NewTradeStore_def NewSessionStore_def NewMetricsStore_def NewUserStore_def NewTradeHandler_def
      NewSessionHandler_def NewMetricsHandler_def NewProfileHandler_def NewHealthHandler_def NewWorker_def)

lemma one_client: "c \<in> set (handler_clients (api_handlers pool rc)) \<union> set (worker_clients (main_worker pool rc)) \<Longrightarrow> c = rc"
  by (auto simp: handler_clients_def worker_clients_def api_handlers_def router_handlers_def main_worker_def Let_def
      NewStreamClient_def NewZSetClient_def NewMetricsCache_def NewTradeHandler_def
      NewMetricsHandler_def NewProfileHandler_def NewHealthHandler_def NewWorker_def)

text \<open>
  Whichever handle of the API or the worker a statement or a command goes through, it acts on the
  world behind the pool and the client of \<open>main\<close>, as \<open>on_db\<close> and \<open>on_redis\<close> do.
\<close>

lemma wiring_one_world:
  assumes "p \<in> set (handler_pools (api_handlers pool rc)) \<union> set (worker_pools (main_worker pool rc))"
    and "c \<in> set (handler_clients (api_handlers pool rc)) \<union> set (worker_clients (main_worker pool rc))"
  shows "map_prod id (world_behind pool rc) (via_pool p q n) = on_db q (world_behind pool rc n)"
    "map_prod id (world_behind pool rc) (via_client c k n) = on_redis k (world_behind pool rc n)"
  unfolding one_pool [OF assms(1)] one_client [OF assms(2)]
  by (simp_all add: via_pool_def via_client_def on_db_def on_redis_def world_behind_def split: prod.splits)

end
