(* ===== verification/Spec2Isabelle.thy ===== *)
theory Spec2Isabelle
  imports Processes Ledger_View Interleaved Concurrent_Counts Post_Answers Debrief_Answers Trade_Spec Event_Flow Wiring
begin

text \<open>
  Verification of the trade journal backend: a shallow embedding of its Go code (\<open>cmd/\<close> and
  \<open>internal/\<close>) and of the SQL it sends, with the theorems that make it correct.

  \<^bold>\<open>The program and its parts.\<close> Two processes share one PostgreSQL database and one Redis server.
  The API (\<open>cmd/api\<close>) authenticates a request with a JWT, dispatches it to a handler and answers
  it. POST /trades validates the body, computes the P\&L, flags revenge trading with the last-loss
  key in Redis, stores the trade once under its client-chosen ID, and starts goroutines that
  publish an event to a Redis stream, remember a loss for 90 seconds and enter the trade into the
  sliding window of its user. The worker (\<open>cmd/worker\<close>) reads the stream as a consumer group and
  adds every closed trade to the hourly bucket of its user, together with the plan adherence, the
  session tilt, the win rate of the emotion and an overtrading event. The metrics, profile and
  session endpoints read the tables back, partly through a cache of five minutes; the coaching
  endpoint streams a message; the health endpoint reports the age of the stream's last entry.

  \<^bold>\<open>Which theory models what.\<close> Definitions keep the names of the Go code.
  \<^item> Foundations. \<open>Prelude\<close>: collections of rewrite rules and generic lemmas. \<open>Go_Float\<close>: IEEE
    binary64 with round to nearest even. \<open>Go_Text\<close>: \<open>strconv\<close>, prefixes, splitting. \<open>Go_Time\<close>:
    instants in nanoseconds (UTC), saturating durations, the calendar, RFC 3339. \<open>Decimal\<close>: the
    operations of \<open>shopspring/decimal\<close> as a record of functions, their laws as a locale.
  \<^item> \<open>internal/domain\<close>. \<open>Domain\<close>: enumerations, errors, \<open>TradeInput\<close> and \<open>Trade\<close> as extensible
    records, \<open>Validate\<close>, \<open>ComputePnL\<close>, \<open>IsRevenge\<close>, \<open>RollingAvg\<close>, \<open>SessionTiltIndex\<close>.
  \<^item> \<open>internal/store\<close>. \<open>Postgres\<close>: the tables of the migrations as a record of row lists, the
    conversions of the server as a record with laws, sending a statement over a connection that can
    lose the request or the reply, keyed tables with both \<open>ON CONFLICT\<close> clauses. \<open>Trade_Store\<close>,
    \<open>Metrics_Store\<close>, \<open>Session_Store\<close> (with users): one definition per statement and per method.
    \<open>Startup\<close>: \<open>NewPool\<close>.
  \<^item> \<open>internal/cache\<close>. \<open>Redis\<close>: the commands used, three locales with their documented behaviour
    (keys with expiry, sorted sets, streams with a group) and an in-memory server. \<open>Cache\<close>: the
    metrics cache, the last-loss key, the overtrading window and the stream client. \<open>Startup\<close>: the
    client itself.
  \<^item> \<open>internal/pipeline\<close>. \<open>Worker\<close>: the five updates of a message, its acknowledgement, the loop.
    \<open>World\<close> is the pair of servers that the processes act on.
  \<^item> \<open>internal/api\<close>. \<open>Http\<close>: requests, responses, the log writer and goroutines as tasks that run
    after the response. \<open>Auth\<close>: both middlewares and \<open>cmd/jwtgen\<close>. \<open>Trade_Handler\<close>,
    \<open>Session_Handler\<close> (with \<open>Coaching\<close>), \<open>Metrics_Handler\<close>, \<open>Profile_Handler\<close>,
    \<open>Health_Handler\<close>: the handlers, every guard and early return. \<open>Router\<close>: the route table, the
    protected group and the chain in front of it.
    \<open>Programs\<close>: the handlers and the worker again, as trees whose nodes are single statements and
    commands, with the proof that running such a tree alone is the handler or the step.
  \<^item> \<open>cmd\<close>. \<open>Startup\<close>: settings, the connection loops with their back-off on 64-bit words, the
    migrator. \<open>Processes\<close>: the API and the worker from their settings to their loops. \<open>Wiring\<close>: the
    structs and constructors, and that every handle of a process leads to the same two servers.

  \<^bold>\<open>What the lemmas show.\<close>
  \<^item> The whole system, statement by statement (\<open>Interleaved\<close>): \<open>pool_step\<close> interleaves the actions of
    any number of requests, goroutines and passes of workers, with the loss of any of them and
    anything that happens to Redis and to the connections. In every reachable state the tables
    satisfy their invariants and have only grown, and every answer that was given is backed by
    rows, of the subject it was given to. The proof is by rely and guarantee: the locale
    \<open>guarantee\<close>, interpreted with the invariant and the growth of the ledger, and the judgement
    \<open>safe\<close> of programs. \<open>Concurrent_Counts\<close>: workers that run at the same time leave the counts
    that one would leave. \<open>System\<close> has the same invariants for requests and messages as single
    steps, and what a single request can write. \<open>Score_Range\<close> carries the ranges of the stored
    scores through the server's averages and the float arithmetic to the answer of the metrics
    endpoint.
  \<^item> From the request to the metrics (\<open>Ledger_View\<close>): the buckets that the worker maintains event by
    event equal the grouping query over the stored trades, for any order of the events and, composed
    with POST and its goroutines, for any sequence of POSTs that do not repeat an ID; a repeated
    POST breaks this by one. \<open>Drain\<close>: enough polls deliver, count and acknowledge the whole backlog.
    \<open>Event_Flow\<close>: the published event means to the worker what the row says; a recorded loss flags
    the next trade. \<open>Bucket_Scores\<close>: the scores a message leaves in its bucket.
  \<^item> Contracts: \<open>Trade_Spec\<close> refines the trade store to a map in which every key is written once;
    \<open>Concurrent_Posts\<close> interleaves the statements of concurrent upserts: those of one ID agree;
    \<open>Post_Answers\<close> and \<open>Debrief_Answers\<close> give the status of both POSTs on every branch, and the
    column types that validation guarantees; the handler theories state who gets which answer, that
    reads change nothing, that the cache is transparent until it expires, and what the computed
    answers contain.

  \<^bold>\<open>Interfaces and hypotheses.\<close> Code outside the repository is an argument of the definitions that
  use it, with a locale of documented laws and an interpretation on a concrete instance:
  \<open>postgres\<close> (UUID, NUMERIC, TIMESTAMPTZ and TEXT conversions, AVG, \<open>time_bucket\<close>, scan order),
  \<open>decimal\<close>, \<open>redis_keys\<close>, \<open>redis_zset\<close>, \<open>redis_stream\<close> with its extensions \<open>redis_live\<close> and
  \<open>redis_app\<close> for a server that answers, \<open>jwt_library\<close>, \<open>chi_library\<close>. \<open>keyed_table\<close> is a contract
  inside the model, interpreted on the tables it describes, and \<open>backend\<close> joins the database with
  the decimals. The JSON codecs, the listener, the drivers' dial results and goose are plain
  arguments without laws.

  \<^bold>\<open>Bounds.\<close> The loop of the worker takes the number of times its context is found alive as its
  fuel; a run may use any number, and one poll per ten entries of the backlog is enough to drain it.
  A connection is a script of outcomes for the next statements, empty when it stays up; properties
  without that hypothesis hold for every script. \<open>NewPool\<close> ends after ten attempts and 181 seconds
  of pauses, the migrator's loop after twenty and 175. Counters of a bucket are INT columns and sums
  NUMERIC(18,8): the theorems about them ask for the room, and an upsert that has none is refused.
  Counts that go through a float64 are bounded by \<open>2 ^ 53\<close>. Integers of Go that are computed with
  are words or are proved to stay in range; times print in RFC 3339 for the years 0 to 9999.

  \<^bold>\<open>Not modelled.\<close> Log output apart from the fields of the request line; pauses apart from their
  sum in the connection loops; the text of JSON documents and the \<open>%q\<close> quoting of streamed events;
  chi's Recoverer (the handlers are total here); the time limits of the HTTP server, graceful
  shutdown and signals, which show as the end of the listener or of the polls; local time zones.
  A statement is atomic, and so is a call of the Redis clients, also where it pipelines several
  commands; no transaction is modelled, because the code uses none. Hypertables, indexes and seed
  data do not change what a statement answers and are left out, as are tests, load scripts and
  deployment files.
\<close>

end
